(* ===== verification/Otr_Prelude.thy ===== *)
theory Otr_Prelude
  imports Main "HOL-Library.Word" "HOL-Library.Monad_Syntax"
begin

text \<open>
  The shared vocabulary of the development: bytes and machine integers, big-endian
  numerals, the outcome conventions of the model, and the generic facts the component
  theories use.

  Conventions. A Go \<^verbatim>\<open>[]byte\<close> is a \<^typ>\<open>8 word list\<close>; \<^verbatim>\<open>uint16\<close>, \<^verbatim>\<open>uint32\<close>,
  \<^verbatim>\<open>uint64\<close> are words of that width; a \<^verbatim>\<open>*big.Int\<close> is an \<^typ>\<open>int\<close>, or an
  \<^typ>\<open>int option\<close> where the code can hold \<^verbatim>\<open>nil\<close>. A function that can hit a run-time
  panic (nil dereference, slice out of range) returns an \<open>option\<close> whose
  \<^term>\<open>None\<close> is the panic; a Go \<^verbatim>\<open>error\<close> is an ordinary value (\<open>go_error\<close>),
  since the state changes made before an error stay.
\<close>

unbundle bit_operations_syntax

type_synonym byte = "8 word"
type_synonym bytes = "8 word list"
type_synonym uint16 = "16 word"
type_synonym uint32 = "32 word"
type_synonym uint64 = "64 word"

named_theorems wire "encode/decode laws of the wire formats"
named_theorems len "lengths of encodings and digests"

section \<open>Strings as bytes\<close>

definition str :: "string \<Rightarrow> bytes" where
  "str s = map of_char s"

lemma length_str [simp]: "length (str s) = length s"
  by (simp add: str_def)

section \<open>Big-endian numerals\<close>

text \<open>\<open>be_nat\<close> is \<^verbatim>\<open>big.Int.SetBytes\<close> and \<^verbatim>\<open>binary.BigEndian.Uint..\<close>; \<open>put_be k\<close> writes
  exactly \<open>k\<close> bytes (\<^verbatim>\<open>binary.BigEndian.PutUint..\<close>); \<open>nat_bytes\<close> is the minimal
  encoding (\<^verbatim>\<open>big.Int.Bytes\<close>).\<close>

definition be_nat :: "bytes \<Rightarrow> nat" where
  "be_nat bs = foldl (\<lambda>a b. 256 * a + unat b) 0 bs"

fun put_be :: "nat \<Rightarrow> nat \<Rightarrow> bytes" where
  "put_be 0 n = []"
| "put_be (Suc k) n = put_be k (n div 256) @ [of_nat (n mod 256)]"

fun nat_bytes :: "nat \<Rightarrow> bytes" where
  "nat_bytes n = (if n = 0 then [] else nat_bytes (n div 256) @ [of_nat (n mod 256)])"

declare nat_bytes.simps [simp del]

lemma unat_byte_less [simp]: "unat (b :: byte) < 256"
  using unsigned_less [of b, where ?'a = nat] by simp

lemma unat_of_nat_byte [simp]: "unat (of_nat (n mod 256) :: byte) = n mod 256"
  by (simp add: unat_of_nat)

lemma be_nat_Nil [simp]: "be_nat [] = 0"
  by (simp add: be_nat_def)

lemma be_nat_snoc [simp]: "be_nat (bs @ [b]) = 256 * be_nat bs + unat b"
  by (simp add: be_nat_def)

lemma be_nat_append: "be_nat (xs @ ys) = be_nat xs * 256 ^ length ys + be_nat ys"
  by (induction ys rule: rev_induct) (simp_all flip: append_assoc add: algebra_simps)

lemma be_nat_Cons: "be_nat (b # bs) = unat b * 256 ^ length bs + be_nat bs"
  using be_nat_append [of "[b]" bs] by (simp add: be_nat_def)

lemma be_nat_less: "be_nat bs < 256 ^ length bs"
proof (induction bs rule: rev_induct)
  case (snoc b bs)
  have "256 * be_nat bs + unat b < 256 * (be_nat bs + 1)" by simp
  also have "\<dots> \<le> 256 * 256 ^ length bs" using snoc by (intro mult_le_mono2) simp
  finally show ?case by simp
qed simp

lemma length_put_be [simp, len]: "length (put_be k n) = k"
  by (induction k arbitrary: n) simp_all

lemma be_nat_put_be [simp]: "be_nat (put_be k n) = n mod 256 ^ k"
proof (induction k arbitrary: n)
  case (Suc k)
  then show ?case by (simp add: mod_mult2_eq)
qed simp

lemma put_be_be_nat: "put_be (length bs) (be_nat bs) = bs"
proof (induction bs rule: rev_induct)
  case (snoc b bs)
  have "(256 * be_nat bs + unat b) div 256 = be_nat bs"
    and "(256 * be_nat bs + unat b) mod 256 = unat b" by simp_all
  with snoc show ?case by simp
qed simp

lemma nat_bytes_0 [simp]: "nat_bytes 0 = []"
  by (simp add: nat_bytes.simps)

lemma nat_bytes_pos: "0 < n \<Longrightarrow> nat_bytes n = nat_bytes (n div 256) @ [of_nat (n mod 256)]"
  by (simp add: nat_bytes.simps [of n])

lemma be_nat_nat_bytes [simp]: "be_nat (nat_bytes n) = n"
proof (induction n rule: nat_bytes.induct)
  case (1 n)
  then show ?case by (cases "n = 0") (simp_all add: nat_bytes_pos)
qed

lemma length_nat_bytes_le: "n < 256 ^ k \<Longrightarrow> length (nat_bytes n) \<le> k"
proof (induction n arbitrary: k rule: nat_bytes.induct)
  case (1 n)
  show ?case
  proof (cases "n = 0")
    case False
    with 1(2) obtain j where k: "k = Suc j" by (cases k) auto
    with 1(2) have "n div 256 < 256 ^ j" by (simp add: less_mult_imp_div_less mult.commute)
    with 1(1) False have "length (nat_bytes (n div 256)) \<le> j" by blast
    with False k show ?thesis by (simp add: nat_bytes_pos)
  qed simp
qed

lemma nat_bytes_hd: "0 < n \<Longrightarrow> nat_bytes n \<noteq> [] \<and> hd (nat_bytes n) \<noteq> 0"
proof (induction n rule: nat_bytes.induct)
  case (1 n)
  show ?case
  proof (cases "n < 256")
    case True
    then have "(of_nat n :: byte) \<noteq> 0"
      using 1 by (simp add: word_unat_eq_iff unat_of_nat)
    with True 1 show ?thesis by (simp add: nat_bytes_pos)
  next
    case False
    with 1 have "nat_bytes (n div 256) \<noteq> [] \<and> hd (nat_bytes (n div 256)) \<noteq> 0" by simp
    with 1 show ?thesis by (simp add: nat_bytes_pos)
  qed
qed

section \<open>Slices\<close>

text \<open>\<open>slice s lo hi\<close> is Go's \<^verbatim>\<open>s[lo:hi]\<close> where both bounds are within the length: out of
  range it panics. (Go bounds \<open>hi\<close> by the capacity; every use in the code where that could
  differ re-slices by the length at once, and panics there.)\<close>

definition slice :: "bytes \<Rightarrow> nat \<Rightarrow> nat \<Rightarrow> bytes option" where
  "slice s lo hi = (if lo \<le> hi \<and> hi \<le> length s then Some (take (hi - lo) (drop lo s)) else None)"

lemma slice_eq_Some: "slice s lo hi = Some t \<longleftrightarrow> lo \<le> hi \<and> hi \<le> length s \<and> t = take (hi - lo) (drop lo s)"
  by (auto simp: slice_def)

lemma split_append_len [simp]:
  assumes "n = length xs"
  shows "take n (xs @ ys) = xs" "drop n (xs @ ys) = ys"
  using assms by simp_all

end
