(* ===== verification/Gotrax.thy ===== *)
theory Gotrax
  imports Otr_Prelude
begin

text \<open>
  The vendored package gotrax (\<^verbatim>\<open>vendor/github.com/coyim/gotrax\<close>): big-endian serialisation
  of shorts, words, longs, length-prefixed data and multi-precision integers, and the
  matching extractors. A result \<^verbatim>\<open>(rest, value, ok)\<close> of the Go code is
  \<open>Some (rest, value)\<close> when \<^verbatim>\<open>ok\<close>, and \<^term>\<open>None\<close> otherwise.

  The locale \<open>codec\<close> states the contract every wire format of the library relies on;
  it is interpreted on each pair of the package.
\<close>

section \<open>The contract of a wire format\<close>

locale codec =
  fixes enc :: "'a \<Rightarrow> bytes"
    and dec :: "bytes \<Rightarrow> (bytes \<times> 'a) option"
    and wf :: "'a \<Rightarrow> bool"
  assumes dec_enc: "wf x \<Longrightarrow> dec (enc x @ rest) = Some (rest, x)"
    and dec_suffix: "dec d = Some (rest, x) \<Longrightarrow> \<exists>pre. d = pre @ rest"
begin

lemma dec_enc_exact: "wf x \<Longrightarrow> dec (enc x) = Some ([], x)"
  using dec_enc [of x "[]"] by simp

lemma enc_inj: "wf x \<Longrightarrow> wf y \<Longrightarrow> enc x @ r = enc y @ s \<Longrightarrow> x = y \<and> r = s"
  by (metis dec_enc option.inject prod.inject)

lemma dec_length: "dec d = Some (rest, x) \<Longrightarrow> length rest \<le> length d"
  by (auto dest: dec_suffix)

end

section \<open>serialize.go\<close>

definition SerializeShort :: "uint16 \<Rightarrow> bytes" where
  "SerializeShort r = put_be 2 (unat r)"

definition SerializeWord :: "uint32 \<Rightarrow> bytes" where
  "SerializeWord r = put_be 4 (unat r)"

definition SerializeLong :: "uint64 \<Rightarrow> bytes" where
  "SerializeLong r = put_be 8 (unat r)"

text \<open>The deserialisers read the first 2, 4 or 8 bytes; the callers check the length first.\<close>

definition DeserializeShort :: "bytes \<Rightarrow> uint16" where
  "DeserializeShort d = of_nat (be_nat (take 2 d))"

definition DeserializeWord :: "bytes \<Rightarrow> uint32" where
  "DeserializeWord d = of_nat (be_nat (take 4 d))"

definition DeserializeLong :: "bytes \<Rightarrow> uint64" where
  "DeserializeLong d = of_nat (be_nat (take 8 d))"

section \<open>append.go\<close>

definition AppendShort :: "bytes \<Rightarrow> uint16 \<Rightarrow> bytes" where
  "AppendShort l r = l @ SerializeShort r"

definition AppendWord :: "bytes \<Rightarrow> uint32 \<Rightarrow> bytes" where
  "AppendWord l r = l @ SerializeWord r"

definition AppendLong :: "bytes \<Rightarrow> uint64 \<Rightarrow> bytes" where
  "AppendLong l r = l @ SerializeLong r"

definition AppendData :: "bytes \<Rightarrow> bytes \<Rightarrow> bytes" where
  "AppendData l r = AppendWord l (of_nat (length r)) @ r"

text \<open>\<open>big_Bytes\<close> is \<^verbatim>\<open>big.Int.Bytes\<close> (the absolute value), \<open>big_SetBytes\<close> its inverse.\<close>

definition big_Bytes :: "int \<Rightarrow> bytes" where
  "big_Bytes n = nat_bytes (nat \<bar>n\<bar>)"

definition big_SetBytes :: "bytes \<Rightarrow> int" where
  "big_SetBytes b = int (be_nat b)"

definition AppendMPI :: "bytes \<Rightarrow> int \<Rightarrow> bytes" where
  "AppendMPI l r = AppendData l (big_Bytes r)"

fun AppendMPIs :: "bytes \<Rightarrow> int list \<Rightarrow> bytes" where
  "AppendMPIs l [] = l"
| "AppendMPIs l (mpi # r) = AppendMPIs (AppendMPI l mpi) r"

section \<open>extract.go\<close>

definition ExtractByte :: "bytes \<Rightarrow> (bytes \<times> byte) option" where
  "ExtractByte d = (case d of [] \<Rightarrow> None | b # r \<Rightarrow> Some (r, b))"

definition ExtractShort :: "bytes \<Rightarrow> (bytes \<times> uint16) option" where
  "ExtractShort d = (if length d < 2 then None else Some (drop 2 d, DeserializeShort d))"

definition ExtractWord :: "bytes \<Rightarrow> (bytes \<times> uint32) option" where
  "ExtractWord d = (if length d < 4 then None else Some (drop 4 d, DeserializeWord d))"

definition ExtractLong :: "bytes \<Rightarrow> (bytes \<times> uint64) option" where
  "ExtractLong d = (if length d < 8 then None else Some (drop 8 d, DeserializeLong d))"

definition ExtractData :: "bytes \<Rightarrow> (bytes \<times> bytes) option" where
  "ExtractData d =
     (case ExtractWord d of
        None \<Rightarrow> None
      | Some (newPoint, l) \<Rightarrow>
          if length newPoint < unat l then None
          else Some (drop (unat l) newPoint, take (unat l) newPoint))"

definition ExtractFixedData :: "bytes \<Rightarrow> nat \<Rightarrow> (bytes \<times> bytes) option" where
  "ExtractFixedData d l = (if length d < l then None else Some (drop l d, take l d))"

definition ExtractMPI :: "bytes \<Rightarrow> (bytes \<times> int) option" where
  "ExtractMPI d =
     (case ExtractWord d of
        None \<Rightarrow> None
      | Some (d', mpiLen) \<Rightarrow>
          if length d' < unat mpiLen then None
          else Some (drop (unat mpiLen) d', big_SetBytes (take (unat mpiLen) d')))"

fun ExtractMPIs_loop :: "nat \<Rightarrow> bytes \<Rightarrow> (bytes \<times> int list) option" where
  "ExtractMPIs_loop 0 current = Some (current, [])"
| "ExtractMPIs_loop (Suc i) current =
     (case ExtractMPI current of
        None \<Rightarrow> None
      | Some (current', m) \<Rightarrow>
          (case ExtractMPIs_loop i current' of
             None \<Rightarrow> None
           | Some (rest, ms) \<Rightarrow> Some (rest, m # ms)))"

definition ExtractMPIs :: "bytes \<Rightarrow> (bytes \<times> int list) option" where
  "ExtractMPIs d =
     (case ExtractWord d of
        None \<Rightarrow> None
      | Some (current, mpiCount) \<Rightarrow> ExtractMPIs_loop (unat mpiCount) current)"

section \<open>Lengths and round trips\<close>

lemma unat_uint16_less [simp]: "unat (r :: uint16) < 65536"
  using unsigned_less [of r, where ?'a = nat] by simp

lemma unat_uint32_less [simp]: "unat (r :: uint32) < 4294967296"
  using unsigned_less [of r, where ?'a = nat] by simp

lemma unat_uint64_less [simp]: "unat (r :: uint64) < 18446744073709551616"
  using unsigned_less [of r, where ?'a = nat] by simp

lemma length_Serialize [simp, len]:
  "length (SerializeShort s) = 2" "length (SerializeWord w) = 4" "length (SerializeLong l) = 8"
  by (simp_all add: SerializeShort_def SerializeWord_def SerializeLong_def)

lemma Deserialize_Serialize [simp]:
  "DeserializeShort (SerializeShort s @ r) = s"
  "DeserializeWord (SerializeWord w @ r) = w"
  "DeserializeLong (SerializeLong l @ r) = l"
  by (simp_all add: DeserializeShort_def SerializeShort_def DeserializeWord_def SerializeWord_def
      DeserializeLong_def SerializeLong_def)

lemma Append_nil [simp]:
  "AppendShort [] s = SerializeShort s" "AppendWord [] w = SerializeWord w"
  "AppendLong [] l = SerializeLong l"
  by (simp_all add: AppendShort_def AppendWord_def AppendLong_def)

lemma ExtractShort_Serialize [simp, wire]: "ExtractShort (SerializeShort s @ r) = Some (r, s)"
  by (simp add: ExtractShort_def)

lemma ExtractWord_Serialize [simp, wire]: "ExtractWord (SerializeWord w @ r) = Some (r, w)"
  by (simp add: ExtractWord_def)

lemma ExtractLong_Serialize [simp, wire]: "ExtractLong (SerializeLong l @ r) = Some (r, l)"
  by (simp add: ExtractLong_def)

lemma AppendData_split: "AppendData l r = l @ AppendData [] r"
  by (simp add: AppendData_def AppendWord_def)

lemma AppendMPI_split: "AppendMPI l r = l @ AppendMPI [] r"
  unfolding AppendMPI_def by (rule AppendData_split)

lemma AppendMPIs_split: "AppendMPIs l r = l @ AppendMPIs [] r"
proof (induction r arbitrary: l)
  case (Cons m r)
  have "AppendMPIs l (m # r) = AppendMPI l m @ AppendMPIs [] r"
    using Cons.IH [of "AppendMPI l m"] by simp
  also have "\<dots> = l @ AppendMPIs (AppendMPI [] m) r"
    using Cons.IH [of "AppendMPI [] m"] by (simp add: AppendMPI_split [of l])
  finally show ?case by simp
qed simp

lemma AppendMPIs_Cons: "AppendMPIs [] (m # r) = AppendMPI [] m @ AppendMPIs [] r"
  by (simp add: AppendMPIs_split [of "AppendMPI [] m"])

text \<open>A length fits its 32-bit prefix, and an integer is an MPI when its encoding does.\<close>

definition data_ok :: "bytes \<Rightarrow> bool" where
  "data_ok d \<longleftrightarrow> length d < 4294967296"

definition mpi_ok :: "int \<Rightarrow> bool" where
  "mpi_ok n \<longleftrightarrow> 0 \<le> n \<and> length (big_Bytes n) < 4294967296"

lemma unat_of_nat_word32 [simp]: "n < 4294967296 \<Longrightarrow> unat (of_nat n :: uint32) = n"
  by (simp add: unat_of_nat)

lemma unat_of_nat_word16: "n < 65536 \<Longrightarrow> unat (of_nat n :: uint16) = n"
  by (simp add: unat_of_nat)

lemma ExtractData_Append [wire]: "data_ok d \<Longrightarrow> ExtractData (AppendData [] d @ r) = Some (r, d)"
  by (simp add: ExtractData_def AppendData_def data_ok_def)

lemma big_SetBytes_Bytes [simp]: "0 \<le> n \<Longrightarrow> big_SetBytes (big_Bytes n) = n"
  by (simp add: big_SetBytes_def big_Bytes_def)

lemma ExtractMPI_Append [wire]: "mpi_ok n \<Longrightarrow> ExtractMPI (AppendMPI [] n @ r) = Some (r, n)"
  by (simp add: ExtractMPI_def AppendMPI_def AppendData_def mpi_ok_def)

lemma ExtractMPIs_loop_Append:
  "list_all mpi_ok ms \<Longrightarrow> ExtractMPIs_loop (length ms) (AppendMPIs [] ms @ r) = Some (r, ms)"
proof (induction ms)
  case (Cons m ms)
  then show ?case by (simp add: AppendMPIs_Cons ExtractMPI_Append del: AppendMPIs.simps)
qed simp

lemma ExtractWord_suffix: "ExtractWord d = Some (r, w) \<Longrightarrow> \<exists>p. d = p @ r"
  by (auto simp: ExtractWord_def split: if_splits intro!: exI [of _ "take 4 d"])

lemma ExtractShort_suffix: "ExtractShort d = Some (r, w) \<Longrightarrow> \<exists>p. d = p @ r"
  by (auto simp: ExtractShort_def split: if_splits intro!: exI [of _ "take 2 d"])

lemma ExtractLong_suffix: "ExtractLong d = Some (r, w) \<Longrightarrow> \<exists>p. d = p @ r"
  by (auto simp: ExtractLong_def split: if_splits intro!: exI [of _ "take 8 d"])

lemma ExtractData_suffix: "ExtractData d = Some (r, x) \<Longrightarrow> \<exists>p. d = p @ r"
proof -
  assume "ExtractData d = Some (r, x)"
  then obtain np l where "ExtractWord d = Some (np, l)" and "r = drop (unat l) np"
    by (auto simp: ExtractData_def split: option.splits if_splits)
  then show ?thesis
    by (metis ExtractWord_suffix append.assoc append_take_drop_id)
qed

lemma ExtractMPI_suffix: "ExtractMPI d = Some (r, x) \<Longrightarrow> \<exists>p. d = p @ r"
proof -
  assume "ExtractMPI d = Some (r, x)"
  then obtain np l where "ExtractWord d = Some (np, l)" and "r = drop (unat l) np"
    by (auto simp: ExtractMPI_def split: option.splits if_splits)
  then show ?thesis
    by (metis ExtractWord_suffix append.assoc append_take_drop_id)
qed

text \<open>\<^verbatim>\<open>genSMPTLV\<close>'s layout: a count word, then the integers.\<close>

definition mpis_enc :: "int list \<Rightarrow> bytes" where
  "mpis_enc ms = AppendMPIs (AppendWord [] (of_nat (length ms))) ms"

definition mpis_ok :: "int list \<Rightarrow> bool" where
  "mpis_ok ms \<longleftrightarrow> length ms < 4294967296 \<and> list_all mpi_ok ms"

lemma ExtractMPIs_loop_suffix: "ExtractMPIs_loop n d = Some (r, ms) \<Longrightarrow> \<exists>p. d = p @ r"
proof (induction n arbitrary: d ms)
  case (Suc n)
  then obtain d' m ms' where "ExtractMPI d = Some (d', m)" "ExtractMPIs_loop n d' = Some (r, ms')"
    by (auto split: option.splits)
  with Suc.IH [of d' ms'] ExtractMPI_suffix [of d d' m] show ?case by auto
qed simp

lemma ExtractMPIs_loop_length: "ExtractMPIs_loop n d = Some (r, ms) \<Longrightarrow> length ms = n"
  by (induction n arbitrary: d ms) (auto split: option.splits)

interpretation short: codec SerializeShort ExtractShort "\<lambda>_. True"
  by unfold_locales (simp_all add: ExtractShort_suffix)

interpretation word: codec SerializeWord ExtractWord "\<lambda>_. True"
  by unfold_locales (simp_all add: ExtractWord_suffix)

interpretation long: codec SerializeLong ExtractLong "\<lambda>_. True"
  by unfold_locales (simp_all add: ExtractLong_suffix)

interpretation data: codec "AppendData []" ExtractData data_ok
  by unfold_locales (simp_all add: ExtractData_Append ExtractData_suffix)

interpretation mpi: codec "AppendMPI []" ExtractMPI mpi_ok
  by unfold_locales (simp_all add: ExtractMPI_Append ExtractMPI_suffix)

interpretation mpis: codec mpis_enc ExtractMPIs mpis_ok
proof unfold_locales
  fix ms r assume "mpis_ok ms"
  then show "ExtractMPIs (mpis_enc ms @ r) = Some (r, ms)"
    by (simp add: ExtractMPIs_def mpis_enc_def mpis_ok_def ExtractMPIs_loop_Append
        AppendMPIs_split [of "SerializeWord (of_nat (length ms))"])
next
  fix d r ms assume "ExtractMPIs d = Some (r, ms)"
  then show "\<exists>p. d = p @ r"
    by (fastforce simp: ExtractMPIs_def split: option.splits dest: ExtractWord_suffix ExtractMPIs_loop_suffix)
qed

end
