(* ===== verification/Go_Std.thy ===== *)
theory Go_Std
  imports Gotrax
begin

text \<open>
  What the library uses of Go's standard library: \<^verbatim>\<open>strconv\<close> and \<^verbatim>\<open>fmt\<close> numerals,
  \<^verbatim>\<open>bytes.Split\<close>, \<^verbatim>\<open>bytes.Index\<close> and \<^verbatim>\<open>bytes.HasPrefix\<close>, \<^verbatim>\<open>base64.StdEncoding\<close>,
  \<^verbatim>\<open>io.ReadFull\<close> and the operations of \<^verbatim>\<open>math/big\<close>.
\<close>

section \<open>Numerals: fmt and strconv\<close>

fun to_base :: "nat \<Rightarrow> nat \<Rightarrow> nat list" where
  "to_base b n = (if b < 2 \<or> n < b then [n] else to_base b (n div b) @ [n mod b])"

declare to_base.simps [simp del]

definition digit_char :: "nat \<Rightarrow> byte" where
  "digit_char d = (if d < 10 then of_nat (48 + d) else of_nat (87 + d))"

text \<open>\<open>fmt_num b w n\<close>: \<^verbatim>\<open>%0wd\<close> (base 10) and \<^verbatim>\<open>%0wx\<close> (base 16) of a non-negative number.\<close>

definition fmt_num :: "nat \<Rightarrow> nat \<Rightarrow> nat \<Rightarrow> bytes" where
  "fmt_num b w n =
     (let ds = map digit_char (to_base b n) in replicate (w - length ds) (digit_char 0) @ ds)"

text \<open>The digits of \<^verbatim>\<open>%X\<close>.\<close>

definition upper :: "byte \<Rightarrow> byte" where
  "upper c = (if 97 \<le> unat c \<and> unat c \<le> 122 then c - 32 else c)"

definition digit_val :: "byte \<Rightarrow> nat option" where
  "digit_val c =
     (let n = unat c in
      if 48 \<le> n \<and> n \<le> 57 then Some (n - 48)
      else if 97 \<le> n \<and> n \<le> 122 then Some (n - 87)
      else if 65 \<le> n \<and> n \<le> 90 then Some (n - 55)
      else None)"

fun parse_digits :: "nat \<Rightarrow> nat \<Rightarrow> bytes \<Rightarrow> nat option" where
  "parse_digits b acc [] = Some acc"
| "parse_digits b acc (c # cs) =
     (case digit_val c of
        None \<Rightarrow> None
      | Some d \<Rightarrow> if d < b then parse_digits b (acc * b + d) cs else None)"

definition parse_uint :: "nat \<Rightarrow> bytes \<Rightarrow> nat option" where
  "parse_uint b s = (if s = [] then None else parse_digits b 0 s)"

text \<open>\<^verbatim>\<open>strconv.ParseInt(s, b, 0)\<close> with a 64-bit \<^verbatim>\<open>int\<close>: an optional sign, at least one digit,
  and the range check. \<^verbatim>\<open>strconv.Atoi\<close> is the same in base 10.\<close>

definition ParseInt :: "nat \<Rightarrow> bytes \<Rightarrow> int option" where
  "ParseInt b s =
     (let neg = (s \<noteq> [] \<and> hd s = 45);
          ds = (if s \<noteq> [] \<and> (hd s = 43 \<or> hd s = 45) then tl s else s)
      in case parse_uint b ds of
           None \<Rightarrow> None
         | Some n \<Rightarrow>
             if neg then (if n \<le> 2 ^ 63 then Some (- int n) else None)
             else (if n < 2 ^ 63 then Some (int n) else None))"

definition Atoi :: "bytes \<Rightarrow> int option" where
  "Atoi s = ParseInt 10 s"

lemma to_base_digits: "2 \<le> b \<Longrightarrow> d \<in> set (to_base b n) \<Longrightarrow> d < b"
proof (induction b n rule: to_base.induct)
  case (1 b n)
  show ?case
  proof (cases "n < b")
    case True
    with 1 show ?thesis by (simp add: to_base.simps [of b n])
  next
    case False
    with 1(2,3) have "d \<in> set (to_base b (n div b)) \<or> d = n mod b"
      by (auto simp: to_base.simps [of b n])
    with 1(1,2) False show ?thesis by auto
  qed
qed

lemma to_base_nonempty [simp]: "to_base b n \<noteq> []"
  by (simp add: to_base.simps)

lemma length_to_base_le: "2 \<le> b \<Longrightarrow> 0 < k \<Longrightarrow> n < b ^ k \<Longrightarrow> length (to_base b n) \<le> k"
proof (induction b n arbitrary: k rule: to_base.induct)
  case (1 b n)
  show ?case
  proof (cases "n < b")
    case True
    with 1 show ?thesis by (simp add: to_base.simps [of b n])
  next
    case False
    with 1(3,4) obtain j where k: "k = Suc j" "0 < j"
      by (cases k; cases "k - 1") auto
    with 1(4) have "n div b < b ^ j" by (simp add: less_mult_imp_div_less mult.commute)
    with 1(1) 1(2) False k have "length (to_base b (n div b)) \<le> j" by simp
    with False 1(2) k show ?thesis by (simp add: to_base.simps [of b n])
  qed
qed

lemma unat_byte_small: "n < 256 \<Longrightarrow> unat (of_nat n :: byte) = n"
  by (simp add: unat_of_nat)

lemma unat_digit_char: "d < 16 \<Longrightarrow> unat (digit_char d) = (if d < 10 then 48 + d else 87 + d)"
  by (simp add: digit_char_def unat_byte_small del: of_nat_add)

lemma digit_val_char [simp]: "d < 16 \<Longrightarrow> digit_val (digit_char d) = Some d"
  by (auto simp: unat_digit_char digit_val_def Let_def)

lemma digit_char_range: "d < 16 \<Longrightarrow> 48 \<le> unat (digit_char d) \<and> unat (digit_char d) \<le> 102
    \<and> (unat (digit_char d) \<le> 57 \<or> 97 \<le> unat (digit_char d))"
  by (auto simp: unat_digit_char)

lemma parse_digits_append:
  "parse_digits b acc (xs @ ys) = Option.bind (parse_digits b acc xs) (\<lambda>a. parse_digits b a ys)"
  by (induction xs arbitrary: acc) (auto split: option.splits)

lemma parse_digits_zeros: "0 < b \<Longrightarrow> parse_digits b 0 (replicate k (digit_char 0) @ xs) = parse_digits b 0 xs"
  by (induction k) simp_all

lemma parse_digits_to_base:
  "2 \<le> b \<Longrightarrow> b \<le> 16 \<Longrightarrow> parse_digits b 0 (map digit_char (to_base b n)) = Some n"
proof (induction b n rule: to_base.induct)
  case (1 b n)
  show ?case
  proof (cases "n < b")
    case True
    with 1 show ?thesis by (simp add: to_base.simps [of b n])
  next
    case False
    moreover have "n mod b < b" "n mod b < 16" using 1(2,3) mod_less_divisor [of b n] by linarith+
    ultimately show ?thesis using 1
      by (simp add: to_base.simps [of b n] parse_digits_append)
  qed
qed

lemma fmt_num_nonempty [simp]: "fmt_num b w n \<noteq> []"
  by (simp add: fmt_num_def Let_def)

lemma parse_uint_fmt: "2 \<le> b \<Longrightarrow> b \<le> 16 \<Longrightarrow> parse_uint b (fmt_num b w n) = Some n"
  by (simp add: parse_uint_def fmt_num_def Let_def parse_digits_zeros parse_digits_to_base)

lemma length_fmt_num [len]:
  "2 \<le> b \<Longrightarrow> 0 < w \<Longrightarrow> n < b ^ w \<Longrightarrow> length (fmt_num b w n) = w"
  using length_to_base_le [of b w n] by (simp add: fmt_num_def Let_def)

lemma set_fmt_num:
  assumes "2 \<le> b" "b \<le> 16" "c \<in> set (fmt_num b w n)"
  shows "48 \<le> unat c \<and> unat c \<le> 102 \<and> (unat c \<le> 57 \<or> 97 \<le> unat c)"
proof -
  from assms(3) obtain d where "c = digit_char d" and "d = 0 \<or> d \<in> set (to_base b n)"
    by (auto simp: fmt_num_def Let_def split: if_splits)
  moreover from this(2) assms(1,2) have "d < 16"
    using to_base_digits [of b d n] by auto
  ultimately show ?thesis using digit_char_range by simp
qed

lemma ParseInt_fmt:
  assumes "2 \<le> b" "b \<le> 16" "n < 2 ^ 63"
  shows "ParseInt b (fmt_num b w n) = Some (int n)"
proof -
  have "hd (fmt_num b w n) \<in> set (fmt_num b w n)" by simp
  from set_fmt_num [OF assms(1,2) this]
  have "hd (fmt_num b w n) \<noteq> 43" "hd (fmt_num b w n) \<noteq> 45" by auto
  with assms show ?thesis by (simp add: ParseInt_def parse_uint_fmt)
qed

section \<open>package bytes\<close>

definition HasPrefix :: "bytes \<Rightarrow> bytes \<Rightarrow> bool" where
  "HasPrefix s p \<longleftrightarrow> take (length p) s = p"

fun bytes_Index :: "bytes \<Rightarrow> bytes \<Rightarrow> nat option" where
  "bytes_Index [] p = (if p = [] then Some 0 else None)"
| "bytes_Index (c # s) p =
     (if HasPrefix (c # s) p then Some 0 else map_option Suc (bytes_Index s p))"

text \<open>\<^verbatim>\<open>bytes.Split\<close> with a one-byte separator.\<close>

fun split_byte :: "byte \<Rightarrow> bytes \<Rightarrow> bytes list" where
  "split_byte c [] = [[]]"
| "split_byte c (x # xs) =
     (if x = c then [] # split_byte c xs
      else (case split_byte c xs of [] \<Rightarrow> [[x]] | y # ys \<Rightarrow> (x # y) # ys))"

lemma HasPrefix_append [simp]: "HasPrefix (p @ s) p"
  by (simp add: HasPrefix_def)

lemma split_byte_nonempty [simp]: "split_byte c xs \<noteq> []"
  by (induction xs) (auto split: list.splits)

lemma split_byte_none: "c \<notin> set xs \<Longrightarrow> split_byte c xs = [xs]"
  by (induction xs) auto

lemma split_byte_first: "c \<notin> set xs \<Longrightarrow> split_byte c (xs @ c # ys) = xs # split_byte c ys"
  by (induction xs) auto

lemma split_byte_parts: "p \<in> set (split_byte c xs) \<Longrightarrow> c \<notin> set p"
proof (induction xs arbitrary: p)
  case (Cons x xs)
  then show ?case by (cases "split_byte c xs") (auto split: if_splits)
qed simp

lemma bytes_Index_Some:
  "bytes_Index s p = Some i \<Longrightarrow> i + length p \<le> length s \<and> take (length p) (drop i s) = p"
proof (induction s arbitrary: i)
  case (Cons c s)
  show ?case
  proof (cases "HasPrefix (c # s) p")
    case True
    then have "length p \<le> Suc (length s)"
      by (metis HasPrefix_def length_Cons length_take min.cobounded1 min.cobounded2)
    with True Cons.prems show ?thesis by (simp add: HasPrefix_def)
  next
    case False
    with Cons.prems obtain j where "bytes_Index s p = Some j" "i = Suc j" by auto
    with Cons.IH [of j] show ?thesis by simp
  qed
qed (simp split: if_splits)

section \<open>base64.StdEncoding\<close>

definition b64_char :: "nat \<Rightarrow> byte" where
  "b64_char n =
     (if n < 26 then of_nat (65 + n)
      else if n < 52 then of_nat (71 + n)
      else if n < 62 then of_nat (n - 4)
      else if n = 62 then 43 else 47)"

definition b64_val :: "byte \<Rightarrow> nat option" where
  "b64_val c =
     (let n = unat c in
      if 65 \<le> n \<and> n \<le> 90 then Some (n - 65)
      else if 97 \<le> n \<and> n \<le> 122 then Some (n - 71)
      else if 48 \<le> n \<and> n \<le> 57 then Some (n + 4)
      else if n = 43 then Some 62
      else if n = 47 then Some 63
      else None)"

fun b64_Encode :: "bytes \<Rightarrow> bytes" where
  "b64_Encode [] = []"
| "b64_Encode [a] =
     (let n = unat a in [b64_char (n div 4), b64_char (n mod 4 * 16), 61, 61])"
| "b64_Encode [a, b] =
     (let n = unat a * 256 + unat b
      in [b64_char (n div 1024), b64_char (n div 16 mod 64), b64_char (n mod 16 * 4), 61])"
| "b64_Encode (a # b # c # r) =
     (let n = unat a * 65536 + unat b * 256 + unat c
      in b64_char (n div 262144) # b64_char (n div 4096 mod 64) # b64_char (n div 64 mod 64)
         # b64_char (n mod 64) # b64_Encode r)"

text \<open>The decoder reads quanta of four characters; padding may only end the input, and line
  breaks are skipped wherever they stand. Trailing bits of a padded quantum are not checked.\<close>

fun b64_quanta :: "bytes \<Rightarrow> bytes option" where
  "b64_quanta [] = Some []"
| "b64_quanta (a # b # c # d # r) =
     (case (b64_val a, b64_val b) of
        (Some x, Some y) \<Rightarrow>
          (case b64_val c of
             Some z \<Rightarrow>
               (case b64_val d of
                  Some w \<Rightarrow>
                    (let n = x * 262144 + y * 4096 + z * 64 + w
                     in map_option (\<lambda>t. of_nat (n div 65536) # of_nat (n div 256 mod 256)
                                         # of_nat (n mod 256) # t) (b64_quanta r))
                | None \<Rightarrow>
                    if d = 61 \<and> r = []
                    then (let n = x * 1024 + y * 16 + z div 4
                          in Some [of_nat (n div 256), of_nat (n mod 256)])
                    else None)
           | None \<Rightarrow>
               if c = 61 \<and> d = 61 \<and> r = [] then Some [of_nat (x * 4 + y div 16)] else None)
      | _ \<Rightarrow> None)"
| "b64_quanta _ = None"

definition b64_Decode :: "bytes \<Rightarrow> bytes option" where
  "b64_Decode s = b64_quanta (filter (\<lambda>c. c \<noteq> 10 \<and> c \<noteq> 13) s)"

lemma unat_b64_char:
  "n < 64 \<Longrightarrow> unat (b64_char n) =
     (if n < 26 then 65 + n else if n < 52 then 71 + n else if n < 62 then n - 4
      else if n = 62 then 43 else 47)"
  by (simp add: b64_char_def unat_byte_small del: of_nat_add of_nat_diff)

lemma b64_val_char [simp]: "n < 64 \<Longrightarrow> b64_val (b64_char n) = Some n"
  by (auto simp: unat_b64_char b64_val_def Let_def)

lemma b64_char_alphabet:
  assumes "n < 64"
  shows "b64_char n \<noteq> 10" "b64_char n \<noteq> 13" "b64_char n \<noteq> 44" "b64_char n \<noteq> 61"
proof -
  have "unat (b64_char n) = 43 \<or> 47 \<le> unat (b64_char n) \<and> unat (b64_char n) \<le> 57
      \<or> 65 \<le> unat (b64_char n)"
    using assms by (auto simp: unat_b64_char)
  then show "b64_char n \<noteq> 10" "b64_char n \<noteq> 13" "b64_char n \<noteq> 44" "b64_char n \<noteq> 61"
    by auto
qed

lemma unat_pack_less:
  "unat (a :: byte) * 256 + unat (b :: byte) < 65536"
  "unat a * 65536 + unat b * 256 + unat (c :: byte) < 16777216"
  using unat_byte_less [of a] unat_byte_less [of b] unat_byte_less [of c] by linarith+

lemma b64_Encode_alphabet:
  "c \<in> set (b64_Encode s) \<Longrightarrow> c \<noteq> 10 \<and> c \<noteq> 13 \<and> c \<noteq> 44"
proof (induction s rule: b64_Encode.induct)
  case (2 a)
  have "unat a div 4 < 64" using unat_byte_less [of a] by linarith
  with 2 show ?case by (auto simp: Let_def b64_char_alphabet)
next
  case (3 a b)
  have "(unat a * 256 + unat b) div 1024 < 64" using unat_pack_less(1) [of a b] by simp
  with 3 show ?case by (auto simp: Let_def b64_char_alphabet)
next
  case (4 a b c' r)
  have "(unat a * 65536 + unat b * 256 + unat c') div 262144 < 64"
    using unat_pack_less(2) [of a b c'] by simp
  with 4 show ?case by (auto simp: Let_def b64_char_alphabet)
qed simp

lemma filter_b64_Encode [simp]: "filter (\<lambda>c. c \<noteq> 10 \<and> c \<noteq> 13) (b64_Encode s) = b64_Encode s"
  using b64_Encode_alphabet by (intro filter_True) blast

lemma b64_val_pad [simp]: "b64_val 61 = None"
  by (simp add: b64_val_def)

lemma of_nat_unat_byte: "m = unat (b :: byte) \<Longrightarrow> of_nat m = b"
  by simp

lemma b64_pack1:
  "unat (a :: byte) div 4 * 4 + unat a mod 4 * 16 div 16 = unat a"
  by simp

lemma b64_pack2:
  fixes n :: nat
  shows "n div 1024 * 1024 + n div 16 mod 64 * 16 + n mod 16 = n"
proof -
  have "n div 1024 * 64 + n div 16 mod 64 = n div 16"
    using div_mult_mod_eq [of "n div 16" 64] by (simp flip: div_mult2_eq)
  then have "n div 1024 * 1024 + n div 16 mod 64 * 16 = n div 16 * 16" by linarith
  then show ?thesis by simp
qed

lemma b64_pack3:
  fixes n :: nat
  shows "n div 262144 * 262144 + n div 4096 mod 64 * 4096 + n div 64 mod 64 * 64 + n mod 64 = n"
proof -
  have "n div 262144 * 64 + n div 4096 mod 64 = n div 4096"
    using div_mult_mod_eq [of "n div 4096" 64] by (simp flip: div_mult2_eq)
  moreover have "n div 4096 * 64 + n div 64 mod 64 = n div 64"
    using div_mult_mod_eq [of "n div 64" 64] by (simp flip: div_mult2_eq)
  moreover have "n div 64 * 64 + n mod 64 = n" by simp
  ultimately show ?thesis by linarith
qed

lemma unpack2:
  "(unat (a :: byte) * 256 + unat (b :: byte)) div 256 = unat a"
  "(unat a * 256 + unat b) mod 256 = unat b"
  using unat_byte_less [of b] by simp_all

lemma unpack_digit: "r < 256 \<Longrightarrow> ((k :: nat) * 256 + r) div 256 = k"
  by simp

lemma unpack3:
  "(unat (a :: byte) * 65536 + unat (b :: byte) * 256 + unat (c :: byte)) div 65536 = unat a"
  "(unat a * 65536 + unat b * 256 + unat c) div 256 mod 256 = unat b"
  "(unat a * 65536 + unat b * 256 + unat c) mod 256 = unat c"
proof -
  have lt: "unat b * 256 + unat c < 65536"
    using unat_byte_less [of b] unat_byte_less [of c] by linarith
  then have "(unat a * 65536 + (unat b * 256 + unat c)) div 65536 = unat a" by simp
  then show "(unat a * 65536 + unat b * 256 + unat c) div 65536 = unat a"
    by (simp only: add.assoc)
  have *: "unat a * 65536 + unat b * 256 + unat c = (unat a * 256 + unat b) * 256 + unat c"
    by simp
  have "((unat a * 256 + unat b) * 256 + unat c) div 256 = unat a * 256 + unat b"
    by (rule unpack_digit) simp
  then show "(unat a * 65536 + unat b * 256 + unat c) div 256 mod 256 = unat b" unfolding * by simp
  show "(unat a * 65536 + unat b * 256 + unat c) mod 256 = unat c" unfolding *
    by (subst mod_mult_self3) simp
qed

theorem b64_quanta_Encode: "b64_quanta (b64_Encode s) = Some s"
proof (induction s rule: b64_Encode.induct)
  case (2 a)
  have "unat a div 4 < 64" using unat_byte_less [of a] by linarith
  then show ?case by (simp add: Let_def b64_pack1)
next
  case (3 a b)
  have "(unat a * 256 + unat b) div 1024 < 64" using unat_pack_less(1) [of a b] by simp
  then show ?case by (simp add: Let_def b64_pack2 unpack2)
next
  case (4 a b c r)
  have "(unat a * 65536 + unat b * 256 + unat c) div 262144 < 64"
    using unat_pack_less(2) [of a b c] by simp
  with 4 show ?case by (simp add: Let_def b64_pack3 unpack3)
qed simp

lemma b64_Decode_Encode [wire]: "b64_Decode (b64_Encode s) = Some s"
  by (simp add: b64_Decode_def b64_quanta_Encode)

section \<open>io.ReadFull on a byte source\<close>

text \<open>A random source is the bytes it will deliver. \<^verbatim>\<open>io.ReadFull\<close> of \<open>n\<close> bytes succeeds when
  that many are left; a short read consumes what there is.\<close>

definition ReadFull :: "nat \<Rightarrow> bytes \<Rightarrow> bytes option \<times> bytes" where
  "ReadFull n r = (if n \<le> length r then (Some (take n r), drop n r) else (None, []))"

section \<open>math/big\<close>

text \<open>\<^verbatim>\<open>Exp\<close> with a non-negative exponent (every exponent of the library is a random number, a
  hash, a residue modulo \<open>q\<close> or a parsed MPI) and \<^verbatim>\<open>ModInverse\<close>, which returns nil when the
  argument is not coprime to the modulus.\<close>

definition big_Exp :: "int \<Rightarrow> int \<Rightarrow> int \<Rightarrow> int" where
  "big_Exp x y m = (x ^ nat y) mod m"

text \<open>Square and multiply, so that the definitions can be evaluated.\<close>

fun pow_mod :: "int \<Rightarrow> nat \<Rightarrow> int \<Rightarrow> int" where
  "pow_mod x n m =
     (if n = 0 then 1 mod m
      else let r = pow_mod (x * x mod m) (n div 2) m in if odd n then x * r mod m else r)"

declare pow_mod.simps [simp del]

lemma pow_mod_power: "pow_mod x n m = x ^ n mod m"
proof (induction x n m rule: pow_mod.induct)
  case (1 x n m)
  show ?case
  proof (cases "n = 0")
    case False
    then have r: "pow_mod (x * x mod m) (n div 2) m = (x * x) ^ (n div 2) mod m"
      using "1.IH" by (simp add: power_mod)
    have "(x * x) ^ (n div 2) = x ^ (2 * (n div 2))" by (simp add: power_mult power2_eq_square)
    then show ?thesis
      using False r by (cases "odd n") (auto simp: pow_mod.simps [of x n] Let_def mod_mult_right_eq elim!: oddE evenE)
  qed (simp add: pow_mod.simps)
qed

lemma big_Exp_code [code]: "big_Exp x y m = pow_mod x (nat y) m"
  by (simp add: big_Exp_def pow_mod_power)

function egcd :: "int \<Rightarrow> int \<Rightarrow> int \<times> int \<times> int" where
  "egcd a b = (if b \<le> 0 then (a, 1, 0)
               else (case egcd b (a mod b) of (d, x, y) \<Rightarrow> (d, y, x - (a div b) * y)))"
  by pat_completeness auto
termination
  by (relation "measure (\<lambda>(a, b). nat b)") auto

declare egcd.simps [simp del]

definition big_ModInverse :: "int \<Rightarrow> int \<Rightarrow> int option" where
  "big_ModInverse g n =
     (case egcd (g mod n) n of (d, x, _) \<Rightarrow> if d = 1 then Some (x mod n) else None)"

lemma egcd_bezout: "egcd a b = (d, x, y) \<Longrightarrow> a * x + b * y = d"
proof (induction a b arbitrary: d x y rule: egcd.induct)
  case (1 a b)
  show ?case
  proof (cases "b \<le> 0")
    case True
    with 1 show ?thesis by (simp add: egcd.simps [of a b])
  next
    case False
    obtain d' x' y' where e: "egcd b (a mod b) = (d', x', y')" by (cases "egcd b (a mod b)")
    with 1(2) False have eqs: "d = d'" "x = y'" "y = x' - (a div b) * y'"
      by (auto simp: egcd.simps [of a b])
    have "b * x' + (a mod b) * y' = d'" using 1(1) False e by simp
    then have "b * x' + (a - a div b * b) * y' = d'" by (simp add: minus_div_mult_eq_mod)
    then show ?thesis unfolding eqs by (simp add: algebra_simps)
  qed
qed

lemma egcd_gcd: "0 \<le> a \<Longrightarrow> 0 \<le> b \<Longrightarrow> egcd a b = (d, x, y) \<Longrightarrow> d = gcd a b"
proof (induction a b arbitrary: d x y rule: egcd.induct)
  case (1 a b)
  show ?case
  proof (cases "b \<le> 0")
    case True
    with 1(3) have "b = 0" by simp
    with 1(4) have "d = a" by (simp add: egcd.simps [of a 0])
    with \<open>b = 0\<close> 1(2) show ?thesis by simp
  next
    case False
    obtain d' x' y' where e: "egcd b (a mod b) = (d', x', y')" by (cases "egcd b (a mod b)")
    with 1(4) False have "d = d'" by (auto simp: egcd.simps [of a b])
    moreover have "d' = gcd b (a mod b)" using 1(1) [OF False _ _ e] False by simp
    ultimately show ?thesis by (simp add: gcd.commute gcd_red_int [of a b])
  qed
qed

theorem big_ModInverse_iff: "0 < n \<Longrightarrow> (\<exists>i. big_ModInverse g n = Some i) \<longleftrightarrow> coprime g n"
proof -
  assume n: "0 < n"
  obtain d x y where e: "egcd (g mod n) n = (d, x, y)" by (cases "egcd (g mod n) n")
  have "d = gcd (g mod n) n" using egcd_gcd [OF _ _ e] n by simp
  moreover have "gcd (g mod n) n = gcd g n" by (metis gcd.commute gcd_red_int)
  ultimately show ?thesis using e by (simp add: big_ModInverse_def coprime_iff_gcd_eq_1)
qed

theorem big_ModInverse_inverse:
  assumes "0 < n" "big_ModInverse g n = Some i"
  shows "(g * i) mod n = 1 mod n" and "0 \<le> i" and "i < n"
proof -
  obtain d x y where e: "egcd (g mod n) n = (d, x, y)" by (cases "egcd (g mod n) n")
  with assms(2) have "d = 1" and i: "i = x mod n"
    by (auto simp: big_ModInverse_def split: if_splits)
  from egcd_bezout [OF e] this(1) have b: "(g mod n) * x + n * y = 1" by simp
  have "(g * i) mod n = ((g mod n) * x) mod n" unfolding i
    by (simp add: mod_mult_left_eq mod_mult_right_eq)
  also have "\<dots> = ((g mod n) * x + n * y) mod n" by simp
  finally show "(g * i) mod n = 1 mod n" using b by simp
  show "0 \<le> i" "i < n" using i assms(1) by simp_all
qed

end
