(* ===== verification/Suite.thy ===== *)
theory Suite
  imports Go_Std
begin

text \<open>
  The cryptographic environment of the library. The group parameters of \<^verbatim>\<open>dh.go\<close> are package
  variables; the digests, the block cipher and the DSA primitives come from Go's \<^verbatim>\<open>crypto\<close>
  packages. All of them are the fields of one record \<open>suite\<close>, an argument of every
  definition that uses them, so that the theorems hold for any values that satisfy the laws
  they name. \<open>Go_Crypto\<close> gives the values the library runs with and interprets the
  locale \<open>dh_suite\<close> on them.

  Defined here on top of the record: HMAC (\<^verbatim>\<open>crypto/hmac\<close>), counter mode
  (\<^verbatim>\<open>cipher.NewCTR\<close>), and from \<^verbatim>\<open>keys.go\<close> \<^verbatim>\<open>counterEncipher\<close>, \<^verbatim>\<open>encrypt\<close>,
  \<^verbatim>\<open>decrypt\<close>, and the errors of \<^verbatim>\<open>errors.go\<close>.
\<close>

section \<open>errors.go\<close>

datatype go_error =
    OtrError (err_msg: string) (err_conflict: bool)
  | GoError (err_msg: string)

definition newOtrError :: "string \<Rightarrow> go_error" where
  "newOtrError s = OtrError s False"

definition newOtrConflictError :: "string \<Rightarrow> go_error" where
  "newOtrConflictError s = OtrError s True"

fun go_Error :: "go_error \<Rightarrow> string" where
  "go_Error (OtrError m _) = ''otr: '' @ m"
| "go_Error (GoError m) = m"

fun firstError :: "go_error option list \<Rightarrow> go_error option" where
  "firstError [] = None"
| "firstError (e # es) = (case e of Some x \<Rightarrow> Some x | None \<Rightarrow> firstError es)"

fun isConflict :: "go_error \<Rightarrow> bool" where
  "isConflict (OtrError _ c) = c"
| "isConflict (GoError _) = False"

definition errCantAuthenticateWithoutEncryption :: go_error where
  "errCantAuthenticateWithoutEncryption =
     newOtrError ''can't authenticate a peer without a secure conversation established''"

definition errCorruptEncryptedSignature :: go_error where
  "errCorruptEncryptedSignature = newOtrError ''corrupt encrypted signature''"

definition errInvalidOTRMessage :: go_error where
  "errInvalidOTRMessage = newOtrError ''invalid OTR message''"

definition errInvalidVersion :: go_error where
  "errInvalidVersion = newOtrError ''no valid version agreement could be found''"

definition errNotWaitingForSMPSecret :: go_error where
  "errNotWaitingForSMPSecret = newOtrError ''not expected SMP secret to be provided now''"

definition errReceivedMessageForOtherInstance :: go_error where
  "errReceivedMessageForOtherInstance = newOtrError ''received message for other OTR instance''"

definition errShortRandomRead :: go_error where
  "errShortRandomRead = newOtrError ''short read from random source''"

definition errUnsupportedOTRVersion :: go_error where
  "errUnsupportedOTRVersion = newOtrError ''unsupported OTR version''"

definition errWrongProtocolVersion :: go_error where
  "errWrongProtocolVersion = newOtrError ''wrong protocol version''"

definition errMessageNotInPrivate :: go_error where
  "errMessageNotInPrivate = newOtrError ''message not in private''"

definition errCannotSendUnencrypted :: go_error where
  "errCannotSendUnencrypted = newOtrConflictError ''cannot send message in unencrypted state''"

lemmas err_defs = newOtrError_def newOtrConflictError_def errCantAuthenticateWithoutEncryption_def
  errCorruptEncryptedSignature_def errInvalidOTRMessage_def errInvalidVersion_def
  errNotWaitingForSMPSecret_def errReceivedMessageForOtherInstance_def errShortRandomRead_def
  errUnsupportedOTRVersion_def errWrongProtocolVersion_def errMessageNotInPrivate_def
  errCannotSendUnencrypted_def

section \<open>The record\<close>

text \<open>\<open>dsa_Sign P Q G X hash rand\<close> returns the two integers of the signature or an error, and
  what is left of the random source.\<close>

record suite =
  dh_p :: int
  dh_q :: int
  dh_g1 :: int
  sha1 :: "bytes \<Rightarrow> bytes"
  sha256 :: "bytes \<Rightarrow> bytes"
  aes_enc :: "bytes \<Rightarrow> bytes \<Rightarrow> bytes"
  dsa_Sign :: "int \<Rightarrow> int \<Rightarrow> int \<Rightarrow> int \<Rightarrow> bytes \<Rightarrow> bytes \<Rightarrow> (go_error + int \<times> int) \<times> bytes"
  dsa_Verify :: "int \<Rightarrow> int \<Rightarrow> int \<Rightarrow> int \<Rightarrow> bytes \<Rightarrow> int \<Rightarrow> int \<Rightarrow> bool"

section \<open>crypto/hmac\<close>

definition xor_bytes :: "bytes \<Rightarrow> bytes \<Rightarrow> bytes" where
  "xor_bytes a b = map2 (\<lambda>x y. x XOR y) a b"

text \<open>Both digests have a block size of 64 bytes.\<close>

definition hmac :: "(bytes \<Rightarrow> bytes) \<Rightarrow> bytes \<Rightarrow> bytes \<Rightarrow> bytes" where
  "hmac h key msg =
     (let k0 = (if length key > 64 then h key else key);
          k = k0 @ replicate (64 - length k0) 0
      in h (map (\<lambda>x. x XOR 0x5c) k @ h (map (\<lambda>x. x XOR 0x36) k @ msg)))"

section \<open>Counter mode\<close>

text \<open>The counter block is incremented as a 128-bit big-endian number, wrapping around.\<close>

definition incr_block :: "bytes \<Rightarrow> bytes" where
  "incr_block iv = put_be (length iv) (Suc (be_nat iv))"

fun ctr_stream :: "(bytes \<Rightarrow> bytes) \<Rightarrow> bytes \<Rightarrow> nat \<Rightarrow> bytes" where
  "ctr_stream f iv 0 = []"
| "ctr_stream f iv (Suc n) = f iv @ ctr_stream f (incr_block iv) n"

definition XORKeyStream :: "(bytes \<Rightarrow> bytes) \<Rightarrow> bytes \<Rightarrow> bytes \<Rightarrow> bytes" where
  "XORKeyStream f iv src = xor_bytes src (ctr_stream f iv (length src div 16 + 1))"

text \<open>\<^verbatim>\<open>keys.go\<close>: \<^verbatim>\<open>counterEncipher\<close> fails on a key that is not an AES key; \<^verbatim>\<open>encrypt\<close> takes its
  zero IV from the first 16 bytes of the destination, a slice that panics when the data is
  shorter than a block.\<close>

definition counterEncipher :: "suite \<Rightarrow> bytes \<Rightarrow> bytes \<Rightarrow> bytes \<Rightarrow> go_error + bytes" where
  "counterEncipher S key iv src =
     (if length key \<in> {16, 24, 32} then Inr (XORKeyStream (aes_enc S key) iv src)
      else Inl (GoError ''crypto/aes: invalid key size''))"

definition encrypt :: "suite \<Rightarrow> bytes \<Rightarrow> bytes \<Rightarrow> (go_error + bytes) option" where
  "encrypt S key data =
     (if length data < 16 then None else Some (counterEncipher S key (replicate 16 0) data))"

definition decrypt :: "suite \<Rightarrow> bytes \<Rightarrow> bytes \<Rightarrow> go_error + bytes" where
  "decrypt S key src = counterEncipher S key (replicate 16 0) src"

section \<open>The laws of the primitives\<close>

locale crypto_suite =
  fixes S :: suite
  assumes length_sha1: "length (sha1 S m) = 20"
    and length_sha256: "length (sha256 S m) = 32"
    and length_aes: "length (aes_enc S k b) = 16"
begin

lemma length_hmac_sha1: "length (hmac (sha1 S) k m) = 20"
  by (simp add: hmac_def Let_def length_sha1)

lemma length_hmac_sha256: "length (hmac (sha256 S) k m) = 32"
  by (simp add: hmac_def Let_def length_sha256)

lemma length_ctr_stream: "length (ctr_stream (aes_enc S k) iv n) = 16 * n"
  by (induction n arbitrary: iv) (simp_all add: length_aes)

lemma stream_covers: "length src \<le> length (ctr_stream (aes_enc S k) iv (length src div 16 + 1))"
proof -
  have "length src < 16 * (length src div 16) + 16"
    using mod_less_divisor [of 16 "length src"] mult_div_mod_eq [of 16 "length src"] by linarith
  then have "length src \<le> 16 * (length src div 16 + 1)" by simp
  then show ?thesis by (simp only: length_ctr_stream)
qed

end

lemma length_xor_bytes [simp]: "length (xor_bytes a b) = min (length a) (length b)"
  by (simp add: xor_bytes_def)

lemma xor_twice: "(x XOR y) XOR y = (x :: byte)"
  by (simp add: xor.assoc)

lemma xor_bytes_twice: "length a \<le> length b \<Longrightarrow> xor_bytes (xor_bytes a b) b = a"
  by (induction a b rule: list_induct2') (simp_all add: xor_bytes_def xor_twice)

context crypto_suite
begin

lemma length_XORKeyStream: "length (XORKeyStream (aes_enc S k) iv src) = length src"
  using stream_covers [of src k iv] by (simp add: XORKeyStream_def)

lemma XORKeyStream_twice:
  "XORKeyStream (aes_enc S k) iv (XORKeyStream (aes_enc S k) iv src) = src"
proof -
  let ?ks = "ctr_stream (aes_enc S k) iv (length src div 16 + 1)"
  have "XORKeyStream (aes_enc S k) iv (XORKeyStream (aes_enc S k) iv src)
      = xor_bytes (xor_bytes src ?ks) ?ks"
    by (simp only: XORKeyStream_def [of _ _ "XORKeyStream _ _ _"] length_XORKeyStream)
       (simp only: XORKeyStream_def)
  then show ?thesis by (simp only: xor_bytes_twice [OF stream_covers])
qed

lemma counterEncipher_twice:
  "counterEncipher S k iv src = Inr c \<Longrightarrow> counterEncipher S k iv c = Inr src"
  by (auto simp: counterEncipher_def XORKeyStream_twice split: if_splits)

lemma length_counterEncipher: "counterEncipher S k iv src = Inr c \<Longrightarrow> length c = length src"
  by (auto simp: counterEncipher_def length_XORKeyStream split: if_splits)

lemma decrypt_encrypt: "encrypt S k m = Some (Inr c) \<Longrightarrow> decrypt S k c = Inr m"
  by (auto simp: encrypt_def decrypt_def split: if_splits intro: counterEncipher_twice)

lemma encrypt_returns:
  "16 \<le> length m \<Longrightarrow> length k = 16 \<Longrightarrow> \<exists>c. encrypt S k m = Some (Inr c) \<and> length c = length m"
  by (simp add: encrypt_def counterEncipher_def length_XORKeyStream)

end

text \<open>The Diffie-Hellman modulus is positive and of at most 1536 bits, so that every public value
  is an MPI the codec carries.\<close>

locale dh_suite = crypto_suite +
  assumes p_pos: "0 < dh_p S"
    and p_bound: "dh_p S \<le> 2 ^ 1536"
begin

lemma length_public: "length (big_Bytes (big_Exp b x (dh_p S))) \<le> 192"
proof -
  let ?n = "big_Exp b x (dh_p S)"
  have n: "0 \<le> ?n" "?n < dh_p S" using p_pos by (auto simp: big_Exp_def)
  have "(2 :: int) ^ 1536 = 256 ^ 192" by simp
  then have "?n < 256 ^ 192" using n(2) p_bound by linarith
  then have "nat ?n < nat (256 ^ 192)" using n(1) by (subst nat_less_eq_zless)
  then have "nat ?n < 256 ^ 192" by (simp only: nat_power_eq zero_le_numeral nat_numeral)
  then show ?thesis using length_nat_bytes_le n(1) by (simp only: big_Bytes_def abs_of_nonneg)
qed

lemma mpi_ok_public: "mpi_ok (big_Exp b x (dh_p S))"
  using length_public [of b x] p_pos by (simp add: mpi_ok_def big_Exp_def)

end

end
