(* ===== verification/Go_Crypto.thy ===== *)
theory Go_Crypto
  imports Suite
begin

text \<open>
  The values the library runs with: the group of \<^verbatim>\<open>dh.go\<close> (RFC 3526, group 5), and what it
  uses of Go's \<^verbatim>\<open>crypto/sha1\<close>, \<^verbatim>\<open>crypto/sha256\<close> and \<^verbatim>\<open>crypto/aes\<close>. The DSA primitives stay
  parameters: \<^verbatim>\<open>dsa.Sign\<close> draws a nondeterministic number of random bytes.

  The interpretation at the end discharges the laws of \<open>dh_suite\<close> for them.
\<close>

section \<open>dh.go: the group\<close>

definition group5_p :: int where
  "group5_p =
     0xffffffffffffffffc90fdaa22168c234c4c6628b80dc1cd129024e088a67cc74020bbea63b139b22514a08798e3404ddef9519b3cd3a431b302b0a6df25f14374fe1356d6d51c245e485b576625e7ec6f44c42e9a637ed6b0bff5cb6f406b7edee386bfb5a899fa5ae9f24117c4b1fe649286651ece45b3dc2007cb8a163bf0598da48361c55d39a69163fa8fd24cf5f83655d23dca3ad961c62f356208552bb9ed529077096966d670c354e4abc9804f1746c08ca237327ffffffffffffffff"

definition group5_q :: int where
  "group5_q =
     0x7fffffffffffffffe487ed5110b4611a62633145c06e0e68948127044533e63a0105df531d89cd9128a5043cc71a026ef7ca8cd9e69d218d98158536f92f8a1ba7f09ab6b6a8e122f242dabb312f3f637a262174d31bf6b585ffae5b7a035bf6f71c35fdad44cfd2d74f9208be258ff324943328f6722d9ee1003e5c50b1df82cc6d241b0e2ae9cd348b1fd47e9267afc1b2ae91ee51d6cb0e3179ab1042a95dcf6a9483b84b4b36b3861aa7255e4c0278ba36046511b993ffffffffffffffff"

definition group5_g1 :: int where
  "group5_g1 = 2"

section \<open>Merkle-Damgard padding and words\<close>

definition md_pad :: "bytes \<Rightarrow> bytes" where
  "md_pad m =
     m @ 0x80 # replicate ((119 - length m mod 64) mod 64) 0 @ put_be 8 (8 * length m)"

fun blocks :: "nat \<Rightarrow> 'a list \<Rightarrow> 'a list list" where
  "blocks 0 xs = []"
| "blocks (Suc n) xs = take 64 xs # blocks n (drop 64 xs)"

definition md_blocks :: "bytes \<Rightarrow> bytes list" where
  "md_blocks m = (let p = md_pad m in blocks (length p div 64) p)"

fun be_words :: "nat \<Rightarrow> bytes \<Rightarrow> uint32 list" where
  "be_words 0 b = []"
| "be_words (Suc n) b = of_nat (be_nat (take 4 b)) # be_words n (drop 4 b)"

definition rotl :: "nat \<Rightarrow> uint32 \<Rightarrow> uint32" where
  "rotl n w = push_bit n w OR drop_bit (32 - n) w"

definition rotr :: "nat \<Rightarrow> uint32 \<Rightarrow> uint32" where
  "rotr n w = drop_bit n w OR push_bit (32 - n) w"

section \<open>crypto/sha1\<close>

text \<open>The schedule is kept newest word first.\<close>

fun sha1_schedule :: "nat \<Rightarrow> uint32 list \<Rightarrow> uint32 list" where
  "sha1_schedule 0 ws = rev ws"
| "sha1_schedule (Suc n) ws =
     sha1_schedule n (rotl 1 (ws ! 2 XOR ws ! 7 XOR ws ! 13 XOR ws ! 15) # ws)"

definition sha1_f :: "nat \<Rightarrow> uint32 \<Rightarrow> uint32 \<Rightarrow> uint32 \<Rightarrow> uint32" where
  "sha1_f t b c d =
     (if t < 20 then (b AND c) OR (NOT b AND d)
      else if t < 40 then b XOR c XOR d
      else if t < 60 then (b AND c) OR (b AND d) OR (c AND d)
      else b XOR c XOR d)"

definition sha1_k :: "nat \<Rightarrow> uint32" where
  "sha1_k t = (if t < 20 then 0x5A827999 else if t < 40 then 0x6ED9EBA1
               else if t < 60 then 0x8F1BBCDC else 0xCA62C1D6)"

type_synonym sha1_state = "uint32 \<times> uint32 \<times> uint32 \<times> uint32 \<times> uint32"

fun sha1_rounds :: "nat \<Rightarrow> uint32 list \<Rightarrow> sha1_state \<Rightarrow> sha1_state" where
  "sha1_rounds t [] s = s"
| "sha1_rounds t (w # ws) (a, b, c, d, e) =
     sha1_rounds (Suc t) ws (rotl 5 a + sha1_f t b c d + e + sha1_k t + w, a, rotl 30 b, c, d)"

fun sha1_block :: "sha1_state \<Rightarrow> bytes \<Rightarrow> sha1_state" where
  "sha1_block (a, b, c, d, e) blk =
     (case sha1_rounds 0 (sha1_schedule 64 (rev (be_words 16 blk))) (a, b, c, d, e) of
        (a', b', c', d', e') \<Rightarrow> (a + a', b + b', c + c', d + d', e + e'))"

definition go_sha1 :: "bytes \<Rightarrow> bytes" where
  "go_sha1 m =
     (case foldl sha1_block (0x67452301, 0xEFCDAB89, 0x98BADCFE, 0x10325476, 0xC3D2E1F0) (md_blocks m) of
        (a, b, c, d, e) \<Rightarrow>
          SerializeWord a @ SerializeWord b @ SerializeWord c @ SerializeWord d @ SerializeWord e)"

section \<open>crypto/sha256\<close>

text \<open>The round constants are the first 32 bits of the fractional parts of the cube roots of the
  first 64 primes; \<open>root3_bits k n r\<close> finds the lower \<open>k\<close> bits of the integer cube root of \<open>n\<close>.\<close>

fun root3_bits :: "nat \<Rightarrow> int \<Rightarrow> int \<Rightarrow> int" where
  "root3_bits 0 n r = r"
| "root3_bits (Suc k) n r = (let t = r + 2 ^ k in root3_bits k n (if t ^ 3 \<le> n then t else r))"

fun next_primes :: "nat \<Rightarrow> nat \<Rightarrow> int \<Rightarrow> int list \<Rightarrow> int list" where
  "next_primes 0 m n ps = rev ps"
| "next_primes fuel 0 n ps = rev ps"
| "next_primes (Suc fuel) (Suc m) n ps =
     (if list_all (\<lambda>p. n mod p \<noteq> 0) ps then next_primes fuel m (n + 1) (n # ps) else next_primes fuel (Suc m) (n + 1) ps)"

definition sha256_K :: "uint32 list" where
  "sha256_K = map (\<lambda>p. of_int (root3_bits 35 (p * 2 ^ 96) 0)) (next_primes 311 64 2 [])"

fun sha256_schedule :: "nat \<Rightarrow> uint32 list \<Rightarrow> uint32 list" where
  "sha256_schedule 0 ws = rev ws"
| "sha256_schedule (Suc n) ws =
     (let v1 = ws ! 1; t1 = rotr 17 v1 XOR rotr 19 v1 XOR drop_bit 10 v1;
          v2 = ws ! 14; t2 = rotr 7 v2 XOR rotr 18 v2 XOR drop_bit 3 v2
      in sha256_schedule n ((t1 + ws ! 6 + t2 + ws ! 15) # ws))"

type_synonym sha256_state =
  "uint32 \<times> uint32 \<times> uint32 \<times> uint32 \<times> uint32 \<times> uint32 \<times> uint32 \<times> uint32"

fun sha256_rounds :: "(uint32 \<times> uint32) list \<Rightarrow> sha256_state \<Rightarrow> sha256_state" where
  "sha256_rounds [] s = s"
| "sha256_rounds ((k, w) # kws) (a, b, c, d, e, f, g, h) =
     (let t1 = h + (rotr 6 e XOR rotr 11 e XOR rotr 25 e) + ((e AND f) XOR (NOT e AND g)) + k + w;
          t2 = (rotr 2 a XOR rotr 13 a XOR rotr 22 a) + ((a AND b) XOR (a AND c) XOR (b AND c))
      in sha256_rounds kws (t1 + t2, a, b, c, d + t1, e, f, g))"

fun sha256_block :: "sha256_state \<Rightarrow> bytes \<Rightarrow> sha256_state" where
  "sha256_block (a, b, c, d, e, f, g, h) blk =
     (case sha256_rounds (zip sha256_K (sha256_schedule 48 (rev (be_words 16 blk)))) (a, b, c, d, e, f, g, h) of
        (a', b', c', d', e', f', g', h') \<Rightarrow>
          (a + a', b + b', c + c', d + d', e + e', f + f', g + g', h + h'))"

definition go_sha256 :: "bytes \<Rightarrow> bytes" where
  "go_sha256 m =
     (case foldl sha256_block
             (0x6a09e667, 0xbb67ae85, 0x3c6ef372, 0xa54ff53a, 0x510e527f, 0x9b05688c, 0x1f83d9ab, 0x5be0cd19) (md_blocks m) of
        (a, b, c, d, e, f, g, h) \<Rightarrow>
          SerializeWord a @ SerializeWord b @ SerializeWord c @ SerializeWord d
          @ SerializeWord e @ SerializeWord f @ SerializeWord g @ SerializeWord h)"

section \<open>crypto/aes\<close>

definition aes_sbox :: "byte list" where
  "aes_sbox =
    [0x63, 0x7c, 0x77, 0x7b, 0xf2, 0x6b, 0x6f, 0xc5, 0x30, 0x01, 0x67, 0x2b, 0xfe, 0xd7, 0xab, 0x76,
     0xca, 0x82, 0xc9, 0x7d, 0xfa, 0x59, 0x47, 0xf0, 0xad, 0xd4, 0xa2, 0xaf, 0x9c, 0xa4, 0x72, 0xc0,
     0xb7, 0xfd, 0x93, 0x26, 0x36, 0x3f, 0xf7, 0xcc, 0x34, 0xa5, 0xe5, 0xf1, 0x71, 0xd8, 0x31, 0x15,
     0x04, 0xc7, 0x23, 0xc3, 0x18, 0x96, 0x05, 0x9a, 0x07, 0x12, 0x80, 0xe2, 0xeb, 0x27, 0xb2, 0x75,
     0x09, 0x83, 0x2c, 0x1a, 0x1b, 0x6e, 0x5a, 0xa0, 0x52, 0x3b, 0xd6, 0xb3, 0x29, 0xe3, 0x2f, 0x84,
     0x53, 0xd1, 0x00, 0xed, 0x20, 0xfc, 0xb1, 0x5b, 0x6a, 0xcb, 0xbe, 0x39, 0x4a, 0x4c, 0x58, 0xcf,
     0xd0, 0xef, 0xaa, 0xfb, 0x43, 0x4d, 0x33, 0x85, 0x45, 0xf9, 0x02, 0x7f, 0x50, 0x3c, 0x9f, 0xa8,
     0x51, 0xa3, 0x40, 0x8f, 0x92, 0x9d, 0x38, 0xf5, 0xbc, 0xb6, 0xda, 0x21, 0x10, 0xff, 0xf3, 0xd2,
     0xcd, 0x0c, 0x13, 0xec, 0x5f, 0x97, 0x44, 0x17, 0xc4, 0xa7, 0x7e, 0x3d, 0x64, 0x5d, 0x19, 0x73,
     0x60, 0x81, 0x4f, 0xdc, 0x22, 0x2a, 0x90, 0x88, 0x46, 0xee, 0xb8, 0x14, 0xde, 0x5e, 0x0b, 0xdb,
     0xe0, 0x32, 0x3a, 0x0a, 0x49, 0x06, 0x24, 0x5c, 0xc2, 0xd3, 0xac, 0x62, 0x91, 0x95, 0xe4, 0x79,
     0xe7, 0xc8, 0x37, 0x6d, 0x8d, 0xd5, 0x4e, 0xa9, 0x6c, 0x56, 0xf4, 0xea, 0x65, 0x7a, 0xae, 0x08,
     0xba, 0x78, 0x25, 0x2e, 0x1c, 0xa6, 0xb4, 0xc6, 0xe8, 0xdd, 0x74, 0x1f, 0x4b, 0xbd, 0x8b, 0x8a,
     0x70, 0x3e, 0xb5, 0x66, 0x48, 0x03, 0xf6, 0x0e, 0x61, 0x35, 0x57, 0xb9, 0x86, 0xc1, 0x1d, 0x9e,
     0xe1, 0xf8, 0x98, 0x11, 0x69, 0xd9, 0x8e, 0x94, 0x9b, 0x1e, 0x87, 0xe9, 0xce, 0x55, 0x28, 0xdf,
     0x8c, 0xa1, 0x89, 0x0d, 0xbf, 0xe6, 0x42, 0x68, 0x41, 0x99, 0x2d, 0x0f, 0xb0, 0x54, 0xbb, 0x16]"

definition sub_byte :: "byte \<Rightarrow> byte" where
  "sub_byte b = aes_sbox ! unat b"

definition xtime :: "byte \<Rightarrow> byte" where
  "xtime b = push_bit 1 b XOR (if bit b 7 then 0x1b else 0)"

text \<open>Key words, newest first; \<open>nk\<close> is the key length in words, \<open>i\<close> the index of the next word.\<close>

fun aes_expand :: "nat \<Rightarrow> nat \<Rightarrow> nat \<Rightarrow> byte \<Rightarrow> bytes list \<Rightarrow> bytes list" where
  "aes_expand nk 0 i rcon ws = rev ws"
| "aes_expand nk (Suc n) i rcon ws =
     (let t = hd ws;
          r = (if i mod nk = 0 then (case map sub_byte (rotate1 t) of [] \<Rightarrow> [] | x # xs \<Rightarrow> (x XOR rcon) # xs)
               else if nk > 6 \<and> i mod nk = 4 then map sub_byte t
               else t)
      in aes_expand nk n (Suc i) (if i mod nk = 0 then xtime rcon else rcon)
           (xor_bytes (ws ! (nk - 1)) r # ws))"

fun words4 :: "nat \<Rightarrow> bytes \<Rightarrow> bytes list" where
  "words4 0 b = []"
| "words4 (Suc n) b = take 4 b # words4 n (drop 4 b)"

definition aes_round_keys :: "bytes \<Rightarrow> bytes list" where
  "aes_round_keys k =
     (let nk = length k div 4; ws = aes_expand nk (4 * (nk + 7) - nk) nk 1 (rev (words4 nk k))
      in map (\<lambda>r. concat (take 4 (drop (4 * r) ws))) [0..<nk + 7])"

definition shift_rows :: "bytes \<Rightarrow> bytes" where
  "shift_rows s = map (\<lambda>i. s ! ((5 * i) mod 16)) [0..<16]"

fun mix_column :: "bytes \<Rightarrow> bytes" where
  "mix_column [a, b, c, d] =
     (let x = a XOR b XOR c XOR d
      in [a XOR x XOR xtime (a XOR b), b XOR x XOR xtime (b XOR c),
          c XOR x XOR xtime (c XOR d), d XOR x XOR xtime (d XOR a)])"
| "mix_column s = s"

definition mix_columns :: "bytes \<Rightarrow> bytes" where
  "mix_columns s = concat (map mix_column (words4 4 s))"

fun aes_rounds :: "bytes list \<Rightarrow> bytes \<Rightarrow> bytes" where
  "aes_rounds [] s = s"
| "aes_rounds [k] s = xor_bytes (shift_rows (map sub_byte s)) k"
| "aes_rounds (k # ks) s = aes_rounds ks (xor_bytes (mix_columns (shift_rows (map sub_byte s))) k)"

text \<open>\<^verbatim>\<open>cipher.Block.Encrypt\<close> writes one block of 16 bytes.\<close>

definition go_aes :: "bytes \<Rightarrow> bytes \<Rightarrow> bytes" where
  "go_aes key blk =
     (let c = (case aes_round_keys key of [] \<Rightarrow> [] | k # ks \<Rightarrow> aes_rounds ks (xor_bytes blk k))
      in take 16 (c @ replicate 16 0))"

section \<open>The suite and its laws\<close>

definition go_suite ::
  "(int \<Rightarrow> int \<Rightarrow> int \<Rightarrow> int \<Rightarrow> bytes \<Rightarrow> bytes \<Rightarrow> (go_error + int \<times> int) \<times> bytes)
   \<Rightarrow> (int \<Rightarrow> int \<Rightarrow> int \<Rightarrow> int \<Rightarrow> bytes \<Rightarrow> int \<Rightarrow> int \<Rightarrow> bool) \<Rightarrow> suite" where
  "go_suite sg vf =
     \<lparr>dh_p = group5_p, dh_q = group5_q, dh_g1 = group5_g1,
      sha1 = go_sha1, sha256 = go_sha256, aes_enc = go_aes, dsa_Sign = sg, dsa_Verify = vf\<rparr>"

interpretation go: dh_suite "go_suite sg vf" for sg vf
  by unfold_locales
     (simp_all add: go_suite_def go_sha1_def go_sha256_def go_aes_def group5_p_def Let_def split: prod.split)

lemma group5_safe_prime_shape: "group5_p = 2 * group5_q + 1"
  by (simp add: group5_p_def group5_q_def)

end
