(* ===== verification/Otr_Util.thy ===== *)
theory Otr_Util
  imports Go_Crypto
begin

text \<open>
  The small helper files of the library: \<^verbatim>\<open>bn_utils.go\<close>, \<^verbatim>\<open>dh.go\<close> (the group test),
  \<^verbatim>\<open>data.go\<close>, \<^verbatim>\<open>random.go\<close>, \<^verbatim>\<open>bytes.go\<close>, \<^verbatim>\<open>b64.go\<close>, \<^verbatim>\<open>policy.go\<close>, and the constants of the two
  protocol versions (\<^verbatim>\<open>version.go\<close>, \<^verbatim>\<open>otrv2.go\<close>, \<^verbatim>\<open>otrv3.go\<close>).
\<close>

section \<open>bn_utils.go\<close>

definition modExp :: "suite \<Rightarrow> int \<Rightarrow> int \<Rightarrow> int" where
  "modExp S g x = big_Exp g x (dh_p S)"

definition modInverse :: "int \<Rightarrow> int \<Rightarrow> int option" where
  "modInverse g x = big_ModInverse g x"

definition mul :: "int \<Rightarrow> int \<Rightarrow> int" where
  "mul l r = l * r"

definition sub :: "int \<Rightarrow> int \<Rightarrow> int" where
  "sub l r = l - r"

definition mulMod :: "int \<Rightarrow> int \<Rightarrow> int \<Rightarrow> int" where
  "mulMod l r m = mul l r mod m"

text \<open>\<^verbatim>\<open>modInverse\<close> returns nil for a value that is not coprime to the modulus, and the product
  with nil panics.\<close>

definition divMod :: "int \<Rightarrow> int \<Rightarrow> int \<Rightarrow> int option" where
  "divMod l r m = (case modInverse r m of None \<Rightarrow> None | Some i \<Rightarrow> Some (mulMod l i m))"

definition subMod :: "int \<Rightarrow> int \<Rightarrow> int \<Rightarrow> int" where
  "subMod l r m = sub l r mod m"

definition lte :: "int \<Rightarrow> int \<Rightarrow> bool" where
  "lte l r \<longleftrightarrow> l \<le> r"

definition eq :: "int \<Rightarrow> int \<Rightarrow> bool" where
  "eq l r \<longleftrightarrow> l = r"

definition gt :: "int \<Rightarrow> int \<Rightarrow> bool" where
  "gt l r \<longleftrightarrow> l > r"

definition gte :: "int \<Rightarrow> int \<Rightarrow> bool" where
  "gte l r \<longleftrightarrow> l \<ge> r"

lemmas bn_defs = mul_def sub_def mulMod_def subMod_def lte_def eq_def gt_def gte_def

section \<open>dh.go\<close>

definition pMinusTwo :: "suite \<Rightarrow> int" where
  "pMinusTwo S = sub (dh_p S) 2"

definition isGroupElement :: "suite \<Rightarrow> int \<Rightarrow> bool" where
  "isGroupElement S n \<longleftrightarrow> gte n (dh_g1 S) \<and> lte n (pMinusTwo S)"

section \<open>data.go\<close>

definition hashMPIs :: "(bytes \<Rightarrow> bytes) \<Rightarrow> byte \<Rightarrow> int list \<Rightarrow> bytes" where
  "hashMPIs h magic mpis = h (magic # concat (map (AppendMPI []) mpis))"

definition hashMPIsBN :: "(bytes \<Rightarrow> bytes) \<Rightarrow> byte \<Rightarrow> int list \<Rightarrow> int" where
  "hashMPIsBN h magic mpis = big_SetBytes (hashMPIs h magic mpis)"

text \<open>The conversion \<^verbatim>\<open>uint16(res)\<close> keeps the low 16 bits of the parsed number.\<close>

definition bytesToUint16 :: "bytes \<Rightarrow> uint16 option" where
  "bytesToUint16 d = (case Atoi d of None \<Rightarrow> None | Some res \<Rightarrow> Some (of_int res))"

section \<open>random.go\<close>

definition randomInto :: "nat \<Rightarrow> bytes \<Rightarrow> (go_error + bytes) \<times> bytes" where
  "randomInto n r =
     (case ReadFull n r of
        (Some b, r') \<Rightarrow> (Inr b, r')
      | (None, r') \<Rightarrow> (Inl errShortRandomRead, r'))"

definition randMPI :: "nat \<Rightarrow> bytes \<Rightarrow> (go_error + int) \<times> bytes" where
  "randMPI n r =
     (case randomInto n r of
        (Inl e, r') \<Rightarrow> (Inl e, r')
      | (Inr b, r') \<Rightarrow> (Inr (big_SetBytes b), r'))"

definition randSizedMPI :: "nat \<Rightarrow> bytes \<Rightarrow> (go_error + int) \<times> bytes" where
  "randSizedMPI n r = randMPI n r"

lemma randMPI_ok: "n \<le> length r \<Longrightarrow> randMPI n r = (Inr (big_SetBytes (take n r)), drop n r)"
  by (simp add: randMPI_def randomInto_def ReadFull_def)

lemma randMPI_short: "length r < n \<Longrightarrow> randMPI n r = (Inl errShortRandomRead, [])"
  by (simp add: randMPI_def randomInto_def ReadFull_def)

section \<open>bytes.go and b64.go\<close>

text \<open>A \<^verbatim>\<open>messageWithHeader\<close> that may be nil is an option; the nil ones are dropped.\<close>

fun compactMessagesWithHeader :: "bytes option list \<Rightarrow> bytes list" where
  "compactMessagesWithHeader [] = []"
| "compactMessagesWithHeader (m # ms) =
     (case m of None \<Rightarrow> compactMessagesWithHeader ms | Some x \<Rightarrow> x # compactMessagesWithHeader ms)"

definition b64encode :: "bytes \<Rightarrow> bytes" where
  "b64encode msg = b64_Encode msg"

definition b64decode :: "bytes \<Rightarrow> bytes option" where
  "b64decode inp = b64_Decode inp"

section \<open>policy.go\<close>

definition allowV2 :: int where "allowV2 = 2"
definition allowV3 :: int where "allowV3 = 4"
definition requireEncryption :: int where "requireEncryption = 8"
definition sendWhitespaceTag :: int where "sendWhitespaceTag = 16"
definition whitespaceStartAKE :: int where "whitespaceStartAKE = 32"
definition errorStartAKE :: int where "errorStartAKE = 64"

definition has_policy :: "int \<Rightarrow> int \<Rightarrow> bool" where
  "has_policy p c \<longleftrightarrow> p AND c = c"

definition add_policy :: "int \<Rightarrow> int \<Rightarrow> int" where
  "add_policy p c = p OR c"

definition isOTREnabled :: "int \<Rightarrow> bool" where
  "isOTREnabled p \<longleftrightarrow> has_policy p allowV2 \<or> has_policy p allowV3"

definition AllowV2 :: "int \<Rightarrow> int" where "AllowV2 p = add_policy p allowV2"
definition AllowV3 :: "int \<Rightarrow> int" where "AllowV3 p = add_policy p allowV3"
definition RequireEncryption :: "int \<Rightarrow> int" where "RequireEncryption p = add_policy p requireEncryption"
definition SendWhitespaceTag :: "int \<Rightarrow> int" where "SendWhitespaceTag p = add_policy p sendWhitespaceTag"
definition WhitespaceStartAKE :: "int \<Rightarrow> int" where "WhitespaceStartAKE p = add_policy p whitespaceStartAKE"
definition ErrorStartAKE :: "int \<Rightarrow> int" where "ErrorStartAKE p = add_policy p errorStartAKE"

lemmas policy_defs = allowV2_def allowV3_def requireEncryption_def sendWhitespaceTag_def
  whitespaceStartAKE_def errorStartAKE_def

lemma has_add_policy: "has_policy (add_policy p c) c"
  unfolding has_policy_def add_policy_def
  by (rule bit_eqI) (auto simp: bit_simps)

lemma has_policy_mono: "has_policy p d \<Longrightarrow> has_policy (add_policy p c) d"
  unfolding has_policy_def add_policy_def
  by (rule bit_eqI) (metis bit_and_iff bit_or_iff)

section \<open>version.go, otrv2.go, otrv3.go: the constants of a version\<close>

datatype otrVersion = OtrV2 | OtrV3

fun protocolVersion :: "otrVersion \<Rightarrow> uint16" where
  "protocolVersion OtrV2 = 2"
| "protocolVersion OtrV3 = 3"

fun parameterLength :: "otrVersion \<Rightarrow> nat" where
  "parameterLength OtrV2 = 16"
| "parameterLength OtrV3 = 192"

fun v_isGroupElement :: "suite \<Rightarrow> otrVersion \<Rightarrow> int \<Rightarrow> bool" where
  "v_isGroupElement S OtrV2 n = True"
| "v_isGroupElement S OtrV3 n = isGroupElement S n"

fun v_hash :: "suite \<Rightarrow> otrVersion \<Rightarrow> bytes \<Rightarrow> bytes" where
  "v_hash S OtrV2 = sha1 S"
| "v_hash S OtrV3 = sha1 S"

fun v_hash2 :: "suite \<Rightarrow> otrVersion \<Rightarrow> bytes \<Rightarrow> bytes" where
  "v_hash2 S OtrV2 = sha256 S"
| "v_hash2 S OtrV3 = sha256 S"

fun hashLength :: "otrVersion \<Rightarrow> nat" where
  "hashLength OtrV2 = 20"
| "hashLength OtrV3 = 20"

fun hash2Length :: "otrVersion \<Rightarrow> nat" where
  "hash2Length OtrV2 = 32"
| "hash2Length OtrV3 = 32"

fun truncateLength :: "otrVersion \<Rightarrow> nat" where
  "truncateLength OtrV2 = 20"
| "truncateLength OtrV3 = 20"

fun keyLength :: "otrVersion \<Rightarrow> nat" where
  "keyLength OtrV2 = 16"
| "keyLength OtrV3 = 16"

lemma version_sizes [simp]:
  "hashLength v = 20" "hash2Length v = 32" "truncateLength v = 20" "keyLength v = 16"
  "v_hash S v = sha1 S" "v_hash2 S v = sha256 S"
  by (cases v; simp)+

text \<open>\<^verbatim>\<open>ake.go\<close>: \<^verbatim>\<open>sumHMAC\<close>; \<^verbatim>\<open>key_management.go\<close>: \<^verbatim>\<open>h\<close>.\<close>

definition sumHMAC :: "suite \<Rightarrow> bytes \<Rightarrow> bytes \<Rightarrow> otrVersion \<Rightarrow> bytes" where
  "sumHMAC S key data v = hmac (v_hash2 S v) key data"

definition h_key :: "byte \<Rightarrow> bytes \<Rightarrow> (bytes \<Rightarrow> bytes) \<Rightarrow> bytes" where
  "h_key b secbytes h = h (b # secbytes)"

definition newOtrVersion :: "nat \<Rightarrow> int \<Rightarrow> go_error + otrVersion" where
  "newOtrVersion v p =
     (if v = 2 then (if has_policy p allowV2 then Inr OtrV2 else Inl errInvalidVersion)
      else if v = 3 then (if has_policy p allowV3 then Inr OtrV3 else Inl errInvalidVersion)
      else Inl errUnsupportedOTRVersion)"

end
