(* ===== verification/Messages.thy ===== *)
theory Messages
  imports Otr_Util
begin

text \<open>
  The message formats: \<^verbatim>\<open>tlv.go\<close> (the TLV record and its codec) and \<^verbatim>\<open>messages.go\<close> (the four
  key-exchange messages, data messages with their authenticator and revealed MAC keys, the
  plaintext inside a data message with its padding). Deserialisers return a sum of an error
  and the message; those that can panic return an option of that.
\<close>

section \<open>Constants\<close>

definition messageFlagNormal :: byte where "messageFlagNormal = 0"
definition messageFlagIgnoreUnreadable :: byte where "messageFlagIgnoreUnreadable = 1"
definition msgTypeDHCommit :: byte where "msgTypeDHCommit = 0x02"
definition msgTypeData :: byte where "msgTypeData = 0x03"
definition msgTypeDHKey :: byte where "msgTypeDHKey = 0x0A"
definition msgTypeRevealSig :: byte where "msgTypeRevealSig = 0x11"
definition msgTypeSig :: byte where "msgTypeSig = 0x12"

definition tlvTypePadding :: uint16 where "tlvTypePadding = 0"
definition tlvTypeDisconnected :: uint16 where "tlvTypeDisconnected = 1"
definition tlvTypeSMP1 :: uint16 where "tlvTypeSMP1 = 2"
definition tlvTypeSMP2 :: uint16 where "tlvTypeSMP2 = 3"
definition tlvTypeSMP3 :: uint16 where "tlvTypeSMP3 = 4"
definition tlvTypeSMP4 :: uint16 where "tlvTypeSMP4 = 5"
definition tlvTypeSMPAbort :: uint16 where "tlvTypeSMPAbort = 6"
definition tlvTypeSMP1WithQuestion :: uint16 where "tlvTypeSMP1WithQuestion = 7"
definition tlvTypeExtraSymmetricKey :: uint16 where "tlvTypeExtraSymmetricKey = 8"

lemmas msg_type_defs = messageFlagNormal_def messageFlagIgnoreUnreadable_def msgTypeDHCommit_def
  msgTypeData_def msgTypeDHKey_def msgTypeRevealSig_def msgTypeSig_def

lemmas tlv_type_defs = tlvTypePadding_def tlvTypeDisconnected_def tlvTypeSMP1_def tlvTypeSMP2_def
  tlvTypeSMP3_def tlvTypeSMP4_def tlvTypeSMPAbort_def tlvTypeSMP1WithQuestion_def
  tlvTypeExtraSymmetricKey_def

section \<open>tlv.go: the record\<close>

record tlv =
  tlvType :: uint16
  tlvLength :: uint16
  tlvValue :: bytes

definition tlv_serialize :: "tlv \<Rightarrow> bytes" where
  "tlv_serialize c = AppendShort (AppendShort [] (tlvType c)) (tlvLength c) @ tlvValue c"

definition tlv_deserialize :: "bytes \<Rightarrow> go_error + tlv" where
  "tlv_deserialize b =
     (case ExtractShort b of
        None \<Rightarrow> Inl (newOtrError ''wrong tlv type'')
      | Some (b1, ty) \<Rightarrow>
          (case ExtractShort b1 of
             None \<Rightarrow> Inl (newOtrError ''wrong tlv length'')
           | Some (b2, l) \<Rightarrow>
               if length b2 < unat l then Inl (newOtrError ''wrong tlv value'')
               else Inr \<lparr>tlvType = ty, tlvLength = l, tlvValue = take (unat l) b2\<rparr>))"

section \<open>messages.go: the key exchange\<close>

record dhCommit =
  dc_encryptedGx :: bytes
  dc_yhashedGx :: bytes

definition dhCommit_serialize :: "dhCommit \<Rightarrow> bytes" where
  "dhCommit_serialize c = AppendData (AppendData [] (dc_encryptedGx c)) (dc_yhashedGx c)"

definition dhCommit_deserialize :: "bytes \<Rightarrow> go_error + dhCommit" where
  "dhCommit_deserialize msg =
     (case ExtractData msg of
        None \<Rightarrow> Inl (newOtrError ''corrupt DH commit message'')
      | Some (msg', g) \<Rightarrow>
          (case ExtractData msg' of
             None \<Rightarrow> Inl (newOtrError ''corrupt DH commit message'')
           | Some (_, h) \<Rightarrow> Inr \<lparr>dc_encryptedGx = g, dc_yhashedGx = h\<rparr>))"

record dhKey =
  dk_gy :: int

definition dhKey_serialize :: "dhKey \<Rightarrow> bytes" where
  "dhKey_serialize c = AppendMPI [] (dk_gy c)"

definition dhKey_deserialize :: "bytes \<Rightarrow> go_error + dhKey" where
  "dhKey_deserialize msg =
     (case ExtractMPI msg of
        None \<Rightarrow> Inl (newOtrError ''corrupt DH key message'')
      | Some (_, gy) \<Rightarrow> Inr \<lparr>dk_gy = gy\<rparr>)"

record revealSig =
  rs_r :: bytes
  rs_encryptedSig :: bytes
  rs_macSig :: bytes

text \<open>The signature field is already length-prefixed when the message is built; the MAC is cut
  to the truncation length (a slice that panics on a shorter MAC).\<close>

definition revealSig_serialize :: "revealSig \<Rightarrow> otrVersion \<Rightarrow> bytes option" where
  "revealSig_serialize c v =
     (case slice (rs_macSig c) 0 (truncateLength v) of
        None \<Rightarrow> None
      | Some mac \<Rightarrow> Some (AppendData [] (rs_r c) @ rs_encryptedSig c @ mac))"

text \<open>\<^verbatim>\<open>copy(c.r[:], r)\<close> into a 16-byte array: a longer \<open>r\<close> is cut, a shorter one is followed by
  the array's zeros.\<close>

definition revealSig_deserialize :: "bytes \<Rightarrow> otrVersion \<Rightarrow> go_error + revealSig" where
  "revealSig_deserialize msg v =
     (case ExtractData msg of
        None \<Rightarrow> Inl (newOtrError ''corrupt reveal signature message'')
      | Some (in', r) \<Rightarrow>
          (case ExtractData in' of
             None \<Rightarrow> Inl (newOtrError ''corrupt reveal signature message'')
           | Some (macSig, encryptedSig) \<Rightarrow>
               if length macSig \<noteq> truncateLength v
               then Inl (newOtrError ''corrupt reveal signature message'')
               else Inr \<lparr>rs_r = take 16 (r @ replicate 16 0), rs_encryptedSig = encryptedSig,
                         rs_macSig = macSig\<rparr>))"

record sig_msg =
  sg_encryptedSig :: bytes
  sg_macSig :: bytes

definition sig_serialize :: "sig_msg \<Rightarrow> otrVersion \<Rightarrow> bytes option" where
  "sig_serialize c v =
     (case slice (sg_macSig c) 0 (truncateLength v) of
        None \<Rightarrow> None
      | Some mac \<Rightarrow> Some (sg_encryptedSig c @ mac))"

definition sig_deserialize :: "bytes \<Rightarrow> go_error + sig_msg" where
  "sig_deserialize msg =
     (case ExtractData msg of
        None \<Rightarrow> Inl (newOtrError ''corrupt signature message'')
      | Some (macSig, encryptedSig) \<Rightarrow>
          if length macSig \<noteq> 20 then Inl (newOtrError ''corrupt signature message'')
          else Inr \<lparr>sg_encryptedSig = encryptedSig, sg_macSig = macSig\<rparr>)"

section \<open>messages.go: data messages\<close>

record dataMsg =
  dm_flag :: byte
  dm_senderKeyID :: uint32
  dm_recipientKeyID :: uint32
  dm_y :: int
  dm_topHalfCtr :: bytes
  dm_encryptedMsg :: bytes
  dm_authenticator :: bytes
  dm_oldMACKeys :: "bytes list"
  dm_serializeUnsignedCache :: "bytes option"

definition serializeUnsigned :: "dataMsg \<Rightarrow> bytes" where
  "serializeUnsigned c =
     (let out = [dm_flag c];
          out = AppendWord out (dm_senderKeyID c);
          out = AppendWord out (dm_recipientKeyID c);
          out = AppendMPI out (dm_y c);
          out = out @ dm_topHalfCtr c
      in AppendData out (dm_encryptedMsg c))"

definition unsigned_cache :: "dataMsg \<Rightarrow> bytes" where
  "unsigned_cache c = (case dm_serializeUnsignedCache c of None \<Rightarrow> serializeUnsigned c | Some b \<Rightarrow> b)"

definition dataMsg_sign :: "suite \<Rightarrow> dataMsg \<Rightarrow> bytes \<Rightarrow> bytes \<Rightarrow> otrVersion \<Rightarrow> dataMsg" where
  "dataMsg_sign S c key header v =
     c\<lparr>dm_serializeUnsignedCache := Some (unsigned_cache c),
       dm_authenticator := hmac (v_hash S v) key (header @ unsigned_cache c)\<rparr>"

text \<open>\<^verbatim>\<open>checkSign\<close> hashes the cache field as it is; on a deserialised message it is always set.\<close>

definition checkSign :: "suite \<Rightarrow> dataMsg \<Rightarrow> bytes \<Rightarrow> bytes \<Rightarrow> otrVersion \<Rightarrow> go_error option" where
  "checkSign S c key header v =
     (let cache = (case dm_serializeUnsignedCache c of None \<Rightarrow> [] | Some b \<Rightarrow> b)
      in if dm_authenticator c = hmac (v_hash S v) key (header @ cache) then None
         else Some (newOtrConflictError ''bad signature MAC in encrypted signature''))"

definition deserializeUnsigned :: "bytes \<Rightarrow> go_error + dataMsg" where
  "deserializeUnsigned msg =
     (case msg of
        [] \<Rightarrow> Inl (newOtrError ''dataMsg.deserialize empty message'')
      | fl # in1 \<Rightarrow>
     (case ExtractWord in1 of
        None \<Rightarrow> Inl (newOtrError ''dataMsg.deserialize corrupted senderKeyID'')
      | Some (in2, sid) \<Rightarrow>
     (case ExtractWord in2 of
        None \<Rightarrow> Inl (newOtrError ''dataMsg.deserialize corrupted recipientKeyID'')
      | Some (in3, rid) \<Rightarrow>
     (case ExtractMPI in3 of
        None \<Rightarrow> Inl (newOtrError ''dataMsg.deserialize corrupted y'')
      | Some (in4, yv) \<Rightarrow>
          if length in4 < 8 then Inl (newOtrError ''dataMsg.deserialize corrupted topHalfCtr'')
          else if be_nat (take 8 in4) = 0 then Inl (newOtrError ''dataMsg.deserialize invalid topHalfCtr'')
          else
     (case ExtractData (drop 8 in4) of
        None \<Rightarrow> Inl (newOtrError ''dataMsg.deserialize corrupted encryptedMsg'')
      | Some (in5, enc) \<Rightarrow>
          Inr \<lparr>dm_flag = fl, dm_senderKeyID = sid, dm_recipientKeyID = rid, dm_y = yv,
               dm_topHalfCtr = take 8 in4, dm_encryptedMsg = enc, dm_authenticator = [],
               dm_oldMACKeys = [],
               dm_serializeUnsignedCache = Some (take (length msg - length in5) msg)\<rparr>)))))"

definition dataMsg_serialize :: "dataMsg \<Rightarrow> otrVersion \<Rightarrow> bytes" where
  "dataMsg_serialize c v =
     (let out = unsigned_cache c @ dm_authenticator c
      in AppendData out (concat (dm_oldMACKeys c)))"

fun split_keys :: "nat \<Rightarrow> bytes \<Rightarrow> bytes list option" where
  "split_keys n b =
     (if b = [] then Some []
      else if n = 0 \<or> length b < n then None
      else (case split_keys n (drop n b) of None \<Rightarrow> None | Some ks \<Rightarrow> Some (take n b # ks)))"

declare split_keys.simps [simp del]

text \<open>The authenticator is cut out of the rest of the message with \<^verbatim>\<open>msg[0:v.hashLength()]\<close> and
  \<^verbatim>\<open>msg[len(c.authenticator):]\<close>, with no check before: when fewer bytes are left, one of the
  two slices panics.\<close>

definition dataMsg_deserialize :: "bytes \<Rightarrow> otrVersion \<Rightarrow> (go_error + dataMsg) option" where
  "dataMsg_deserialize msg v =
     (case deserializeUnsigned msg of
        Inl e \<Rightarrow> Some (Inl e)
      | Inr c \<Rightarrow>
          (let msg1 = drop (length (unsigned_cache c)) msg in
           if length msg1 < hashLength v then None
           else
             (case ExtractData (drop (hashLength v) msg1) of
                None \<Rightarrow> Some (Inl (newOtrError ''dataMsg.deserialize corrupted revealMACKeys''))
              | Some (_, revKeysBytes) \<Rightarrow>
                  (case split_keys (hashLength v) revKeysBytes of
                     None \<Rightarrow> Some (Inl (newOtrError ''dataMsg.deserialize corrupted revealMACKeys''))
                   | Some ks \<Rightarrow>
                       Some (Inr (c\<lparr>dm_authenticator := take (hashLength v) msg1,
                                    dm_oldMACKeys := ks\<rparr>))))))"

section \<open>messages.go: the plaintext of a data message\<close>

record plainDataMsg =
  pm_message :: bytes
  pm_tlvs :: "tlv list"

text \<open>The TLV loop stops at the first TLV that does not parse; the ones before it are kept.\<close>

fun plain_tlvs :: "bytes \<Rightarrow> tlv list \<times> go_error option" where
  "plain_tlvs b =
     (if b = [] then ([], None)
      else (case tlv_deserialize b of
              Inl e \<Rightarrow> ([], Some e)
            | Inr t \<Rightarrow> (case plain_tlvs (drop (4 + unat (tlvLength t)) b) of
                          (ts, e) \<Rightarrow> (t # ts, e))))"

declare plain_tlvs.simps [simp del]

definition plain_deserialize :: "bytes \<Rightarrow> plainDataMsg \<times> go_error option" where
  "plain_deserialize msg =
     (let nulPos = length (takeWhile (\<lambda>b. b \<noteq> 0) msg) in
      if nulPos < length msg
      then (case plain_tlvs (drop (nulPos + 1) msg) of
              (ts, e) \<Rightarrow> (\<lparr>pm_message = take nulPos msg, pm_tlvs = ts\<rparr>, e))
      else (\<lparr>pm_message = msg, pm_tlvs = []\<rparr>, None))"

definition plain_serialize :: "plainDataMsg \<Rightarrow> bytes" where
  "plain_serialize c = pm_message c @ [0] @ concat (map tlv_serialize (pm_tlvs c))"

definition pad :: "plainDataMsg \<Rightarrow> plainDataMsg" where
  "pad c =
     (let padding = 256 - ((length (pm_message c) + 4 + 1) mod 256);
          paddingTlv = \<lparr>tlvType = tlvTypePadding, tlvLength = of_nat padding,
                        tlvValue = replicate padding 0\<rparr>
      in c\<lparr>pm_tlvs := pm_tlvs c @ [paddingTlv]\<rparr>)"

definition plain_encrypt :: "suite \<Rightarrow> plainDataMsg \<Rightarrow> bytes \<Rightarrow> bytes \<Rightarrow> bytes" where
  "plain_encrypt S c key topHalfCtr =
     (let iv = topHalfCtr @ replicate 8 0; data = plain_serialize (pad c)
      in case counterEncipher S key iv data of
           Inl _ \<Rightarrow> replicate (length data) 0
         | Inr dst \<Rightarrow> dst)"

text \<open>The error of the inner deserialisation is dropped.\<close>

definition plain_decrypt :: "suite \<Rightarrow> bytes \<Rightarrow> bytes \<Rightarrow> bytes \<Rightarrow> go_error + plainDataMsg" where
  "plain_decrypt S key topHalfCtr src =
     (case counterEncipher S key (topHalfCtr @ replicate 8 0) src of
        Inl e \<Rightarrow> Inl e
      | Inr p \<Rightarrow> Inr (fst (plain_deserialize p)))"

section \<open>TLVs and plaintexts: round trips\<close>

definition tlv_ok :: "tlv \<Rightarrow> bool" where
  "tlv_ok t \<longleftrightarrow> unat (tlvLength t) = length (tlvValue t)"

lemma tlv_serialize_alt: "tlv_serialize t = SerializeShort (tlvType t) @ SerializeShort (tlvLength t) @ tlvValue t"
  by (simp add: tlv_serialize_def AppendShort_def)

lemma tlv_serialize_nonempty [simp]: "tlv_serialize t \<noteq> []"
proof -
  have "0 < length (tlv_serialize t)" by (simp add: tlv_serialize_alt)
  then show ?thesis by blast
qed

lemma length_tlv_serialize [len]: "tlv_ok t \<Longrightarrow> length (tlv_serialize t) = 4 + unat (tlvLength t)"
  by (simp add: tlv_serialize_alt tlv_ok_def)

lemma tlv_deserialize_serialize [wire]: "tlv_ok t \<Longrightarrow> tlv_deserialize (tlv_serialize t @ r) = Inr t"
  by (simp add: tlv_deserialize_def tlv_serialize_alt tlv_ok_def)

lemma tlv_deserialize_ok: "tlv_deserialize b = Inr t \<Longrightarrow> tlv_ok t"
  by (auto simp: tlv_deserialize_def tlv_ok_def split: option.splits if_splits)

lemma plain_tlvs_serialize [wire]:
  "list_all tlv_ok ts \<Longrightarrow> plain_tlvs (concat (map tlv_serialize ts)) = (ts, None)"
proof (induction ts)
  case Nil
  then show ?case by (simp add: plain_tlvs.simps)
next
  case (Cons t ts)
  then show ?case
    by (simp add: plain_tlvs.simps [of "tlv_serialize t @ _"] tlv_deserialize_serialize
        length_tlv_serialize)
qed

lemma plain_tlvs_ok: "plain_tlvs b = (ts, e) \<Longrightarrow> list_all tlv_ok ts"
proof (induction b arbitrary: ts e rule: plain_tlvs.induct)
  case (1 b)
  from "1.prems" show ?case
    by (subst (asm) plain_tlvs.simps)
       (auto split: if_splits sum.splits prod.splits dest: "1.IH" tlv_deserialize_ok)
qed

lemma takeWhile_nonzero_append:
  "(0 :: byte) \<notin> set m \<Longrightarrow> takeWhile (\<lambda>b. b \<noteq> 0) (m @ 0 # r) = m"
  by (simp add: takeWhile_append2 takeWhile_tail) (metis takeWhile_eq_all_conv)

lemma plain_deserialize_serialize [wire]:
  assumes "0 \<notin> set (pm_message c)" "list_all tlv_ok (pm_tlvs c)"
  shows "plain_deserialize (plain_serialize c) = (c, None)"
  using assms
  by (simp add: plain_deserialize_def plain_serialize_def takeWhile_nonzero_append plain_tlvs_serialize
      Let_def)

lemma pad_fields [simp]: "pm_message (pad c) = pm_message c"
  by (simp add: pad_def Let_def)

lemma padding_tlv_ok: "list_all tlv_ok (pm_tlvs (pad c)) \<longleftrightarrow> list_all tlv_ok (pm_tlvs c)"
  by (simp add: pad_def Let_def tlv_ok_def unat_of_nat_word16 del: of_nat_diff)

lemma length_concat_snoc: "length (concat (map f (xs @ [x]))) = length (concat (map f xs)) + length (f x)"
  by simp

lemma next_multiple: "(n :: nat) + (256 - n mod 256) = 256 * (n div 256 + 1)"
proof -
  have round: "m < 256 \<Longrightarrow> 256 * d + m + (256 - m) = 256 * (d + 1)" for d m :: nat by simp
  show ?thesis using round [of "n mod 256" "n div 256"] by (simp only: mult_div_mod_eq)
qed

lemma pad_length:
  "length (plain_serialize (pad c)) mod 256 = length (concat (map tlv_serialize (pm_tlvs c))) mod 256"
proof -
  let ?n = "length (pm_message c) + 4 + 1" and ?t = "length (concat (map tlv_serialize (pm_tlvs c)))"
  have "length (plain_serialize (pad c)) = ?n + (256 - ?n mod 256) + ?t"
    by (simp add: plain_serialize_def pad_def Let_def tlv_serialize_alt unat_of_nat)
  also have "?n + (256 - ?n mod 256) + ?t = 256 * (?n div 256 + 1) + ?t"
    by (simp only: next_multiple)
  finally show ?thesis by (simp only: mod_mult_self4)
qed

context crypto_suite
begin

lemma plain_decrypt_encrypt:
  assumes "length key = 16" "0 \<notin> set (pm_message c)" "list_all tlv_ok (pm_tlvs c)"
  shows "plain_decrypt S key ctr (plain_encrypt S c key ctr) = Inr (pad c)"
  using assms
  by (simp add: plain_decrypt_def plain_encrypt_def Let_def counterEncipher_def XORKeyStream_twice
      plain_deserialize_serialize padding_tlv_ok)

lemma length_plain_encrypt: "length (plain_encrypt S c key ctr) = length (plain_serialize (pad c))"
  by (simp add: plain_encrypt_def Let_def length_counterEncipher split: sum.split)

end

section \<open>Key-exchange messages: round trips\<close>

lemma dhCommit_roundtrip [wire]:
  "data_ok (dc_encryptedGx c) \<Longrightarrow> data_ok (dc_yhashedGx c) \<Longrightarrow>
   dhCommit_deserialize (dhCommit_serialize c) = Inr c"
  using data.dec_enc_exact [of "dc_yhashedGx c"]
  by (simp add: dhCommit_deserialize_def dhCommit_serialize_def
      AppendData_split [of "AppendData [] (dc_encryptedGx c)"] wire)

lemma dhKey_roundtrip [wire]: "mpi_ok (dk_gy c) \<Longrightarrow> dhKey_deserialize (dhKey_serialize c) = Inr c"
  by (simp add: dhKey_deserialize_def dhKey_serialize_def mpi.dec_enc_exact)

lemma revealSig_roundtrip [wire]:
  assumes "length r = 16" "data_ok e" "20 \<le> length mac"
  shows "\<exists>out. revealSig_serialize \<lparr>rs_r = r, rs_encryptedSig = AppendData [] e, rs_macSig = mac\<rparr> v = Some out
     \<and> revealSig_deserialize out v
         = Inr \<lparr>rs_r = r, rs_encryptedSig = e, rs_macSig = take 20 mac\<rparr>"
proof -
  have "data_ok r" using assms(1) by (simp add: data_ok_def)
  then show ?thesis
    using assms by (simp add: revealSig_serialize_def revealSig_deserialize_def slice_def wire)
qed

lemma sig_roundtrip [wire]:
  assumes "data_ok e" "20 \<le> length mac"
  shows "\<exists>out. sig_serialize \<lparr>sg_encryptedSig = AppendData [] e, sg_macSig = mac\<rparr> v = Some out
     \<and> sig_deserialize out = Inr \<lparr>sg_encryptedSig = e, sg_macSig = take 20 mac\<rparr>"
  using assms by (simp add: sig_serialize_def sig_deserialize_def slice_def wire)

section \<open>Data messages: round trips and the truncation panic\<close>

definition dataMsg_ok :: "dataMsg \<Rightarrow> bool" where
  "dataMsg_ok c \<longleftrightarrow> mpi_ok (dm_y c) \<and> length (dm_topHalfCtr c) = 8 \<and> be_nat (dm_topHalfCtr c) \<noteq> 0
     \<and> data_ok (dm_encryptedMsg c) \<and> list_all (\<lambda>k. length k = 20) (dm_oldMACKeys c)
     \<and> data_ok (concat (dm_oldMACKeys c))"

lemma serializeUnsigned_alt:
  "serializeUnsigned c = dm_flag c # SerializeWord (dm_senderKeyID c) @ SerializeWord (dm_recipientKeyID c)
     @ AppendMPI [] (dm_y c) @ dm_topHalfCtr c @ AppendData [] (dm_encryptedMsg c)"
  unfolding serializeUnsigned_def Let_def
  by (subst AppendData_split, subst AppendMPI_split) (simp add: AppendWord_def)

lemma deserializeUnsigned_serialize:
  assumes "dataMsg_ok c"
  shows "deserializeUnsigned (serializeUnsigned c @ r) =
     Inr (c\<lparr>dm_authenticator := [], dm_oldMACKeys := [],
            dm_serializeUnsignedCache := Some (serializeUnsigned c)\<rparr>)"
  using assms
  by (cases c)
     (simp add: deserializeUnsigned_def serializeUnsigned_alt dataMsg_ok_def wire take_Cons' take_append)

lemma split_keys_concat:
  "list_all (\<lambda>k. length k = n) ks \<Longrightarrow> 0 < n \<Longrightarrow> split_keys n (concat ks) = Some ks"
proof (induction ks)
  case (Cons k ks)
  then have "k \<noteq> []" by auto
  with Cons show ?case by (simp add: split_keys.simps [of n "k @ _"])
qed (simp add: split_keys.simps)

lemma dataMsg_roundtrip:
  assumes "dataMsg_ok c" "length (dm_authenticator c) = 20"
    "dm_serializeUnsignedCache c = Some (serializeUnsigned c)"
  shows "dataMsg_deserialize (dataMsg_serialize c v) v = Some (Inr c)"
proof -
  have ser: "dataMsg_serialize c v =
      serializeUnsigned c @ dm_authenticator c @ AppendData [] (concat (dm_oldMACKeys c))"
    using assms(3) unfolding dataMsg_serialize_def Let_def unsigned_cache_def
    by (subst AppendData_split) simp
  have "data_ok (concat (dm_oldMACKeys c))" and "list_all (\<lambda>k. length k = 20) (dm_oldMACKeys c)"
    using assms(1) by (simp_all add: dataMsg_ok_def)
  then show ?thesis
    using assms(2,3)
    by (simp add: ser dataMsg_deserialize_def deserializeUnsigned_serialize [OF assms(1)] unsigned_cache_def
        data.dec_enc_exact split_keys_concat Let_def)
qed

lemma deserializeUnsigned_cache:
  "deserializeUnsigned msg = Inr c \<Longrightarrow>
     \<exists>u rest. msg = u @ rest \<and> u \<noteq> [] \<and> dm_serializeUnsignedCache c = Some u"
proof -
  assume *: "deserializeUnsigned msg = Inr c"
  then obtain fl in1 in2 in3 in4 in5 sid rid yv enc where
    steps: "msg = fl # in1" "ExtractWord in1 = Some (in2, sid)" "ExtractWord in2 = Some (in3, rid)"
      "ExtractMPI in3 = Some (in4, yv)" "ExtractData (drop 8 in4) = Some (in5, enc)"
    and c: "dm_serializeUnsignedCache c = Some (take (length msg - length in5) msg)"
    by (auto simp: deserializeUnsigned_def split: list.splits option.splits if_splits)
  have "\<exists>p. in1 = p @ in5"
    using ExtractWord_suffix [OF steps(2)] ExtractWord_suffix [OF steps(3)]
      ExtractMPI_suffix [OF steps(4)] ExtractData_suffix [OF steps(5)]
    by (metis append.assoc append_take_drop_id)
  with steps(1) obtain p where "msg = (fl # p) @ in5" by auto
  with c show ?thesis by auto
qed

text \<open>The deserialiser panics exactly when the unsigned part parses and fewer than 20 bytes
  follow it.\<close>

lemma dataMsg_deserialize_panics_iff:
  "dataMsg_deserialize msg v = None \<longleftrightarrow>
     (\<exists>c. deserializeUnsigned msg = Inr c \<and> length msg < length (unsigned_cache c) + 20)"
  by (auto simp: dataMsg_deserialize_def Let_def split: sum.splits option.splits)

lemma dataMsg_deserialize_result:
  "dataMsg_deserialize msg v = Some (Inr c) \<Longrightarrow>
     \<exists>u. dm_serializeUnsignedCache c = Some u \<and> (\<exists>rest. msg = u @ rest) \<and> length (dm_authenticator c) = 20"
  by (auto simp: dataMsg_deserialize_def Let_def split: sum.splits option.splits if_splits
      dest!: deserializeUnsigned_cache)

lemma checkSign_sign:
  "checkSign S (dataMsg_sign S c key header v) key header v = None"
  by (simp add: checkSign_def dataMsg_sign_def)

end
