(* ===== verification/Key_Management.thy ===== *)
theory Key_Management
  imports Messages "HOL-Library.Multiset" "HOL-Library.Monad_Syntax"
begin

text \<open>
  \<^verbatim>\<open>key_management.go\<close> and the part of \<^verbatim>\<open>wipe.go\<close> about keys: the history of receiving MAC keys,
  the counters of each pair of key ids, the rotation of the two sides' Diffie-Hellman keys and
  the derivation of session and key-exchange keys. A \<^verbatim>\<open>*big.Int\<close> that may be nil is an option;
  an operation that can dereference nil or index out of range returns an option, \<^term>\<open>None\<close>
  being the panic.
\<close>

section \<open>Data\<close>

record dhKeyPair =
  kp_pub :: "int option"
  kp_priv :: "int option"

record akeKeys =
  ak_c :: bytes
  ak_m1 :: bytes
  ak_m2 :: bytes

record sessionKeys =
  sendingAESKey :: bytes
  receivingAESKey :: bytes
  sendingMACKey :: bytes
  receivingMACKey :: bytes
  extraKey :: bytes

record macKeyUsage =
  mu_ourKeyID :: uint32
  mu_theirKeyID :: uint32
  mu_receivingKey :: bytes

record keyPairCounter =
  pc_ourKeyID :: uint32
  pc_theirKeyID :: uint32
  pc_ourCounter :: uint64
  pc_theirCounter :: uint64

record keyManagementContext =
  km_ourKeyID :: uint32
  km_theirKeyID :: uint32
  ourCurrentDHKeys :: dhKeyPair
  ourPreviousDHKeys :: dhKeyPair
  theirCurrentDHPubKey :: "int option"
  theirPreviousDHPubKey :: "int option"
  counterHistory :: "keyPairCounter list"
  macKeyHistory :: "macKeyUsage list"
  km_oldMACKeys :: "bytes list"

definition nil_keyPair :: dhKeyPair where
  "nil_keyPair = \<lparr>kp_pub = None, kp_priv = None\<rparr>"

definition nil_keys :: keyManagementContext where
  "nil_keys = \<lparr>km_ourKeyID = 0, km_theirKeyID = 0, ourCurrentDHKeys = nil_keyPair,
     ourPreviousDHKeys = nil_keyPair, theirCurrentDHPubKey = None, theirPreviousDHPubKey = None,
     counterHistory = [], macKeyHistory = [], km_oldMACKeys = []\<rparr>"

definition nil_akeKeys :: akeKeys where
  "nil_akeKeys = \<lparr>ak_c = [], ak_m1 = [], ak_m2 = []\<rparr>"

section \<open>The history of MAC keys\<close>

text \<open>\<^verbatim>\<open>deleteKeysAt\<close> walks the indices from the last one down; each deleted item is overwritten by
  the last item and the slice is cut by one.\<close>

definition delete_swap :: "nat \<Rightarrow> 'a list \<Rightarrow> 'a list option" where
  "delete_swap i items =
     (if i < length items then Some (butlast (items[i := last items])) else None)"

fun deleteKeysAt_rev :: "nat list \<Rightarrow> 'a list \<Rightarrow> 'a list option" where
  "deleteKeysAt_rev [] items = Some items"
| "deleteKeysAt_rev (d # ds) items =
     (case delete_swap d items of None \<Rightarrow> None | Some items' \<Rightarrow> deleteKeysAt_rev ds items')"

definition deleteKeysAt :: "nat list \<Rightarrow> 'a list \<Rightarrow> 'a list option" where
  "deleteKeysAt del items = deleteKeysAt_rev (rev del) items"

definition addKeys :: "uint32 \<Rightarrow> uint32 \<Rightarrow> bytes \<Rightarrow> macKeyUsage list \<Rightarrow> macKeyUsage list" where
  "addKeys ourKeyID theirKeyID recvKey items =
     items @ [\<lparr>mu_ourKeyID = ourKeyID, mu_theirKeyID = theirKeyID, mu_receivingKey = recvKey\<rparr>]"

text \<open>The loop of both \<^verbatim>\<open>forget\<close> methods: the matching keys, and the indices they stand at.\<close>

fun forget_scan :: "(macKeyUsage \<Rightarrow> bool) \<Rightarrow> nat \<Rightarrow> macKeyUsage list \<Rightarrow> bytes list \<times> nat list" where
  "forget_scan P i [] = ([], [])"
| "forget_scan P i (k # ks) =
     (case forget_scan P (Suc i) ks of
        (ret, del) \<Rightarrow> if P k then (mu_receivingKey k # ret, i # del) else (ret, del))"

definition forgetMACKeysForOurKey ::
    "uint32 \<Rightarrow> macKeyUsage list \<Rightarrow> (bytes list \<times> macKeyUsage list) option" where
  "forgetMACKeysForOurKey ourKeyID items =
     (case forget_scan (\<lambda>k. mu_ourKeyID k = ourKeyID) 0 items of
        (ret, del) \<Rightarrow> (case deleteKeysAt del items of None \<Rightarrow> None | Some items' \<Rightarrow> Some (ret, items')))"

definition forgetMACKeysForTheirKey ::
    "uint32 \<Rightarrow> macKeyUsage list \<Rightarrow> (bytes list \<times> macKeyUsage list) option" where
  "forgetMACKeysForTheirKey theirKeyID items =
     (case forget_scan (\<lambda>k. mu_theirKeyID k = theirKeyID) 0 items of
        (ret, del) \<Rightarrow> (case deleteKeysAt del items of None \<Rightarrow> None | Some items' \<Rightarrow> Some (ret, items')))"

section \<open>Counters\<close>

fun counter_index :: "uint32 \<Rightarrow> uint32 \<Rightarrow> keyPairCounter list \<Rightarrow> nat option" where
  "counter_index our their [] = None"
| "counter_index our their (c # cs) =
     (if pc_ourKeyID c = our \<and> pc_theirKeyID c = their then Some 0
      else (case counter_index our their cs of None \<Rightarrow> None | Some i \<Rightarrow> Some (Suc i)))"

text \<open>The Go method returns a pointer into the history; here it is the entry's index, with the
  history it points into.\<close>

definition findCounterFor ::
    "uint32 \<Rightarrow> uint32 \<Rightarrow> keyPairCounter list \<Rightarrow> nat \<times> keyPairCounter list" where
  "findCounterFor our their counters =
     (case counter_index our their counters of
        Some i \<Rightarrow> (i, counters)
      | None \<Rightarrow> (length counters,
          counters @ [\<lparr>pc_ourKeyID = our, pc_theirKeyID = their, pc_ourCounter = 0, pc_theirCounter = 0\<rparr>]))"

definition incrementOurCounter ::
    "uint32 \<Rightarrow> uint32 \<Rightarrow> keyManagementContext \<Rightarrow> keyManagementContext" where
  "incrementOurCounter our their k =
     (case findCounterFor our their (counterHistory k) of
        (i, cs) \<Rightarrow> k\<lparr>counterHistory := cs[i := (cs ! i)\<lparr>pc_ourCounter := pc_ourCounter (cs ! i) + 1\<rparr>]\<rparr>)"

definition checkMessageCounter ::
    "dataMsg \<Rightarrow> keyManagementContext \<Rightarrow> go_error option \<times> keyManagementContext" where
  "checkMessageCounter m k =
     (case findCounterFor (dm_recipientKeyID m) (dm_senderKeyID m) (counterHistory k) of
        (i, cs) \<Rightarrow>
          let theirNextCounter = (of_nat (be_nat (dm_topHalfCtr m)) :: uint64) in
          if theirNextCounter \<le> pc_theirCounter (cs ! i)
          then (Some (newOtrConflictError ''counter regressed''), k\<lparr>counterHistory := cs\<rparr>)
          else (None, k\<lparr>counterHistory := cs[i := (cs ! i)\<lparr>pc_theirCounter := theirNextCounter\<rparr>]\<rparr>))"

section \<open>Wiping (wipe.go)\<close>

definition dhKeyPair_wipe :: "dhKeyPair \<Rightarrow> dhKeyPair" where
  "dhKeyPair_wipe p = p\<lparr>kp_pub := None, kp_priv := None\<rparr>"

definition akeKeys_wipe :: "akeKeys \<Rightarrow> akeKeys" where
  "akeKeys_wipe k = k\<lparr>ak_c := [], ak_m1 := [], ak_m2 := []\<rparr>"

definition keys_wipeKeys :: "keyManagementContext \<Rightarrow> keyManagementContext" where
  "keys_wipeKeys c = c\<lparr>ourCurrentDHKeys := dhKeyPair_wipe (ourCurrentDHKeys c),
     ourPreviousDHKeys := dhKeyPair_wipe (ourPreviousDHKeys c),
     theirCurrentDHPubKey := None, theirPreviousDHPubKey := None\<rparr>"

definition keys_wipe :: "keyManagementContext \<Rightarrow> keyManagementContext" where
  "keys_wipe c = (keys_wipeKeys c)\<lparr>km_ourKeyID := 0, km_theirKeyID := 0, km_oldMACKeys := [],
     counterHistory := [], macKeyHistory := []\<rparr>"

text \<open>The copy in \<^verbatim>\<open>wipeAndKeepRevealKeys\<close> is of the slice of slices: the kept keys share their
  bytes with the wiped context, so each of them is overwritten with zeros.\<close>

definition wipeAndKeepRevealKeys :: "keyManagementContext \<Rightarrow> keyManagementContext" where
  "wipeAndKeepRevealKeys c =
     nil_keys\<lparr>km_oldMACKeys := map (\<lambda>k. replicate (length k) 0) (km_oldMACKeys c)\<rparr>"

section \<open>Rotation\<close>

definition setTheirCurrentDHPubKey :: "int \<Rightarrow> keyManagementContext \<Rightarrow> keyManagementContext" where
  "setTheirCurrentDHPubKey key k = k\<lparr>theirCurrentDHPubKey := Some key\<rparr>"

definition setOurCurrentDHKeys :: "int \<Rightarrow> int \<Rightarrow> keyManagementContext \<Rightarrow> keyManagementContext" where
  "setOurCurrentDHKeys priv pub k = k\<lparr>ourCurrentDHKeys := \<lparr>kp_pub = Some pub, kp_priv = Some priv\<rparr>\<rparr>"

definition revealMACKeys :: "keyManagementContext \<Rightarrow> bytes list \<times> keyManagementContext" where
  "revealMACKeys k = (km_oldMACKeys k, k\<lparr>km_oldMACKeys := []\<rparr>)"

definition generateNewDHKeyPair ::
    "suite \<Rightarrow> bytes \<Rightarrow> keyManagementContext \<Rightarrow> go_error option \<times> bytes \<times> keyManagementContext" where
  "generateNewDHKeyPair S randomness k =
     (case randSizedMPI 40 randomness of
        (Inl e, r) \<Rightarrow> (Some e, r, k)
      | (Inr newPrivKey, r) \<Rightarrow>
          (None, r,
           k\<lparr>ourPreviousDHKeys := ourCurrentDHKeys k,
             ourCurrentDHKeys := \<lparr>kp_pub = Some (modExp S (dh_g1 S) newPrivKey), kp_priv = Some newPrivKey\<rparr>,
             km_ourKeyID := km_ourKeyID k + 1\<rparr>))"

definition revealMACKeysForOurPreviousKeyID :: "keyManagementContext \<Rightarrow> keyManagementContext option" where
  "revealMACKeysForOurPreviousKeyID k =
     do { (ks, items) \<leftarrow> forgetMACKeysForOurKey (km_ourKeyID k - 1) (macKeyHistory k);
          Some (k\<lparr>macKeyHistory := items, km_oldMACKeys := km_oldMACKeys k @ ks\<rparr>) }"

definition rotateOurKeys ::
    "suite \<Rightarrow> uint32 \<Rightarrow> bytes \<Rightarrow> keyManagementContext \<Rightarrow>
     (go_error option \<times> bytes \<times> keyManagementContext) option" where
  "rotateOurKeys S recipientKeyID randomness k =
     (if recipientKeyID = km_ourKeyID k
      then do { k' \<leftarrow> revealMACKeysForOurPreviousKeyID k; Some (generateNewDHKeyPair S randomness k') }
      else Some (None, randomness, k))"

definition revealMACKeysForTheirPreviousKeyID :: "keyManagementContext \<Rightarrow> keyManagementContext option" where
  "revealMACKeysForTheirPreviousKeyID k =
     do { (ks, items) \<leftarrow> forgetMACKeysForTheirKey (km_theirKeyID k - 1) (macKeyHistory k);
          Some (k\<lparr>macKeyHistory := items, km_oldMACKeys := km_oldMACKeys k @ ks\<rparr>) }"

definition rotateTheirKey :: "uint32 \<Rightarrow> int \<Rightarrow> keyManagementContext \<Rightarrow> keyManagementContext option" where
  "rotateTheirKey senderKeyID pubDHKey k =
     (if senderKeyID = km_theirKeyID k
      then do { k' \<leftarrow> revealMACKeysForTheirPreviousKeyID k;
                Some (k'\<lparr>theirPreviousDHPubKey := theirCurrentDHPubKey k',
                         theirCurrentDHPubKey := Some pubDHKey,
                         km_theirKeyID := km_theirKeyID k' + 1\<rparr>) }
      else Some k)"

definition rotateKeys ::
    "suite \<Rightarrow> dataMsg \<Rightarrow> bytes \<Rightarrow> keyManagementContext \<Rightarrow>
     (go_error option \<times> bytes \<times> keyManagementContext) option" where
  "rotateKeys S m randomness k =
     do { (e, r, k1) \<leftarrow> rotateOurKeys S (dm_recipientKeyID m) randomness k;
          case e of
            Some err \<Rightarrow> Some (Some err, r, k1)
          | None \<Rightarrow> do { k2 \<leftarrow> rotateTheirKey (dm_senderKeyID m) (dm_y m) k1; Some (None, r, k2) } }"

section \<open>Derivation\<close>

definition pickOurKeys ::
    "uint32 \<Rightarrow> keyManagementContext \<Rightarrow> go_error + (int option \<times> int option)" where
  "pickOurKeys ourKeyID k =
     (if ourKeyID = 0 \<or> km_ourKeyID k = 0 then Inl (newOtrConflictError ''invalid key id for local peer'')
      else if ourKeyID = km_ourKeyID k then Inr (kp_priv (ourCurrentDHKeys k), kp_pub (ourCurrentDHKeys k))
      else if ourKeyID = km_ourKeyID k - 1
        then Inr (kp_priv (ourPreviousDHKeys k), kp_pub (ourPreviousDHKeys k))
      else Inl (newOtrConflictError ''mismatched key id for local peer''))"

definition pickTheirKey :: "uint32 \<Rightarrow> keyManagementContext \<Rightarrow> go_error + int option" where
  "pickTheirKey theirKeyID k =
     (if theirKeyID = 0 \<or> km_theirKeyID k = 0 then Inl (newOtrConflictError ''invalid key id for remote peer'')
      else if theirKeyID = km_theirKeyID k then Inr (theirCurrentDHPubKey k)
      else if theirKeyID = km_theirKeyID k - 1
        then (if theirPreviousDHPubKey k = None
              then Inl (newOtrConflictError ''no previous key for remote peer found'')
              else Inr (theirPreviousDHPubKey k))
      else Inl (newOtrConflictError ''mismatched key id for remote peer''))"

definition calculateDHSessionKeys ::
    "suite \<Rightarrow> int option \<Rightarrow> int option \<Rightarrow> int option \<Rightarrow> otrVersion \<Rightarrow> sessionKeys option" where
  "calculateDHSessionKeys S ourPriv ourPub theirPub v =
     do { opub \<leftarrow> ourPub; tpub \<leftarrow> theirPub; opriv \<leftarrow> ourPriv;
          let (sendbyte, recvbyte) = (if gt opub tpub then (1, 2) else (2, 1 :: byte));
              s = big_Exp tpub opriv (dh_p S);
              secbytes = AppendMPI [] s;
              sAES = take (keyLength v) (h_key sendbyte secbytes (v_hash S v));
              rAES = take (keyLength v) (h_key recvbyte secbytes (v_hash S v))
          in Some \<lparr>sendingAESKey = sAES, receivingAESKey = rAES,
                   sendingMACKey = v_hash S v sAES, receivingMACKey = v_hash S v rAES,
                   extraKey = h_key 0xFF secbytes (v_hash2 S v)\<rparr> }"

definition keys_calculateDHSessionKeys ::
    "suite \<Rightarrow> uint32 \<Rightarrow> uint32 \<Rightarrow> otrVersion \<Rightarrow> keyManagementContext \<Rightarrow>
     ((go_error + sessionKeys) \<times> keyManagementContext) option" where
  "keys_calculateDHSessionKeys S ourKeyID theirKeyID v k =
     (case pickOurKeys ourKeyID k of
        Inl e \<Rightarrow> Some (Inl e, k)
      | Inr (ourPriv, ourPub) \<Rightarrow>
          (case pickTheirKey theirKeyID k of
             Inl e \<Rightarrow> Some (Inl e, k)
           | Inr theirPub \<Rightarrow>
               do { ret \<leftarrow> calculateDHSessionKeys S ourPriv ourPub theirPub v;
                    Some (Inr ret, k\<lparr>macKeyHistory :=
                      addKeys ourKeyID theirKeyID (receivingMACKey ret) (macKeyHistory k)\<rparr>) }))"

definition calculateAKEKeys :: "suite \<Rightarrow> int \<Rightarrow> otrVersion \<Rightarrow> bytes \<times> akeKeys \<times> akeKeys" where
  "calculateAKEKeys S s v =
     (let secbytes = AppendMPI [] s; h = v_hash2 S v; keys = h_key 0x01 secbytes h
      in (take 8 (h_key 0x00 secbytes h),
          \<lparr>ak_c = take 16 keys, ak_m1 = h_key 0x02 secbytes h, ak_m2 = h_key 0x03 secbytes h\<rparr>,
          \<lparr>ak_c = drop 16 keys, ak_m1 = h_key 0x04 secbytes h, ak_m2 = h_key 0x05 secbytes h\<rparr>))"

section \<open>The MAC-key history as a multiset\<close>

lemma mset_butlast_update:
  assumes "i < length xs"
  shows "mset (butlast (xs[i := last xs])) = mset xs - {#xs ! i#}"
proof -
  obtain ys y where xs: "xs = ys @ [y]" using assms by (cases xs rule: rev_cases) auto
  show ?thesis
  proof (cases "i < length ys")
    case True
    then show ?thesis
      by (simp add: xs list_update_append mset_update nth_append multiset_eq_iff)
  next
    case False
    with assms show ?thesis by (simp add: xs list_update_append nth_append)
  qed
qed

lemma delete_swap_spec:
  assumes "i < length xs"
  shows "\<exists>ys. delete_swap i xs = Some ys \<and> mset ys = mset xs - {#xs ! i#} \<and> Suc (length ys) = length xs
     \<and> (\<forall>j < i. ys ! j = xs ! j)"
  using assms mset_butlast_update [OF assms]
  by (auto simp: delete_swap_def nth_butlast)

lemma deleteKeysAt_rev_spec:
  "sorted_wrt (>) ds \<Longrightarrow> (\<And>d. d \<in> set ds \<Longrightarrow> d < length xs) \<Longrightarrow>
   \<exists>ys. deleteKeysAt_rev ds xs = Some ys \<and> mset ys = mset xs - mset (map ((!) xs) ds)"
proof (induction ds arbitrary: xs)
  case (Cons d ds)
  then have "d < length xs" by simp
  then obtain ys where ys: "delete_swap d xs = Some ys" "mset ys = mset xs - {#xs ! d#}"
      "Suc (length ys) = length xs" "\<forall>j < d. ys ! j = xs ! j"
    using delete_swap_spec by blast
  have below: "j < d" if "j \<in> set ds" for j using Cons.prems(1) that by auto
  then obtain zs where zs: "deleteKeysAt_rev ds ys = Some zs" "mset zs = mset ys - mset (map ((!) ys) ds)"
    using Cons.IH [of ys] Cons.prems \<open>d < length xs\<close> ys(3) by fastforce
  have "image_mset ((!) ys) (mset ds) = image_mset ((!) xs) (mset ds)"
    using below ys(4) by (intro image_mset_cong) auto
  then show ?case using ys zs by auto
qed simp

lemma forget_scan_spec:
  "forget_scan P i ks = (ret, del) \<Longrightarrow>
     ret = map mu_receivingKey (filter P ks) \<and> sorted_wrt (<) del
     \<and> (\<forall>d \<in> set del. i \<le> d \<and> d < i + length ks) \<and> map (\<lambda>d. ks ! (d - i)) del = filter P ks"
proof (induction ks arbitrary: i ret del)
  case (Cons k ks)
  obtain ret' del' where rec: "forget_scan P (Suc i) ks = (ret', del')" by fastforce
  note IH = Cons.IH [OF rec]
  have "(k # ks) ! (d - i) = ks ! (d - Suc i)" if "d \<in> set del'" for d
  proof -
    have "i < d" using IH that by auto
    then show ?thesis by (simp flip: Suc_diff_Suc)
  qed
  then have "map (\<lambda>d. (k # ks) ! (d - i)) del' = map (\<lambda>d. ks ! (d - Suc i)) del'" by simp
  with IH have "map (\<lambda>d. (k # ks) ! (d - i)) del' = filter P ks" by simp
  with IH Cons.prems rec show ?case by (force split: if_splits)
qed simp

lemma forget_spec:
  assumes "forget_scan P 0 items = (ret, del)"
  shows "ret = map mu_receivingKey (filter P items) \<and>
    (\<exists>items'. deleteKeysAt del items = Some items' \<and> mset items' = filter_mset (\<lambda>k. \<not> P k) (mset items))"
proof -
  note sc = forget_scan_spec [OF assms]
  have "sorted_wrt (>) (rev del)" using sc by (simp add: sorted_wrt_rev)
  then obtain items' where del: "deleteKeysAt del items = Some items'"
      "mset items' = mset items - mset (map ((!) items) (rev del))"
    using sc deleteKeysAt_rev_spec [of "rev del" items] by (auto simp: deleteKeysAt_def)
  have "mset (map ((!) items) (rev del)) = mset (filter P items)"
    using sc by (metis (mono_tags, lifting) diff_zero map_eq_conv mset_rev rev_map)
  then have "mset items' = filter_mset (\<lambda>k. \<not> P k) (mset items)"
    using del(2) multiset_partition [of "mset items" P] by (metis add_diff_cancel_left' mset_filter)
  with sc del show ?thesis by blast
qed

lemma forgetMACKeysForOurKey_spec:
  "\<exists>items'. forgetMACKeysForOurKey i items
       = Some (map mu_receivingKey (filter (\<lambda>k. mu_ourKeyID k = i) items), items')
     \<and> mset items' = filter_mset (\<lambda>k. mu_ourKeyID k \<noteq> i) (mset items)"
proof -
  obtain ret del where sc: "forget_scan (\<lambda>k. mu_ourKeyID k = i) 0 items = (ret, del)" by fastforce
  show ?thesis using forget_spec [OF sc] sc by (auto simp: forgetMACKeysForOurKey_def)
qed

lemma forgetMACKeysForTheirKey_spec:
  "\<exists>items'. forgetMACKeysForTheirKey i items
       = Some (map mu_receivingKey (filter (\<lambda>k. mu_theirKeyID k = i) items), items')
     \<and> mset items' = filter_mset (\<lambda>k. mu_theirKeyID k \<noteq> i) (mset items)"
proof -
  obtain ret del where sc: "forget_scan (\<lambda>k. mu_theirKeyID k = i) 0 items = (ret, del)" by fastforce
  show ?thesis using forget_spec [OF sc] sc by (auto simp: forgetMACKeysForTheirKey_def)
qed

section \<open>Counters\<close>

text \<open>The counter (ours or theirs) of a pair of key ids: that of its first entry, zero when it has
  none.\<close>

definition counterOf ::
    "(keyPairCounter \<Rightarrow> uint64) \<Rightarrow> uint32 \<Rightarrow> uint32 \<Rightarrow> keyPairCounter list \<Rightarrow> uint64" where
  "counterOf f our their cs =
     (case counter_index our their cs of None \<Rightarrow> 0 | Some i \<Rightarrow> f (cs ! i))"

abbreviation "theirCounterOf our their k \<equiv> counterOf pc_theirCounter our their (counterHistory k)"
abbreviation "ourCounterOf our their k \<equiv> counterOf pc_ourCounter our their (counterHistory k)"

lemma counter_index_Some:
  "counter_index o' t cs = Some i \<Longrightarrow> i < length cs \<and> pc_ourKeyID (cs ! i) = o' \<and> pc_theirKeyID (cs ! i) = t"
  by (induction cs arbitrary: i) (auto split: if_splits option.splits)

lemma counter_index_append:
  "counter_index o' t (cs @ ds) =
     (case counter_index o' t cs of Some i \<Rightarrow> Some i
      | None \<Rightarrow> (case counter_index o' t ds of None \<Rightarrow> None | Some j \<Rightarrow> Some (length cs + j)))"
  by (induction cs) (auto split: option.splits)

lemma counter_index_update:
  "i < length cs \<Longrightarrow> pc_ourKeyID c = pc_ourKeyID (cs ! i) \<Longrightarrow> pc_theirKeyID c = pc_theirKeyID (cs ! i) \<Longrightarrow>
   counter_index o' t (cs[i := c]) = counter_index o' t cs"
  by (induction cs arbitrary: i) (auto split: nat.splits option.splits)

text \<open>What \<^const>\<open>findCounterFor\<close> returns, for the pair asked for and for every other pair.\<close>

lemma findCounterFor_index:
  "findCounterFor our their cs = (i, cs') \<Longrightarrow> counter_index our their cs' = Some i"
  by (auto simp: findCounterFor_def counter_index_append split: option.splits)

lemma counterOf_findCounterFor:
  assumes "findCounterFor our their cs = (i, cs')" "f = pc_ourCounter \<or> f = pc_theirCounter"
  shows "counterOf f o' t cs' = counterOf f o' t cs"
  using assms counter_index_Some [of o' t cs]
  by (auto simp: findCounterFor_def counterOf_def counter_index_append nth_append split: option.splits if_splits)

lemma counterOf_update:
  assumes "findCounterFor our their cs = (i, cs')" "f = pc_ourCounter \<or> f = pc_theirCounter"
    and "pc_ourKeyID c = our" "pc_theirKeyID c = their"
  shows "counterOf f o' t (cs'[i := c]) =
      (if (o', t) = (our, their) then f c else counterOf f o' t cs)"
proof -
  have i: "counter_index our their cs' = Some i" using assms(1) by (rule findCounterFor_index)
  have same: "counter_index o' t (cs'[i := c]) = counter_index o' t cs'"
    using counter_index_Some [OF i] assms(3,4) by (intro counter_index_update) simp_all
  show ?thesis
  proof (cases "(o', t) = (our, their)")
    case True
    with i same counter_index_Some [OF i] show ?thesis by (simp add: counterOf_def)
  next
    case False
    then have "counter_index o' t cs' = Some j \<Longrightarrow> i \<noteq> j" for j
      using counter_index_Some [OF i] counter_index_Some [of o' t cs' j] by auto
    then have "counterOf f o' t (cs'[i := c]) = counterOf f o' t cs'"
      by (auto simp: counterOf_def same split: option.split)
    with False counterOf_findCounterFor [OF assms(1,2), of o' t] show ?thesis by auto
  qed
qed

lemma findCounterFor_entry:
  assumes "findCounterFor our their cs = (i, cs')" "f = pc_ourCounter \<or> f = pc_theirCounter"
  shows "f (cs' ! i) = counterOf f our their cs"
    and "pc_ourKeyID (cs' ! i) = our" and "pc_theirKeyID (cs' ! i) = their"
  using counterOf_findCounterFor [OF assms, of our their] findCounterFor_index [OF assms(1)]
    counter_index_Some [of our their cs' i]
  by (simp_all add: counterOf_def)

lemma ourCounterOf_incrementOurCounter:
  "ourCounterOf o' t (incrementOurCounter our their k) =
     (if (o', t) = (our, their) then ourCounterOf our their k + 1 else ourCounterOf o' t k)"
  and theirCounterOf_incrementOurCounter:
  "theirCounterOf o' t (incrementOurCounter our their k) = theirCounterOf o' t k"
proof -
  obtain i cs where f: "findCounterFor our their (counterHistory k) = (i, cs)" by fastforce
  note e = findCounterFor_entry [OF f, of pc_ourCounter] findCounterFor_entry [OF f, of pc_theirCounter]
  show "ourCounterOf o' t (incrementOurCounter our their k) =
     (if (o', t) = (our, their) then ourCounterOf our their k + 1 else ourCounterOf o' t k)"
    using counterOf_update [OF f, of pc_ourCounter "(cs ! i)\<lparr>pc_ourCounter := pc_ourCounter (cs ! i) + 1\<rparr>"] e
    by (simp add: incrementOurCounter_def f)
  show "theirCounterOf o' t (incrementOurCounter our their k) = theirCounterOf o' t k"
    using counterOf_update [OF f, of pc_theirCounter "(cs ! i)\<lparr>pc_ourCounter := pc_ourCounter (cs ! i) + 1\<rparr>"] e
    by (auto simp: incrementOurCounter_def f)
qed

lemma checkMessageCounter_spec:
  defines "nxt m \<equiv> of_nat (be_nat (dm_topHalfCtr m))"
  assumes "checkMessageCounter m k = (e, k')"
  shows "e = (if nxt m \<le> theirCounterOf (dm_recipientKeyID m) (dm_senderKeyID m) k
              then Some (newOtrConflictError ''counter regressed'') else None)"
    and "theirCounterOf o' t k' =
          (if e = None \<and> (o', t) = (dm_recipientKeyID m, dm_senderKeyID m) then nxt m
           else theirCounterOf o' t k)"
    and "ourCounterOf o' t k' = ourCounterOf o' t k"
proof -
  obtain i cs where f: "findCounterFor (dm_recipientKeyID m) (dm_senderKeyID m) (counterHistory k) = (i, cs)"
    by fastforce
  let ?c = "(cs ! i)\<lparr>pc_theirCounter := nxt m\<rparr>"
  let ?regressed = "nxt m \<le> theirCounterOf (dm_recipientKeyID m) (dm_senderKeyID m) k"
  have en: "pc_theirCounter (cs ! i) = theirCounterOf (dm_recipientKeyID m) (dm_senderKeyID m) k"
    "pc_ourCounter (cs ! i) = ourCounterOf (dm_recipientKeyID m) (dm_senderKeyID m) k"
    "pc_ourKeyID (cs ! i) = dm_recipientKeyID m" "pc_theirKeyID (cs ! i) = dm_senderKeyID m"
    using findCounterFor_entry [OF f] by auto
  have res: "(e, k') = (if ?regressed
      then (Some (newOtrConflictError ''counter regressed''), k\<lparr>counterHistory := cs\<rparr>)
      else (None, k\<lparr>counterHistory := cs[i := ?c]\<rparr>))"
    using assms(2) by (simp only: checkMessageCounter_def f en nxt_def Let_def prod.case)
  then show "e = (if ?regressed then Some (newOtrConflictError ''counter regressed'') else None)"
    by (simp split: if_splits)
  show "theirCounterOf o' t k' =
          (if e = None \<and> (o', t) = (dm_recipientKeyID m, dm_senderKeyID m) then nxt m
           else theirCounterOf o' t k)"
    using res counterOf_update [OF f, of pc_theirCounter ?c o' t]
      counterOf_findCounterFor [OF f, of pc_theirCounter o' t] en(3,4)
    by (auto split: if_splits)
  show "ourCounterOf o' t k' = ourCounterOf o' t k"
    using res counterOf_update [OF f, of pc_ourCounter ?c o' t]
      counterOf_findCounterFor [OF f, of pc_ourCounter o' t] en(2-4)
    by (auto split: if_splits)
qed

lemma theirCounterOf_mono:
  "theirCounterOf o' t k \<le> theirCounterOf o' t (snd (checkMessageCounter m k))"
proof -
  obtain e k' where c: "checkMessageCounter m k = (e, k')" by fastforce
  note spec = checkMessageCounter_spec(1) [OF c] checkMessageCounter_spec(2) [OF c, of o' t]
  show ?thesis
  proof (cases "e = None \<and> (o', t) = (dm_recipientKeyID m, dm_senderKeyID m)")
    case True
    with spec show ?thesis by (simp add: c split: if_splits)
  next
    case False
    with spec(2) show ?thesis by (simp only: c snd_conv if_False order_refl)
  qed
qed

lemma theirCounterOf_mono_seq:
  "theirCounterOf o' t k \<le> theirCounterOf o' t (fold (\<lambda>m k. snd (checkMessageCounter m k)) ms k)"
proof (induction ms arbitrary: k)
  case (Cons m ms)
  show ?case
    using order_trans [OF theirCounterOf_mono Cons.IH] by (simp only: fold_simps)
qed simp

section \<open>The invariant of the key context\<close>

text \<open>A key id in use has its key: our current pair (and our previous one, once there has been a
  rotation) is a private exponent with the matching public value, and their current public
  value is known.\<close>

definition pair_ok :: "suite \<Rightarrow> dhKeyPair \<Rightarrow> bool" where
  "pair_ok S p \<longleftrightarrow>
     (case (kp_priv p, kp_pub p) of
        (Some x, Some gx) \<Rightarrow> 0 \<le> x \<and> gx = modExp S (dh_g1 S) x
      | _ \<Rightarrow> False)"

definition keys_ok :: "suite \<Rightarrow> keyManagementContext \<Rightarrow> bool" where
  "keys_ok S k \<longleftrightarrow>
     (km_ourKeyID k \<noteq> 0 \<longrightarrow> pair_ok S (ourCurrentDHKeys k))
     \<and> (1 < km_ourKeyID k \<longrightarrow> pair_ok S (ourPreviousDHKeys k))
     \<and> (km_theirKeyID k \<noteq> 0 \<longrightarrow> theirCurrentDHPubKey k \<noteq> None)"

lemma big_SetBytes_nonneg [simp]: "0 \<le> big_SetBytes b"
  by (simp add: big_SetBytes_def)

lemma keys_ok_nil [simp]: "keys_ok S nil_keys"
  by (simp add: keys_ok_def nil_keys_def)

lemma keys_ok_wipe [simp]: "keys_ok S (keys_wipe k)" "keys_ok S (wipeAndKeepRevealKeys k)"
  by (simp_all add: keys_ok_def keys_wipe_def wipeAndKeepRevealKeys_def nil_keys_def)

lemma word_prev_nonzero: "(w :: uint32) \<noteq> 0 \<Longrightarrow> w - 1 \<noteq> 0 \<Longrightarrow> 1 < w"
proof -
  assume "w \<noteq> 0" "w - 1 \<noteq> 0"
  then have "unat w \<noteq> unat (0 :: uint32)" "unat w \<noteq> unat (1 :: uint32)"
    using unsigned_word_eqI [of w 0, where ?'a = nat] unsigned_word_eqI [of w 1, where ?'a = nat] by auto
  then show ?thesis by (simp add: word_less_nat_alt)
qed

lemma word_succ_gt_1: "1 < (w :: uint32) + 1 \<Longrightarrow> w \<noteq> 0"
  by auto

lemma pair_ok_generate:
  "randSizedMPI n r = (Inr x, r') \<Longrightarrow>
   pair_ok S \<lparr>kp_pub = Some (modExp S (dh_g1 S) x), kp_priv = Some x\<rparr>"
  by (auto simp: pair_ok_def randSizedMPI_def randMPI_def split: prod.splits sum.splits)

lemma generateNewDHKeyPair_ok:
  "keys_ok S k \<Longrightarrow> generateNewDHKeyPair S r k = (e, r', k') \<Longrightarrow> keys_ok S k'"
  by (auto simp: generateNewDHKeyPair_def keys_ok_def split: prod.splits sum.splits
      intro: pair_ok_generate dest: word_succ_gt_1)

lemma keys_ok_frame [simp]:
  "keys_ok S (k\<lparr>macKeyHistory := a\<rparr>) = keys_ok S k"
  "keys_ok S (k\<lparr>km_oldMACKeys := b\<rparr>) = keys_ok S k"
  "keys_ok S (k\<lparr>counterHistory := c\<rparr>) = keys_ok S k"
  by (simp_all add: keys_ok_def)

lemma revealMACKeysForOurPreviousKeyID_spec:
  "\<exists>items. revealMACKeysForOurPreviousKeyID k =
      Some (k\<lparr>macKeyHistory := items, km_oldMACKeys := km_oldMACKeys k @
              map mu_receivingKey (filter (\<lambda>u. mu_ourKeyID u = km_ourKeyID k - 1) (macKeyHistory k))\<rparr>)
    \<and> mset items = filter_mset (\<lambda>u. mu_ourKeyID u \<noteq> km_ourKeyID k - 1) (mset (macKeyHistory k))"
  using forgetMACKeysForOurKey_spec [of "km_ourKeyID k - 1" "macKeyHistory k"]
  by (auto simp: revealMACKeysForOurPreviousKeyID_def)

lemma revealMACKeysForTheirPreviousKeyID_spec:
  "\<exists>items. revealMACKeysForTheirPreviousKeyID k =
      Some (k\<lparr>macKeyHistory := items, km_oldMACKeys := km_oldMACKeys k @
              map mu_receivingKey (filter (\<lambda>u. mu_theirKeyID u = km_theirKeyID k - 1) (macKeyHistory k))\<rparr>)
    \<and> mset items = filter_mset (\<lambda>u. mu_theirKeyID u \<noteq> km_theirKeyID k - 1) (mset (macKeyHistory k))"
  using forgetMACKeysForTheirKey_spec [of "km_theirKeyID k - 1" "macKeyHistory k"]
  by (auto simp: revealMACKeysForTheirPreviousKeyID_def)

lemma rotateOurKeys_ok:
  assumes "keys_ok S k"
  shows "\<exists>e r' k'. rotateOurKeys S i r k = Some (e, r', k') \<and> keys_ok S k'"
proof -
  obtain items where k: "revealMACKeysForOurPreviousKeyID k =
      Some (k\<lparr>macKeyHistory := items, km_oldMACKeys := km_oldMACKeys k @
        map mu_receivingKey (filter (\<lambda>u. mu_ourKeyID u = km_ourKeyID k - 1) (macKeyHistory k))\<rparr>)" (is "_ = Some ?k")
    using revealMACKeysForOurPreviousKeyID_spec by blast
  have "keys_ok S ?k" using assms by simp
  then show ?thesis
    using generateNewDHKeyPair_ok [of S ?k r] k assms by (cases "generateNewDHKeyPair S r ?k") (simp add: rotateOurKeys_def)
qed

lemma rotateTheirKey_ok:
  assumes "keys_ok S k"
  shows "\<exists>k'. rotateTheirKey i y k = Some k' \<and> keys_ok S k'"
  using assms revealMACKeysForTheirPreviousKeyID_spec [of k]
  by (auto simp: rotateTheirKey_def keys_ok_def)

lemma rotateKeys_ok:
  assumes "keys_ok S k"
  shows "\<exists>e r' k'. rotateKeys S m r k = Some (e, r', k') \<and> keys_ok S k'"
proof -
  obtain e r1 k1 where 1: "rotateOurKeys S (dm_recipientKeyID m) r k = Some (e, r1, k1)" "keys_ok S k1"
    using rotateOurKeys_ok [OF assms] by blast
  then obtain k2 where "rotateTheirKey (dm_senderKeyID m) (dm_y m) k1 = Some k2" "keys_ok S k2"
    using rotateTheirKey_ok by blast
  with 1 show ?thesis by (cases e) (auto simp: rotateKeys_def)
qed

lemma pickOurKeys_ok:
  assumes "keys_ok S k" "pickOurKeys i k = Inr (priv, pub)"
  shows "\<exists>x. priv = Some x \<and> 0 \<le> x \<and> pub = Some (modExp S (dh_g1 S) x)"
proof -
  have "pair_ok S \<lparr>kp_pub = pub, kp_priv = priv\<rparr>"
  proof (cases "i = km_ourKeyID k")
    case True
    with assms show ?thesis by (auto simp: pickOurKeys_def keys_ok_def pair_ok_def split: if_splits)
  next
    case False
    with assms(2) have prev: "i = km_ourKeyID k - 1" "i \<noteq> 0" "km_ourKeyID k \<noteq> 0"
        "priv = kp_priv (ourPreviousDHKeys k)" "pub = kp_pub (ourPreviousDHKeys k)"
      by (auto simp: pickOurKeys_def split: if_splits)
    then have "1 < km_ourKeyID k" using word_prev_nonzero by blast
    with prev assms(1) show ?thesis by (simp add: keys_ok_def pair_ok_def)
  qed
  then show ?thesis by (auto simp: pair_ok_def split: option.splits)
qed

lemma pickTheirKey_ok: "keys_ok S k \<Longrightarrow> pickTheirKey i k = Inr pub \<Longrightarrow> pub \<noteq> None"
  by (auto simp: pickTheirKey_def keys_ok_def simp del: not_None_eq split: if_splits)

lemma calculateDHSessionKeys_total:
  "\<exists>ret. calculateDHSessionKeys S (Some x) (Some gx) (Some gy) v = Some ret"
  by (simp add: calculateDHSessionKeys_def split_def Let_def)

lemma keys_calculateDHSessionKeys_ok:
  assumes "keys_ok S k"
  shows "\<exists>res k'. keys_calculateDHSessionKeys S i j v k = Some (res, k') \<and> keys_ok S k'"
proof (cases "pickOurKeys i k")
  case (Inl e)
  then show ?thesis using assms by (simp add: keys_calculateDHSessionKeys_def)
next
  case our: (Inr p)
  obtain priv pub where p: "p = (priv, pub)" by fastforce
  then obtain x gx where x: "priv = Some x" "pub = Some gx" using pickOurKeys_ok assms our by blast
  show ?thesis
  proof (cases "pickTheirKey j k")
    case (Inl e)
    then show ?thesis using assms our p by (simp add: keys_calculateDHSessionKeys_def)
  next
    case (Inr t)
    then obtain gy where t: "t = Some gy" using pickTheirKey_ok [OF assms] by blast
    obtain ret where "calculateDHSessionKeys S (Some x) (Some gx) (Some gy) v = Some ret"
      using calculateDHSessionKeys_total by blast
    then show ?thesis using assms our p x Inr t by (simp add: keys_calculateDHSessionKeys_def)
  qed
qed

section \<open>Derivation\<close>

lemma exp_comm:
  "0 \<le> a \<Longrightarrow> 0 \<le> b \<Longrightarrow> big_Exp (big_Exp g a p) b p = big_Exp (big_Exp g b p) a p"
  by (simp add: big_Exp_def power_mod mult.commute flip: power_mult)

lemma calculateDHSessionKeys_symmetric:
  assumes "0 \<le> a" "0 \<le> b" and ne: "modExp S (dh_g1 S) a \<noteq> modExp S (dh_g1 S) b"
    and A: "calculateDHSessionKeys S (Some a) (Some (modExp S (dh_g1 S) a)) (Some (modExp S (dh_g1 S) b)) v = Some ka"
    and B: "calculateDHSessionKeys S (Some b) (Some (modExp S (dh_g1 S) b)) (Some (modExp S (dh_g1 S) a)) v = Some kb"
  shows "sendingAESKey ka = receivingAESKey kb \<and> receivingAESKey ka = sendingAESKey kb
     \<and> sendingMACKey ka = receivingMACKey kb \<and> receivingMACKey ka = sendingMACKey kb
     \<and> extraKey ka = extraKey kb"
proof -
  let ?s = "big_Exp (modExp S (dh_g1 S) b) a (dh_p S)"
  have s: "big_Exp (modExp S (dh_g1 S) a) b (dh_p S) = ?s"
    unfolding modExp_def using assms(1,2) by (rule exp_comm)
  show ?thesis
  proof (cases "gt (modExp S (dh_g1 S) a) (modExp S (dh_g1 S) b)")
    case True
    then have "\<not> gt (modExp S (dh_g1 S) b) (modExp S (dh_g1 S) a)" by (simp add: gt_def)
    with True A B s show ?thesis by (auto simp: calculateDHSessionKeys_def Let_def)
  next
    case False
    then have "gt (modExp S (dh_g1 S) b) (modExp S (dh_g1 S) a)" using ne by (simp add: gt_def)
    with False A B s show ?thesis by (auto simp: calculateDHSessionKeys_def Let_def)
  qed
qed


end
