(* ===== verification/Keys.thy ===== *)
theory Keys
  imports Otr_Util "HOL-Library.Monad_Syntax"
begin

text \<open>
  The DSA keys of \<^verbatim>\<open>keys.go\<close>: parsing, serialisation, fingerprints, signatures. The fields of a
  Go key are nil until they are set, hence options. \<^verbatim>\<open>IsSame\<close> compares pointers, so a public key
  carries the address of its struct.
\<close>

section \<open>Data\<close>

record DSAPublicKey =
  pk_loc :: nat
  pk_P :: "int option"
  pk_Q :: "int option"
  pk_G :: "int option"
  pk_Y :: "int option"

text \<open>A private key embeds a \<^verbatim>\<open>DSAPublicKey\<close> and a \<^verbatim>\<open>dsa.PrivateKey\<close>, which has the public
  parameters a second time.\<close>

record DSAPrivateKey =
  sk_DSAPublicKey :: DSAPublicKey
  sk_P :: "int option"
  sk_Q :: "int option"
  sk_G :: "int option"
  sk_Y :: "int option"
  sk_X :: "int option"

definition dsaKeyTypeValue :: uint16 where
  "dsaKeyTypeValue = 0"

definition nil_DSAPublicKey :: "nat \<Rightarrow> DSAPublicKey" where
  "nil_DSAPublicKey loc = \<lparr>pk_loc = loc, pk_P = None, pk_Q = None, pk_G = None, pk_Y = None\<rparr>"

definition nil_DSAPrivateKey :: "nat \<Rightarrow> DSAPrivateKey" where
  "nil_DSAPrivateKey loc = \<lparr>sk_DSAPublicKey = nil_DSAPublicKey loc, sk_P = None, sk_Q = None,
     sk_G = None, sk_Y = None, sk_X = None\<rparr>"

section \<open>Operations\<close>

definition IsAvailableForVersion :: "DSAPublicKey \<Rightarrow> uint16 \<Rightarrow> bool" where
  "IsAvailableForVersion pub v \<longleftrightarrow> v = 2 \<or> v = 3"

definition IsSame :: "DSAPublicKey \<Rightarrow> DSAPublicKey option \<Rightarrow> bool" where
  "IsSame pub other = (case other of None \<Rightarrow> False | Some oth \<Rightarrow> pk_loc pub = pk_loc oth)"

text \<open>\<^verbatim>\<open>Parse\<close> fills the receiver field by field; a field whose extraction fails is set to nil.\<close>

definition DSAPublicKey_Parse :: "DSAPublicKey \<Rightarrow> bytes \<Rightarrow> bytes \<times> bool \<times> DSAPublicKey" where
  "DSAPublicKey_Parse pub inp =
     (case ExtractShort inp of
        None \<Rightarrow> (inp, False, pub)
      | Some (i0, typeTag) \<Rightarrow>
          if typeTag \<noteq> dsaKeyTypeValue then (inp, False, pub)
          else
     (case ExtractMPI i0 of
        None \<Rightarrow> (inp, False, pub\<lparr>pk_P := None\<rparr>)
      | Some (i1, p) \<Rightarrow>
     (case ExtractMPI i1 of
        None \<Rightarrow> (inp, False, pub\<lparr>pk_P := Some p, pk_Q := None\<rparr>)
      | Some (i2, q) \<Rightarrow>
     (case ExtractMPI i2 of
        None \<Rightarrow> (inp, False, pub\<lparr>pk_P := Some p, pk_Q := Some q, pk_G := None\<rparr>)
      | Some (i3, g) \<Rightarrow>
     (case ExtractMPI i3 of
        None \<Rightarrow> (inp, False, pub\<lparr>pk_P := Some p, pk_Q := Some q, pk_G := Some g, pk_Y := None\<rparr>)
      | Some (i4, y) \<Rightarrow>
          (i4, True, pub\<lparr>pk_P := Some p, pk_Q := Some q, pk_G := Some g, pk_Y := Some y\<rparr>))))))"

definition DSAPrivateKey_Parse :: "DSAPrivateKey \<Rightarrow> bytes \<Rightarrow> bytes \<times> bool \<times> DSAPrivateKey" where
  "DSAPrivateKey_Parse priv inp =
     (case DSAPublicKey_Parse (sk_DSAPublicKey priv) inp of
        (in', ok, pub) \<Rightarrow>
          if \<not> ok then ([], False, priv\<lparr>sk_DSAPublicKey := pub\<rparr>)
          else let priv1 = priv\<lparr>sk_DSAPublicKey := pub, sk_P := pk_P pub, sk_Q := pk_Q pub,
                              sk_G := pk_G pub, sk_Y := pk_Y pub\<rparr>
               in (case ExtractMPI in' of
                     None \<Rightarrow> (in', False, priv1\<lparr>sk_X := None\<rparr>)
                   | Some (index, x) \<Rightarrow> (index, True, priv1\<lparr>sk_X := Some x\<rparr>)))"

definition ParsePublicKey :: "nat \<Rightarrow> bytes \<Rightarrow> bytes \<times> bool \<times> DSAPublicKey option" where
  "ParsePublicKey loc inp =
     (case ExtractShort inp of
        None \<Rightarrow> (inp, False, None)
      | Some (_, typeTag) \<Rightarrow>
          if typeTag = dsaKeyTypeValue
          then (case DSAPublicKey_Parse (nil_DSAPublicKey loc) inp of
                  (index, ok, key) \<Rightarrow> (index, ok, Some key))
          else (inp, False, None))"

definition ParsePrivateKey :: "nat \<Rightarrow> bytes \<Rightarrow> bytes \<times> bool \<times> DSAPrivateKey option" where
  "ParsePrivateKey loc inp =
     (case ExtractShort inp of
        None \<Rightarrow> (inp, False, None)
      | Some (_, typeTag) \<Rightarrow>
          if typeTag = dsaKeyTypeValue
          then (case DSAPrivateKey_Parse (nil_DSAPrivateKey loc) inp of
                  (index, ok, key) \<Rightarrow> (index, ok, Some key))
          else (inp, False, None))"

text \<open>A key with a nil field serialises to nil, the empty slice.\<close>

definition DSAPublicKey_serialize :: "DSAPublicKey \<Rightarrow> bytes" where
  "DSAPublicKey_serialize pub =
     (case (pk_P pub, pk_Q pub, pk_G pub, pk_Y pub) of
        (Some p, Some q, Some g, Some y) \<Rightarrow>
          AppendMPI (AppendMPI (AppendMPI (AppendMPI [0, 0] p) q) g) y
      | _ \<Rightarrow> [])"

definition DSAPrivateKey_serialize :: "DSAPrivateKey \<Rightarrow> bytes option" where
  "DSAPrivateKey_serialize priv =
     (case sk_X priv of
        None \<Rightarrow> None
      | Some x \<Rightarrow> Some (AppendMPI (DSAPublicKey_serialize (sk_DSAPublicKey priv)) x))"

definition Fingerprint :: "suite \<Rightarrow> DSAPublicKey \<Rightarrow> bytes" where
  "Fingerprint S pub =
     (let b = DSAPublicKey_serialize pub in if b = [] then [] else sha1 S (drop 2 b))"

text \<open>The two halves of a signature are written right-aligned into the 40-byte buffer; a number
  that does not fit is a slice out of range.\<close>

definition sig_bytes :: "int \<Rightarrow> int \<Rightarrow> bytes option" where
  "sig_bytes r s =
     (let rb = big_Bytes r; sb = big_Bytes s in
      if length rb > 20 \<or> length sb > 40 then None
      else Some (take (40 - length sb) (replicate (20 - length rb) 0 @ rb @ replicate 20 0) @ sb))"

definition key_Sign :: "suite \<Rightarrow> DSAPrivateKey \<Rightarrow> bytes \<Rightarrow> bytes \<Rightarrow> ((go_error + bytes) \<times> bytes) option" where
  "key_Sign S priv randomness hashed =
     do { p \<leftarrow> sk_P priv; q \<leftarrow> sk_Q priv; g \<leftarrow> sk_G priv; x \<leftarrow> sk_X priv;
          case dsa_Sign S p q g x hashed randomness of
            (Inl e, r') \<Rightarrow> Some (Inl e, r')
          | (Inr (r, s), r') \<Rightarrow> do { out \<leftarrow> sig_bytes r s; Some (Inr out, r') } }"

definition key_Verify :: "suite \<Rightarrow> DSAPublicKey \<Rightarrow> bytes \<Rightarrow> bytes \<Rightarrow> (bytes \<times> bool) option" where
  "key_Verify S pub hashed sig =
     (if length sig < 40 then Some ([], False)
      else do { p \<leftarrow> pk_P pub; q \<leftarrow> pk_Q pub; g \<leftarrow> pk_G pub; y \<leftarrow> pk_Y pub;
                let r = big_SetBytes (take 20 sig); s = big_SetBytes (take 20 (drop 20 sig))
                in Some (drop 40 sig, dsa_Verify S p q g y hashed r s) })"

section \<open>Round trips\<close>

definition pub_ok :: "DSAPublicKey \<Rightarrow> bool" where
  "pub_ok pub \<longleftrightarrow>
     (case (pk_P pub, pk_Q pub, pk_G pub, pk_Y pub) of
        (Some p, Some q, Some g, Some y) \<Rightarrow> mpi_ok p \<and> mpi_ok q \<and> mpi_ok g \<and> mpi_ok y
      | _ \<Rightarrow> False)"

lemma DSAPublicKey_serialize_alt:
  "pub_ok pub \<Longrightarrow> DSAPublicKey_serialize pub =
     [0, 0] @ AppendMPI [] (the (pk_P pub)) @ AppendMPI [] (the (pk_Q pub)) @ AppendMPI [] (the (pk_G pub))
       @ AppendMPI [] (the (pk_Y pub))"
  unfolding DSAPublicKey_serialize_def pub_ok_def
  by (simp split: option.splits)
     (metis AppendMPI_split append.assoc append_Cons append_Nil)

lemma ExtractShort_tag: "ExtractShort (0 # 0 # r) = Some (r, dsaKeyTypeValue)"
  by (simp add: ExtractShort_def DeserializeShort_def dsaKeyTypeValue_def be_nat_def)

lemma ParsePublicKey_serialize [wire]:
  assumes "pub_ok pub"
  shows "ParsePublicKey loc (DSAPublicKey_serialize pub @ r) = (r, True, Some (pub\<lparr>pk_loc := loc\<rparr>))"
  using assms unfolding DSAPublicKey_serialize_alt [OF assms]
  by (cases pub)
     (auto simp: ParsePublicKey_def DSAPublicKey_Parse_def nil_DSAPublicKey_def ExtractShort_tag wire
      pub_ok_def split: option.splits)

lemma DSAPublicKey_serialize_nonempty: "pub_ok pub \<Longrightarrow> DSAPublicKey_serialize pub \<noteq> []"
  by (simp add: DSAPublicKey_serialize_alt)

lemma DSAPublicKey_serialize_loc [simp]:
  "DSAPublicKey_serialize (pub\<lparr>pk_loc := l\<rparr>) = DSAPublicKey_serialize pub"
  by (simp add: DSAPublicKey_serialize_def)

lemma DSAPublicKey_Parse_loc: "DSAPublicKey_Parse pub b = (i, ok, pub') \<Longrightarrow> pk_loc pub' = pk_loc pub"
  by (auto simp: DSAPublicKey_Parse_def split: option.splits if_splits)

lemma ParsePublicKey_loc: "ParsePublicKey loc b = (i, ok, Some pub) \<Longrightarrow> pk_loc pub = loc"
  by (auto simp: ParsePublicKey_def nil_DSAPublicKey_def split: option.splits if_splits prod.splits
      dest!: DSAPublicKey_Parse_loc)

text \<open>A successful parse leaves no field nil.\<close>

definition pub_full :: "DSAPublicKey \<Rightarrow> bool" where
  "pub_full pub \<longleftrightarrow> pk_P pub \<noteq> None \<and> pk_Q pub \<noteq> None \<and> pk_G pub \<noteq> None \<and> pk_Y pub \<noteq> None"

lemma ParsePublicKey_full: "ParsePublicKey loc b = (i, True, key) \<Longrightarrow> \<exists>pub. key = Some pub \<and> pub_full pub"
  by (auto simp: ParsePublicKey_def DSAPublicKey_Parse_def pub_full_def split: option.splits if_splits prod.splits)

lemma pub_ok_full: "pub_ok pub \<Longrightarrow> pub_full pub"
  by (auto simp: pub_ok_def pub_full_def split: option.splits)

lemma key_Verify_returns: "pub_full pub \<Longrightarrow> \<exists>rest ok. key_Verify S pub h s = Some (rest, ok)"
  by (auto simp: key_Verify_def pub_full_def Let_def)

section \<open>Signatures\<close>

lemma be_nat_replicate_0 [simp]: "be_nat (replicate n 0 @ b) = be_nat b"
  by (induction n) (simp_all add: be_nat_Cons)

lemma sig_bytes_split:
  assumes "0 \<le> r" "0 \<le> s" "length (big_Bytes r) \<le> 20" "length (big_Bytes s) \<le> 20"
  shows "\<exists>out. sig_bytes r s = Some out \<and> length out = 40
     \<and> big_SetBytes (take 20 out) = r \<and> big_SetBytes (take 20 (drop 20 out)) = s"
proof -
  let ?rb = "big_Bytes r" and ?sb = "big_Bytes s"
  let ?hi = "replicate (20 - length ?rb) (0 :: byte) @ ?rb" and ?lo = "replicate (20 - length ?sb) (0 :: byte) @ ?sb"
  have "take (40 - length ?sb) (?hi @ replicate 20 0) @ ?sb = ?hi @ ?lo"
    using assms(3,4) by simp
  then have "sig_bytes r s = Some (?hi @ ?lo)"
    using assms(3,4) by (simp add: sig_bytes_def Let_def)
  moreover have "length ?hi = 20" "length ?lo = 20" using assms(3,4) by simp_all
  moreover have "big_SetBytes ?hi = r" "big_SetBytes ?lo = s"
    using assms(1,2) big_SetBytes_Bytes by (simp_all add: big_SetBytes_def)
  ultimately show ?thesis by (simp del: append_assoc)
qed

end
