(* ===== verification/Fragmentation.thy ===== *)
theory Fragmentation
  imports Otr_Util "HOL-Library.Monad_Syntax"
begin

text \<open>
  \<^verbatim>\<open>fragmentation.go\<close> and the fragment prefixes of \<^verbatim>\<open>otrv2.go\<close> and \<^verbatim>\<open>otrv3.go\<close>: splitting an encoded
  message into fragments and the context that puts them together again. Indices and lengths
  are 16-bit words, as in the code; a slice out of range is the panic \<^term>\<open>None\<close>. The part of
  \<^verbatim>\<open>receiveFragment\<close> that checks instance tags is with the conversation; what is here is its
  parser and the switch that updates the context.
\<close>

section \<open>Prefixes\<close>

definition otrv2FragmentationPrefix :: bytes where
  "otrv2FragmentationPrefix = str ''?OTR,''"

definition otrv3FragmentationPrefix :: bytes where
  "otrv3FragmentationPrefix = str ''?OTR|''"

definition otrV2_isFragmented :: "bytes \<Rightarrow> bool" where
  [simp]: "otrV2_isFragmented d \<longleftrightarrow> HasPrefix d otrv2FragmentationPrefix"

fun isFragmented :: "otrVersion \<Rightarrow> bytes \<Rightarrow> bool" where
  "isFragmented OtrV2 d = otrV2_isFragmented d"
| "isFragmented OtrV3 d = (HasPrefix d otrv3FragmentationPrefix \<or> otrV2_isFragmented d)"

definition versionFromFragment :: "bytes \<Rightarrow> nat" where
  "versionFromFragment d =
     (if HasPrefix d otrv3FragmentationPrefix then 3
      else if HasPrefix d otrv2FragmentationPrefix then 2 else 0)"

definition otrV2_fragmentPrefix :: "nat \<Rightarrow> nat \<Rightarrow> bytes" where
  [simp]: "otrV2_fragmentPrefix n tot = otrv2FragmentationPrefix @ fmt_num 10 5 (n + 1) @ [44] @ fmt_num 10 5 tot @ [44]"

fun fragmentPrefix :: "otrVersion \<Rightarrow> nat \<Rightarrow> nat \<Rightarrow> uint32 \<Rightarrow> uint32 \<Rightarrow> bytes" where
  "fragmentPrefix OtrV2 n tot itags itagr = otrV2_fragmentPrefix n tot"
| "fragmentPrefix OtrV3 n tot itags itagr =
     otrv3FragmentationPrefix @ fmt_num 16 8 (unat itags) @ [124] @ fmt_num 16 8 (unat itagr) @ [44]
       @ fmt_num 10 5 (n + 1) @ [44] @ fmt_num 10 5 tot @ [44]"

section \<open>Splitting\<close>

definition frag_min :: "uint16 \<Rightarrow> uint16 \<Rightarrow> uint16" where
  "frag_min l r = (if l < r then l else r)"

definition fragmentStart :: "uint16 \<Rightarrow> uint16 \<Rightarrow> uint16" where
  "fragmentStart i fraglen = i * fraglen"

definition fragmentEnd :: "uint16 \<Rightarrow> uint16 \<Rightarrow> uint16 \<Rightarrow> uint16" where
  "fragmentEnd i fraglen l = frag_min ((i + 1) * fraglen) l"

definition fragmentData :: "bytes \<Rightarrow> nat \<Rightarrow> uint16 \<Rightarrow> uint16 \<Rightarrow> bytes option" where
  "fragmentData data i fraglen l =
     slice data (unat (fragmentStart (of_nat i) fraglen)) (unat (fragmentEnd (of_nat i) fraglen l))"

text \<open>The loop of \<^verbatim>\<open>fragment\<close>, from index \<open>i\<close> for \<open>n\<close> more fragments.\<close>

fun fragment_loop ::
    "(nat \<Rightarrow> bytes) \<Rightarrow> bytes \<Rightarrow> uint16 \<Rightarrow> uint16 \<Rightarrow> nat \<Rightarrow> nat \<Rightarrow> bytes list option" where
  "fragment_loop pre data fraglen l i 0 = Some []"
| "fragment_loop pre data fraglen l i (Suc n) =
     do { d \<leftarrow> fragmentData data i fraglen l;
          rest \<leftarrow> fragment_loop pre data fraglen l (Suc i) n;
          Some ((pre i @ d @ [44]) # rest) }"

definition realFraglen :: "otrVersion \<Rightarrow> uint32 \<Rightarrow> uint32 \<Rightarrow> uint16 \<Rightarrow> uint16" where
  "realFraglen v our their fraglen =
     (fraglen - of_nat (length (fragmentPrefix v 1 1 our their))) - 1"

definition fragment ::
    "otrVersion \<Rightarrow> uint32 \<Rightarrow> uint32 \<Rightarrow> bytes \<Rightarrow> uint16 \<Rightarrow> bytes list option" where
  "fragment v our their data fraglen =
     (let l = length data in
      if l \<le> unat fraglen \<or> fraglen = 0 then Some [data]
      else let rf = realFraglen v our their fraglen in
        if rf \<le> 0 then Some [data]
        else let numFragments = l div unat rf + 1 in
          fragment_loop (\<lambda>i. fragmentPrefix v i numFragments our their) data rf (of_nat l) 0 numFragments)"

section \<open>Reassembly\<close>

record fragmentationContext =
  frag :: bytes
  currentIndex :: uint16
  currentLen :: uint16

definition forgetFragment :: fragmentationContext where
  "forgetFragment = \<lparr>frag = [], currentIndex = 0, currentLen = 0\<rparr>"

definition fragmentsFinished :: "fragmentationContext \<Rightarrow> bool" where
  "fragmentsFinished fctx \<longleftrightarrow> currentIndex fctx > 0 \<and> currentIndex fctx = currentLen fctx"

definition parseFragment :: "bytes \<Rightarrow> (bytes \<times> uint16 \<times> uint16) option" where
  "parseFragment data =
     (case split_byte 44 data of
        [a, b, c, d] \<Rightarrow>
          (case (bytesToUint16 a, bytesToUint16 b) of
             (Some ix, Some l) \<Rightarrow> Some (c, ix, l)
           | _ \<Rightarrow> None)
      | _ \<Rightarrow> None)"

definition fragmentIsInvalid :: "uint16 \<Rightarrow> uint16 \<Rightarrow> bool" where
  "fragmentIsInvalid ix l \<longleftrightarrow> ix = 0 \<or> l = 0 \<or> ix > l"

definition fragmentIsFirstMessage :: "uint16 \<Rightarrow> uint16 \<Rightarrow> bool" where
  "fragmentIsFirstMessage ix l \<longleftrightarrow> ix = 1"

definition fragmentIsNextMessage :: "fragmentationContext \<Rightarrow> uint16 \<Rightarrow> uint16 \<Rightarrow> bool" where
  "fragmentIsNextMessage ctx ix l \<longleftrightarrow> currentIndex ctx + 1 = ix \<and> currentLen ctx = l"

definition discardFragment :: "fragmentationContext \<Rightarrow> fragmentationContext" where
  "discardFragment ctx = ctx"

definition appendFragment :: "fragmentationContext \<Rightarrow> bytes \<Rightarrow> uint16 \<Rightarrow> uint16 \<Rightarrow> fragmentationContext" where
  "appendFragment ctx data ix l = \<lparr>frag = frag ctx @ data, currentIndex = ix, currentLen = l\<rparr>"

definition restartFragment :: "bytes \<Rightarrow> uint16 \<Rightarrow> uint16 \<Rightarrow> fragmentationContext" where
  "restartFragment data ix l = \<lparr>frag = data, currentIndex = ix, currentLen = l\<rparr>"

text \<open>The switch at the end of \<^verbatim>\<open>receiveFragment\<close>.\<close>

definition fragment_step ::
    "bytes \<times> uint16 \<times> uint16 \<Rightarrow> fragmentationContext \<Rightarrow> fragmentationContext" where
  "fragment_step p beforeCtx =
     (case p of (resultData, ix, l) \<Rightarrow>
        if fragmentIsInvalid ix l then discardFragment beforeCtx
        else if fragmentIsFirstMessage ix l then restartFragment resultData ix l
        else if fragmentIsNextMessage beforeCtx ix l then appendFragment beforeCtx resultData ix l
        else forgetFragment)"

lemmas fragment_defs = fragmentIsInvalid_def fragmentIsFirstMessage_def fragmentIsNextMessage_def
  discardFragment_def appendFragment_def restartFragment_def

section \<open>Chunks\<close>

definition chunk :: "bytes \<Rightarrow> nat \<Rightarrow> nat \<Rightarrow> bytes" where
  "chunk data f i = take f (drop (i * f) data)"

lemma unat_of_nat16: "n < 65536 \<Longrightarrow> unat (of_nat n :: uint16) = n"
  by (simp add: unat_of_nat)

lemma unat_mult16:
  "unat (a :: uint16) * unat b < 65536 \<Longrightarrow> unat (a * b) = unat a * unat b"
  by (simp add: unat_word_ariths)

lemma fragmentData_chunk:
  assumes "length data + unat f < 65536" "i * unat f \<le> length data" "0 < unat f"
  shows "fragmentData data i f (of_nat (length data)) = Some (chunk data (unat f) i)"
proof -
  let ?l = "length data" and ?f = "unat f"
  have "i \<le> i * ?f" using assms(3) by simp
  with assms have i: "Suc i < 65536" by linarith
  then have ui: "unat (of_nat i :: uint16) = i" "unat (of_nat i + 1 :: uint16) = Suc i"
    using unat_of_nat16 [of i] unat_of_nat16 [of "Suc i"] by (simp_all add: add.commute)
  have start: "unat (fragmentStart (of_nat i) f) = i * ?f"
    using assms unat_mult16 [of "of_nat i" f] by (simp add: fragmentStart_def ui)
  have mul: "unat ((of_nat i + 1) * f) = Suc i * ?f"
    using assms unat_mult16 [of "of_nat i + 1" f] by (simp add: ui)
  have "unat (of_nat ?l :: uint16) = ?l" using assms by (intro unat_of_nat16) simp
  then have "unat (fragmentEnd (of_nat i) f (of_nat ?l)) = min (Suc i * ?f) ?l"
    using mul by (auto simp: fragmentEnd_def frag_min_def word_less_nat_alt)
  with start assms show ?thesis
    by (auto simp: fragmentData_def slice_def chunk_def min_def)
qed

lemma fragment_loop_chunks:
  assumes "length data + unat f < 65536" "0 < unat f"
  shows "\<forall>j < n. (i + j) * unat f \<le> length data \<Longrightarrow>
    fragment_loop pre data f (of_nat (length data)) i n
      = Some (map (\<lambda>j. pre j @ chunk data (unat f) j @ [44]) [i ..< i + n])"
proof (induction n arbitrary: i)
  case (Suc n)
  have "i * unat f \<le> length data" using Suc.prems by fastforce
  moreover have "\<forall>j < n. (Suc i + j) * unat f \<le> length data" using Suc.prems by auto
  ultimately show ?case
    using Suc.IH [of "Suc i"] fragmentData_chunk [OF assms(1) _ assms(2)]
    by (simp add: upt_conv_Cons del: upt_Suc)
qed simp

lemma fragment_chunks:
  fixes v our their fraglen data
  defines "rf \<equiv> unat (realFraglen v our their fraglen)"
  defines "n \<equiv> length data div rf + 1"
  assumes "unat fraglen < length data" "0 < rf" "length data + rf < 65536" "fraglen \<noteq> 0"
  shows "fragment v our their data fraglen =
     Some (map (\<lambda>i. fragmentPrefix v i n our their @ chunk data rf i @ [44]) [0 ..< n])"
proof -
  have bound: "(0 + j) * rf \<le> length data" if "j < n" for j
  proof -
    have "j \<le> length data div rf" using that by (simp add: n_def)
    then show ?thesis by (metis add_0 assms(4) div_times_less_eq_dividend le_trans mult_le_mono1)
  qed
  have "\<not> realFraglen v our their fraglen \<le> 0"
    using assms(4) by (auto simp: rf_def word_le_nat_alt)
  then show ?thesis
    using assms bound fragment_loop_chunks [of data "realFraglen v our their fraglen" n 0]
    by (simp add: fragment_def Let_def not_le)
qed

section \<open>Reassembly of the fragments of a message\<close>

lemma fmt_no_comma: "2 \<le> b \<Longrightarrow> b \<le> 16 \<Longrightarrow> 44 \<notin> set (fmt_num b w n)"
  using set_fmt_num [of b 44 w n] by auto

lemma bytesToUint16_fmt: "n < 2 ^ 63 \<Longrightarrow> bytesToUint16 (fmt_num 10 5 n) = Some (of_nat n)"
  by (simp add: bytesToUint16_def Atoi_def ParseInt_fmt)

lemma parseFragment_body:
  assumes "44 \<notin> set d" "i < 2 ^ 63" "n < 2 ^ 63"
  shows "parseFragment (fmt_num 10 5 i @ [44] @ fmt_num 10 5 n @ [44] @ d @ [44])
    = Some (d, of_nat i, of_nat n)"
proof -
  have "split_byte 44 (fmt_num 10 5 i @ [44] @ fmt_num 10 5 n @ [44] @ d @ [44])
      = [fmt_num 10 5 i, fmt_num 10 5 n, d, []]"
    using assms fmt_no_comma by (simp add: split_byte_first)
  then show ?thesis by (simp add: parseFragment_def bytesToUint16_fmt [OF assms(2)] bytesToUint16_fmt [OF assms(3)])
qed

text \<open>The body of fragment \<open>i\<close> of \<open>n\<close>: what is left after the version's prefix.\<close>

definition fragment_body :: "bytes \<Rightarrow> nat \<Rightarrow> nat \<Rightarrow> nat \<Rightarrow> bytes" where
  "fragment_body data f n i = fmt_num 10 5 (i + 1) @ [44] @ fmt_num 10 5 n @ [44] @ chunk data f i @ [44]"

lemma chunk_no_comma: "44 \<notin> set data \<Longrightarrow> 44 \<notin> set (chunk data f i)"
  by (auto simp: chunk_def dest: in_set_takeD in_set_dropD)

lemma parseFragment_fragment_body:
  assumes "44 \<notin> set data" "i < n" "n < 2 ^ 63"
  shows "parseFragment (fragment_body data f n i) = Some (chunk data f i, of_nat (Suc i), of_nat n)"
  using parseFragment_body [OF chunk_no_comma [OF assms(1)], of "i + 1" n f i] assms(2,3)
  by (simp add: fragment_body_def)

lemma reassemble_step:
  assumes "i < n" "n < 65536"
    and "ctx = \<lparr>frag = take (i * f) data, currentIndex = of_nat i, currentLen = (of_nat n :: uint16)\<rparr> \<or> i = 0"
  shows "fragment_step (chunk data f i, of_nat (Suc i), of_nat n) ctx
    = \<lparr>frag = take (Suc i * f) data, currentIndex = of_nat (Suc i), currentLen = of_nat n\<rparr>"
proof -
  have u: "unat (of_nat (Suc i) :: uint16) = Suc i" "unat (of_nat n :: uint16) = n"
    using assms(1,2) by (simp_all only: unat_of_nat16)
  have "\<not> fragmentIsInvalid (of_nat (Suc i)) (of_nat n)"
  proof -
    have "(of_nat (Suc i) :: uint16) \<noteq> 0" "(of_nat n :: uint16) \<noteq> 0"
      using u assms(1) by (metis nat.simps(3) unsigned_0, metis not_less_zero unsigned_0)
    moreover have "\<not> (of_nat n :: uint16) < of_nat (Suc i)"
      using u assms(1) by (simp only: word_less_nat_alt not_less Suc_le_eq)
    ultimately show ?thesis by (simp add: fragmentIsInvalid_def)
  qed
  moreover have "take (Suc i * f) data = take (i * f) data @ chunk data f i"
    by (simp only: chunk_def mult_Suc add.commute [of f] take_add)
  moreover have "of_nat (Suc i) = (1 :: uint16) \<longleftrightarrow> i = 0"
    using u(1) by (metis One_nat_def nat.inject unsigned_1 of_nat_1)
  ultimately show ?thesis
    using assms(3) by (auto simp: fragment_step_def fragment_defs add.commute)
qed

lemma reassemble:
  assumes "n < 65536" "k \<le> n" "0 < k"
  shows "fold fragment_step (map (\<lambda>i. (chunk data f i, of_nat (Suc i), of_nat n)) [0 ..< k]) ctx
    = \<lparr>frag = take (k * f) data, currentIndex = of_nat k, currentLen = of_nat n\<rparr>"
  using assms(2,3)
proof (induction k)
  case (Suc k)
  then show ?case
    using reassemble_step [of k n _ f data, OF _ assms(1)] by (cases "k = 0") (simp_all del: of_nat_Suc)
qed simp

lemma fragmentsFinished_all:
  "0 < n \<Longrightarrow> n < 65536 \<Longrightarrow>
   fragmentsFinished \<lparr>frag = d, currentIndex = of_nat n, currentLen = of_nat n\<rparr>"
  using unat_of_nat16 [of n] by (auto simp: fragmentsFinished_def word_less_nat_alt)

lemma chunks_cover: "0 < f \<Longrightarrow> take ((l div f + 1) * f) data = data" if "length data = l" for data :: bytes
proof -
  assume "0 < f"
  then have "l < (l div f + 1) * f" by (simp add: dividend_less_div_times)
  with that show ?thesis by simp
qed

section \<open>Sizes\<close>

lemma length_fragmentPrefix:
  "n < 65536 \<Longrightarrow> tot < 100000 \<Longrightarrow>
   length (fragmentPrefix v n tot our their) = (case v of OtrV2 \<Rightarrow> 17 | OtrV3 \<Rightarrow> 35)"
proof -
  assume *: "n < 65536" "tot < 100000"
  have "length (fmt_num 16 8 (unat (w :: uint32))) = 8" for w
    using unat_uint32_less [of w] by (intro length_fmt_num) simp_all
  with * show ?thesis
    by (cases v) (simp_all add: otrv2FragmentationPrefix_def otrv3FragmentationPrefix_def length_fmt_num)
qed

section \<open>Properties\<close>

lemma length_realFraglen:
  assumes "(case v of OtrV2 \<Rightarrow> 18 | OtrV3 \<Rightarrow> 36) < unat fraglen"
  shows "unat (realFraglen v our their fraglen) = unat fraglen - (case v of OtrV2 \<Rightarrow> 18 | OtrV3 \<Rightarrow> 36)"
proof -
  let ?h = "length (fragmentPrefix v 1 1 our their)"
  have h: "?h + 1 = (case v of OtrV2 \<Rightarrow> 18 | OtrV3 \<Rightarrow> 36)"
    using length_fragmentPrefix [of 1 1 v our their] by (cases v) simp_all
  have "realFraglen v our their fraglen = fraglen - (of_nat (?h + 1) :: uint16)"
    by (simp add: realFraglen_def algebra_simps)
  then have r: "realFraglen v our their fraglen = fraglen - of_nat (case v of OtrV2 \<Rightarrow> 18 | OtrV3 \<Rightarrow> 36)" unfolding h .
  show ?thesis
    unfolding r using assms by (cases v) (simp_all add: unat_sub word_le_nat_alt)
qed

lemma fragments_bounded:
  assumes "(case v of OtrV2 \<Rightarrow> 18 | OtrV3 \<Rightarrow> 36) < unat fraglen" "unat fraglen < length data"
    "length data + unat fraglen < 65536"
  shows "\<exists>fs. fragment v our their data fraglen = Some fs \<and> length fs < 65536
    \<and> list_all (\<lambda>f. length f \<le> unat fraglen) fs"
proof -
  let ?rf = "unat (realFraglen v our their fraglen)"
  let ?n = "length data div ?rf + 1"
  note rf = length_realFraglen [OF assms(1), of our their]
  have pos: "0 < ?rf" and sum: "length data + ?rf < 65536" and nz: "fraglen \<noteq> 0" using rf assms by auto
  have "length data div ?rf \<le> length data" by simp
  then have n: "?n < 65536" using assms(3) rf assms(1) by linarith
  have "length (fragmentPrefix v i ?n our their @ chunk data ?rf i @ [44]) \<le> unat fraglen" if "i < ?n" for i
  proof -
    have "length (fragmentPrefix v i ?n our their) = (case v of OtrV2 \<Rightarrow> 17 | OtrV3 \<Rightarrow> 35)"
      using that n by (intro length_fragmentPrefix) simp_all
    moreover have "length (chunk data ?rf i) \<le> ?rf" by (simp add: chunk_def)
    ultimately show ?thesis using rf assms(1) by (cases v) simp_all
  qed
  then show ?thesis
    using fragment_chunks [OF assms(2) pos sum nz] n by (simp add: list_all_iff)
qed







end
