(* ===== verification/Smp.thy ===== *)
theory Smp
  imports Messages "HOL-Library.Monad_Syntax"
begin

text \<open>
  The arithmetic of the socialist millionaires' protocol: \<^verbatim>\<open>smp.go\<close>, \<^verbatim>\<open>smp_msg1.go\<close> to
  \<^verbatim>\<open>smp_msg4.go\<close>, \<^verbatim>\<open>smp_msg_abort.go\<close>, and the conversion between SMP messages and TLVs of
  \<^verbatim>\<open>tlv.go\<close>. The methods of a conversation that only read its version and its random source
  take these as arguments. The state machine is in the theory \<open>Smp_State_Machine\<close>.
\<close>

section \<open>Data\<close>

record smp1Message =
  m1_g2a :: int
  m1_g3a :: int
  m1_c2 :: int
  m1_c3 :: int
  m1_d2 :: int
  m1_d3 :: int
  m1_hasQuestion :: bool
  m1_question :: bytes

record smp1State =
  s1_a2 :: int
  s1_a3 :: int
  s1_r2 :: int
  s1_r3 :: int
  s1_msg :: smp1Message

record smp2Message =
  m2_g2b :: int
  m2_g3b :: int
  m2_c2 :: int
  m2_c3 :: int
  m2_d2 :: int
  m2_d3 :: int
  m2_pb :: int
  m2_qb :: int
  m2_cp :: int
  m2_d5 :: int
  m2_d6 :: int

record smp2State =
  s2_y :: int
  s2_b2 :: int
  s2_b3 :: int
  s2_r2 :: int
  s2_r3 :: int
  s2_r4 :: int
  s2_r5 :: int
  s2_r6 :: int
  s2_g3a :: int
  s2_g2 :: int
  s2_g3 :: int
  s2_pb :: int
  s2_qb :: int
  s2_msg :: smp2Message

record smp3Message =
  m3_pa :: int
  m3_qa :: int
  m3_cp :: int
  m3_d5 :: int
  m3_d6 :: int
  m3_d7 :: int
  m3_ra :: int
  m3_cr :: int

record smp3State =
  s3_x :: int
  s3_g3b :: int
  s3_r4 :: int
  s3_r5 :: int
  s3_r6 :: int
  s3_r7 :: int
  s3_qaqb :: int
  s3_papb :: int
  s3_msg :: smp3Message

record smp4Message =
  m4_cr :: int
  m4_d7 :: int
  m4_rb :: int

record smp4State =
  s4_y :: int
  s4_r7 :: int
  s4_msg :: smp4Message

datatype smpMessage =
    Smp1 smp1Message | Smp2 smp2Message | Smp3 smp3Message | Smp4 smp4Message | SmpAbort

section \<open>smp.go\<close>

definition smpVersion :: byte where
  "smpVersion = 1"

definition generateSMPSecret :: "suite \<Rightarrow> bytes \<Rightarrow> bytes \<Rightarrow> bytes \<Rightarrow> bytes \<Rightarrow> otrVersion \<Rightarrow> int" where
  "generateSMPSecret S initiatorFingerprint recipientFingerprint ssid secret v =
     big_SetBytes (v_hash2 S v ([smpVersion] @ initiatorFingerprint @ recipientFingerprint @ ssid @ secret))"

definition generateDZKP :: "suite \<Rightarrow> int \<Rightarrow> int \<Rightarrow> int \<Rightarrow> int" where
  "generateDZKP S r a c = subMod r (mul a c) (dh_q S)"

definition generateZKP :: "suite \<Rightarrow> int \<Rightarrow> int \<Rightarrow> byte \<Rightarrow> otrVersion \<Rightarrow> int \<times> int" where
  "generateZKP S r a ix v =
     (let c = hashMPIsBN (v_hash2 S v) ix [modExp S (dh_g1 S) r]
      in (c, generateDZKP S r a c))"

definition verifyZKP :: "suite \<Rightarrow> int \<Rightarrow> int \<Rightarrow> int \<Rightarrow> byte \<Rightarrow> otrVersion \<Rightarrow> bool" where
  "verifyZKP S d gen c ix v =
     (let r = modExp S (dh_g1 S) d;
          s = modExp S gen c;
          t = hashMPIsBN (v_hash2 S v) ix [mulMod r s (dh_p S)]
      in eq c t)"

definition verifyZKP2 ::
    "suite \<Rightarrow> int \<Rightarrow> int \<Rightarrow> int \<Rightarrow> int \<Rightarrow> int \<Rightarrow> int \<Rightarrow> int \<Rightarrow> byte \<Rightarrow> otrVersion \<Rightarrow> bool" where
  "verifyZKP2 S g2 g3 d5 d6 pb qb cp ix v =
     (let l = mulMod (modExp S g3 d5) (modExp S pb cp) (dh_p S);
          r = mulMod (mul (modExp S (dh_g1 S) d5) (modExp S g2 d6)) (modExp S qb cp) (dh_p S);
          t = hashMPIsBN (v_hash2 S v) ix [l, r]
      in eq cp t)"

definition verifyZKP3 ::
    "suite \<Rightarrow> int \<Rightarrow> int \<Rightarrow> int \<Rightarrow> int \<Rightarrow> int \<Rightarrow> int \<Rightarrow> int \<Rightarrow> byte \<Rightarrow> otrVersion \<Rightarrow> bool" where
  "verifyZKP3 S cp g2 g3 d5 d6 pa qa ix v =
     (let l = mulMod (modExp S g3 d5) (modExp S pa cp) (dh_p S);
          r = mulMod (mul (modExp S (dh_g1 S) d5) (modExp S g2 d6)) (modExp S qa cp) (dh_p S);
          t = hashMPIsBN (v_hash2 S v) ix [l, r]
      in eq cp t)"

definition verifyZKP4 ::
    "suite \<Rightarrow> int \<Rightarrow> int \<Rightarrow> int \<Rightarrow> int \<Rightarrow> int \<Rightarrow> byte \<Rightarrow> otrVersion \<Rightarrow> bool" where
  "verifyZKP4 S cr g3a d7 qaqb ra ix v =
     (let l = mulMod (modExp S (dh_g1 S) d7) (modExp S g3a cr) (dh_p S);
          r = mulMod (modExp S qaqb d7) (modExp S ra cr) (dh_p S);
          t = hashMPIsBN (v_hash2 S v) ix [l, r]
      in eq cr t)"

definition genSMPTLV :: "uint16 \<Rightarrow> int list \<Rightarrow> tlv" where
  "genSMPTLV tp mpis =
     (let data = AppendMPIs (AppendWord [] (of_nat (length mpis))) mpis
      in \<lparr>tlvType = tp, tlvLength = of_nat (length data), tlvValue = data\<rparr>)"

text \<open>Each \<^verbatim>\<open>generateSMPnParameters\<close> reads its numbers one after the other, going on after a
  failed read, and returns the first error.\<close>

fun randMPIs :: "nat \<Rightarrow> nat \<Rightarrow> bytes \<Rightarrow> (go_error + int) list \<times> bytes" where
  "randMPIs 0 n r = ([], r)"
| "randMPIs (Suc k) n r =
     (case randMPI n r of (x, r1) \<Rightarrow> (case randMPIs k n r1 of (xs, r2) \<Rightarrow> (x # xs, r2)))"

fun all_values :: "(go_error + int) list \<Rightarrow> go_error + int list" where
  "all_values [] = Inr []"
| "all_values (Inl e # xs) = Inl e"
| "all_values (Inr x # xs) = (case all_values xs of Inl e \<Rightarrow> Inl e | Inr ys \<Rightarrow> Inr (x # ys))"

section \<open>smp_msg1.go\<close>

definition nil_smp1Message :: smp1Message where
  "nil_smp1Message = \<lparr>m1_g2a = 0, m1_g3a = 0, m1_c2 = 0, m1_c3 = 0, m1_d2 = 0, m1_d3 = 0,
     m1_hasQuestion = False, m1_question = []\<rparr>"

definition smp1_tlv :: "smp1Message \<Rightarrow> tlv" where
  "smp1_tlv m =
     (let t = genSMPTLV tlvTypeSMP1 [m1_g2a m, m1_c2 m, m1_d2 m, m1_g3a m, m1_c3 m, m1_d3 m]
      in if m1_hasQuestion m
         then let val = m1_question m @ [0] @ tlvValue t
              in t\<lparr>tlvType := tlvTypeSMP1WithQuestion, tlvValue := val, tlvLength := of_nat (length val)\<rparr>
         else t)"

definition generateSMP1Parameters :: "otrVersion \<Rightarrow> bytes \<Rightarrow> (go_error + smp1State) \<times> bytes" where
  "generateSMP1Parameters v r =
     (case randMPIs 4 (parameterLength v) r of
        (xs, r') \<Rightarrow>
          (case all_values xs of
             Inl e \<Rightarrow> (Inl e, r')
           | Inr ys \<Rightarrow> (Inr \<lparr>s1_a2 = ys ! 0, s1_a3 = ys ! 1, s1_r2 = ys ! 2, s1_r3 = ys ! 3,
                            s1_msg = nil_smp1Message\<rparr>, r')))"

definition generateSMP1Message :: "suite \<Rightarrow> smp1State \<Rightarrow> otrVersion \<Rightarrow> smp1Message" where
  "generateSMP1Message S s v =
     (let (c2, d2) = generateZKP S (s1_r2 s) (s1_a2 s) 1 v;
          (c3, d3) = generateZKP S (s1_r3 s) (s1_a3 s) 2 v
      in nil_smp1Message\<lparr>m1_g2a := modExp S (dh_g1 S) (s1_a2 s), m1_g3a := modExp S (dh_g1 S) (s1_a3 s),
           m1_c2 := c2, m1_d2 := d2, m1_c3 := c3, m1_d3 := d3\<rparr>)"

definition generateSMP1 :: "suite \<Rightarrow> otrVersion \<Rightarrow> bytes \<Rightarrow> (go_error + smp1State) \<times> bytes" where
  "generateSMP1 S v r =
     (case generateSMP1Parameters v r of
        (Inl e, r') \<Rightarrow> (Inl e, r')
      | (Inr s, r') \<Rightarrow> (Inr (s\<lparr>s1_msg := generateSMP1Message S s v\<rparr>), r'))"

definition verifySMP1 :: "suite \<Rightarrow> otrVersion \<Rightarrow> smp1Message \<Rightarrow> go_error option" where
  "verifySMP1 S v msg =
     (if \<not> v_isGroupElement S v (m1_g2a msg) then Some (newOtrError ''g2a is an invalid group element'')
      else if \<not> v_isGroupElement S v (m1_g3a msg) then Some (newOtrError ''g3a is an invalid group element'')
      else if \<not> verifyZKP S (m1_d2 msg) (m1_g2a msg) (m1_c2 msg) 1 v
        then Some (newOtrError ''c2 is not a valid zero knowledge proof'')
      else if \<not> verifyZKP S (m1_d3 msg) (m1_g3a msg) (m1_c3 msg) 2 v
        then Some (newOtrError ''c3 is not a valid zero knowledge proof'')
      else None)"

section \<open>smp_msg2.go\<close>

definition smp2_tlv :: "smp2Message \<Rightarrow> tlv" where
  "smp2_tlv m = genSMPTLV tlvTypeSMP2 [m2_g2b m, m2_c2 m, m2_d2 m, m2_g3b m, m2_c3 m, m2_d3 m,
     m2_pb m, m2_qb m, m2_cp m, m2_d5 m, m2_d6 m]"

definition nil_smp2Message :: smp2Message where
  "nil_smp2Message = \<lparr>m2_g2b = 0, m2_g3b = 0, m2_c2 = 0, m2_c3 = 0, m2_d2 = 0, m2_d3 = 0, m2_pb = 0,
     m2_qb = 0, m2_cp = 0, m2_d5 = 0, m2_d6 = 0\<rparr>"

definition generateSMP2Parameters :: "otrVersion \<Rightarrow> bytes \<Rightarrow> (go_error + smp2State) \<times> bytes" where
  "generateSMP2Parameters v r =
     (case randMPIs 7 (parameterLength v) r of
        (xs, r') \<Rightarrow>
          (case all_values xs of
             Inl e \<Rightarrow> (Inl e, r')
           | Inr ys \<Rightarrow> (Inr \<lparr>s2_y = 0, s2_b2 = ys ! 0, s2_b3 = ys ! 1, s2_r2 = ys ! 2, s2_r3 = ys ! 3,
                s2_r4 = ys ! 4, s2_r5 = ys ! 5, s2_r6 = ys ! 6, s2_g3a = 0, s2_g2 = 0, s2_g3 = 0,
                s2_pb = 0, s2_qb = 0, s2_msg = nil_smp2Message\<rparr>, r')))"

text \<open>\<^verbatim>\<open>generateSMP2Message\<close> also fills in the state it is given by reference.\<close>

definition generateSMP2Message ::
    "suite \<Rightarrow> smp2State \<Rightarrow> smp1Message \<Rightarrow> otrVersion \<Rightarrow> smp2State \<times> smp2Message" where
  "generateSMP2Message S s s1 v =
     (let g1 = dh_g1 S; p = dh_p S; q = dh_q S;
          (c2, d2) = generateZKP S (s2_r2 s) (s2_b2 s) 3 v;
          (c3, d3) = generateZKP S (s2_r3 s) (s2_b3 s) 4 v;
          g2 = modExp S (m1_g2a s1) (s2_b2 s);
          g3 = modExp S (m1_g3a s1) (s2_b3 s);
          pb = modExp S g3 (s2_r4 s);
          qb = mulMod (modExp S g1 (s2_r4 s)) (modExp S g2 (s2_y s)) p;
          cp = hashMPIsBN (v_hash2 S v) 5
                 [modExp S g3 (s2_r5 s), mulMod (modExp S g1 (s2_r5 s)) (modExp S g2 (s2_r6 s)) p];
          d5 = subMod (s2_r5 s) (mul (s2_r4 s) cp) q;
          d6 = subMod (s2_r6 s) (mul (s2_y s) cp) q
      in (s\<lparr>s2_g3a := m1_g3a s1, s2_g2 := g2, s2_g3 := g3, s2_pb := pb, s2_qb := qb\<rparr>,
          \<lparr>m2_g2b = modExp S g1 (s2_b2 s), m2_g3b = modExp S g1 (s2_b3 s), m2_c2 = c2, m2_c3 = c3,
           m2_d2 = d2, m2_d3 = d3, m2_pb = pb, m2_qb = qb, m2_cp = cp, m2_d5 = d5, m2_d6 = d6\<rparr>))"

definition generateSMP2 ::
    "suite \<Rightarrow> otrVersion \<Rightarrow> int \<Rightarrow> smp1Message \<Rightarrow> bytes \<Rightarrow> (go_error + smp2State) \<times> bytes" where
  "generateSMP2 S v secret s1 r =
     (case generateSMP2Parameters v r of
        (Inl e, r') \<Rightarrow> (Inl e, r')
      | (Inr s, r') \<Rightarrow>
          (case generateSMP2Message S (s\<lparr>s2_y := secret\<rparr>) s1 v of
             (s', m) \<Rightarrow> (Inr (s'\<lparr>s2_msg := m\<rparr>), r')))"

definition verifySMP2 :: "suite \<Rightarrow> otrVersion \<Rightarrow> smp1State \<Rightarrow> smp2Message \<Rightarrow> go_error option" where
  "verifySMP2 S v s1 msg =
     (if \<not> v_isGroupElement S v (m2_g2b msg) then Some (newOtrError ''g2b is an invalid group element'')
      else if \<not> v_isGroupElement S v (m2_g3b msg) then Some (newOtrError ''g3b is an invalid group element'')
      else if \<not> v_isGroupElement S v (m2_pb msg) then Some (newOtrError ''Pb is an invalid group element'')
      else if \<not> v_isGroupElement S v (m2_qb msg) then Some (newOtrError ''Qb is an invalid group element'')
      else if \<not> verifyZKP S (m2_d2 msg) (m2_g2b msg) (m2_c2 msg) 3 v
        then Some (newOtrError ''c2 is not a valid zero knowledge proof'')
      else if \<not> verifyZKP S (m2_d3 msg) (m2_g3b msg) (m2_c3 msg) 4 v
        then Some (newOtrError ''c3 is not a valid zero knowledge proof'')
      else let g2 = modExp S (m2_g2b msg) (s1_a2 s1); g3 = modExp S (m2_g3b msg) (s1_a3 s1) in
        if \<not> verifyZKP2 S g2 g3 (m2_d5 msg) (m2_d6 msg) (m2_pb msg) (m2_qb msg) (m2_cp msg) 5 v
        then Some (newOtrError ''cP is not a valid zero knowledge proof'')
        else None)"

section \<open>smp_msg3.go\<close>

definition smp3_tlv :: "smp3Message \<Rightarrow> tlv" where
  "smp3_tlv m = genSMPTLV tlvTypeSMP3 [m3_pa m, m3_qa m, m3_cp m, m3_d5 m, m3_d6 m, m3_ra m, m3_cr m, m3_d7 m]"

definition nil_smp3Message :: smp3Message where
  "nil_smp3Message = \<lparr>m3_pa = 0, m3_qa = 0, m3_cp = 0, m3_d5 = 0, m3_d6 = 0, m3_d7 = 0, m3_ra = 0,
     m3_cr = 0\<rparr>"

definition generateSMP3Parameters :: "otrVersion \<Rightarrow> bytes \<Rightarrow> (go_error + smp3State) \<times> bytes" where
  "generateSMP3Parameters v r =
     (case randMPIs 4 (parameterLength v) r of
        (xs, r') \<Rightarrow>
          (case all_values xs of
             Inl e \<Rightarrow> (Inl e, r')
           | Inr ys \<Rightarrow> (Inr \<lparr>s3_x = 0, s3_g3b = 0, s3_r4 = ys ! 0, s3_r5 = ys ! 1, s3_r6 = ys ! 2,
                s3_r7 = ys ! 3, s3_qaqb = 0, s3_papb = 0, s3_msg = nil_smp3Message\<rparr>, r')))"

text \<open>The two divisions panic when the peer's \<open>Qb\<close> or \<open>Pb\<close> has no inverse.\<close>

definition generateSMP3Message ::
    "suite \<Rightarrow> smp3State \<Rightarrow> smp1State \<Rightarrow> smp2Message \<Rightarrow> otrVersion \<Rightarrow> (smp3State \<times> smp3Message) option" where
  "generateSMP3Message S s s1 m2 v =
     (let g1 = dh_g1 S; p = dh_p S;
          g2 = modExp S (m2_g2b m2) (s1_a2 s1);
          g3 = modExp S (m2_g3b m2) (s1_a3 s1);
          pa = modExp S g3 (s3_r4 s);
          qa = mulMod (modExp S g1 (s3_r4 s)) (modExp S g2 (s3_x s)) p
      in do { qaqb \<leftarrow> divMod qa (m2_qb m2) p;
              papb \<leftarrow> divMod pa (m2_pb m2) p;
              let cp = hashMPIsBN (v_hash2 S v) 6
                    [modExp S g3 (s3_r5 s), mulMod (modExp S g1 (s3_r5 s)) (modExp S g2 (s3_r6 s)) p];
                  cr = hashMPIsBN (v_hash2 S v) 7 [modExp S g1 (s3_r7 s), modExp S qaqb (s3_r7 s)]
              in Some (s\<lparr>s3_g3b := m2_g3b m2, s3_qaqb := qaqb, s3_papb := papb\<rparr>,
                   \<lparr>m3_pa = pa, m3_qa = qa, m3_cp = cp, m3_d5 = generateDZKP S (s3_r5 s) (s3_r4 s) cp,
                    m3_d6 = generateDZKP S (s3_r6 s) (s3_x s) cp,
                    m3_d7 = subMod (s3_r7 s) (mul (s1_a3 s1) cr) (dh_q S),
                    m3_ra = modExp S qaqb (s1_a3 s1), m3_cr = cr\<rparr>) })"

definition generateSMP3 ::
    "suite \<Rightarrow> otrVersion \<Rightarrow> int \<Rightarrow> smp1State \<Rightarrow> smp2Message \<Rightarrow> bytes \<Rightarrow>
     ((go_error + smp3State) \<times> bytes) option" where
  "generateSMP3 S v secret s1 m2 r =
     (case generateSMP3Parameters v r of
        (Inl e, r') \<Rightarrow> Some (Inl e, r')
      | (Inr s, r') \<Rightarrow>
          do { (s', m) \<leftarrow> generateSMP3Message S (s\<lparr>s3_x := secret\<rparr>) s1 m2 v;
               Some (Inr (s'\<lparr>s3_msg := m\<rparr>), r') })"

definition verifySMP3 :: "suite \<Rightarrow> otrVersion \<Rightarrow> smp2State \<Rightarrow> smp3Message \<Rightarrow> go_error option option" where
  "verifySMP3 S v s2 msg =
     (if \<not> v_isGroupElement S v (m3_pa msg) then Some (Some (newOtrError ''Pa is an invalid group element''))
      else if \<not> v_isGroupElement S v (m3_qa msg) then Some (Some (newOtrError ''Qa is an invalid group element''))
      else if \<not> v_isGroupElement S v (m3_ra msg) then Some (Some (newOtrError ''Ra is an invalid group element''))
      else if \<not> verifyZKP3 S (m3_cp msg) (s2_g2 s2) (s2_g3 s2) (m3_d5 msg) (m3_d6 msg) (m3_pa msg) (m3_qa msg) 6 v
        then Some (Some (newOtrError ''cP is not a valid zero knowledge proof''))
      else do { qaqb \<leftarrow> divMod (m3_qa msg) (s2_qb s2) (dh_p S);
                if \<not> verifyZKP4 S (m3_cr msg) (s2_g3a s2) (m3_d7 msg) qaqb (m3_ra msg) 7 v
                then Some (Some (newOtrError ''cR is not a valid zero knowledge proof''))
                else Some None })"

definition verifySMP3ProtocolSuccess :: "suite \<Rightarrow> smp2State \<Rightarrow> smp3Message \<Rightarrow> go_error option option" where
  "verifySMP3ProtocolSuccess S s2 msg =
     do { papb \<leftarrow> divMod (m3_pa msg) (s2_pb s2) (dh_p S);
          let rab = modExp S (m3_ra msg) (s2_b3 s2)
          in if \<not> eq rab papb then Some (Some (newOtrError ''protocol failed: x != y'')) else Some None }"

section \<open>smp_msg4.go\<close>

definition smp4_tlv :: "smp4Message \<Rightarrow> tlv" where
  "smp4_tlv m = genSMPTLV tlvTypeSMP4 [m4_rb m, m4_cr m, m4_d7 m]"

definition generateSMP4Parameters :: "otrVersion \<Rightarrow> bytes \<Rightarrow> (go_error + int) \<times> bytes" where
  "generateSMP4Parameters v r = randMPI (parameterLength v) r"

definition generateSMP4Message ::
    "suite \<Rightarrow> int \<Rightarrow> smp2State \<Rightarrow> smp3Message \<Rightarrow> otrVersion \<Rightarrow> smp4Message option" where
  "generateSMP4Message S r7 s2 msg3 v =
     do { qaqb \<leftarrow> divMod (m3_qa msg3) (s2_qb s2) (dh_p S);
          let cr = hashMPIsBN (v_hash2 S v) 8 [modExp S (dh_g1 S) r7, modExp S qaqb r7]
          in Some \<lparr>m4_cr = cr, m4_d7 = subMod r7 (mul (s2_b3 s2) cr) (dh_q S),
                   m4_rb = modExp S qaqb (s2_b3 s2)\<rparr> }"

definition generateSMP4 ::
    "suite \<Rightarrow> otrVersion \<Rightarrow> int \<Rightarrow> smp2State \<Rightarrow> smp3Message \<Rightarrow> bytes \<Rightarrow>
     ((go_error + smp4State) \<times> bytes) option" where
  "generateSMP4 S v secret s2 msg3 r =
     (case generateSMP4Parameters v r of
        (Inl e, r') \<Rightarrow> Some (Inl e, r')
      | (Inr r7, r') \<Rightarrow>
          do { m \<leftarrow> generateSMP4Message S r7 s2 msg3 v;
               Some (Inr \<lparr>s4_y = secret, s4_r7 = r7, s4_msg = m\<rparr>, r') })"

definition verifySMP4 :: "suite \<Rightarrow> otrVersion \<Rightarrow> smp3State \<Rightarrow> smp4Message \<Rightarrow> go_error option" where
  "verifySMP4 S v s3 msg =
     (if \<not> v_isGroupElement S v (m4_rb msg) then Some (newOtrError ''Rb is an invalid group element'')
      else if \<not> verifyZKP4 S (m4_cr msg) (s3_g3b s3) (m4_d7 msg) (s3_qaqb s3) (m4_rb msg) 8 v
        then Some (newOtrError ''cR is not a valid zero knowledge proof'')
      else None)"

definition verifySMP4ProtocolSuccess ::
    "suite \<Rightarrow> smp1State \<Rightarrow> smp3State \<Rightarrow> smp4Message \<Rightarrow> go_error option" where
  "verifySMP4ProtocolSuccess S s1 s3 msg =
     (let rab = modExp S (m4_rb msg) (s1_a3 s1)
      in if \<not> eq rab (s3_papb s3) then Some (newOtrError ''protocol failed: x != y'') else None)"

section \<open>Messages and TLVs (tlv.go, smp_msg_abort.go)\<close>

definition smpMessageAbort_tlv :: tlv where
  "smpMessageAbort_tlv = genSMPTLV tlvTypeSMPAbort []"

fun smpMessage_tlv :: "smpMessage \<Rightarrow> tlv" where
  "smpMessage_tlv (Smp1 m) = smp1_tlv m"
| "smpMessage_tlv (Smp2 m) = smp2_tlv m"
| "smpMessage_tlv (Smp3 m) = smp3_tlv m"
| "smpMessage_tlv (Smp4 m) = smp4_tlv m"
| "smpMessage_tlv SmpAbort = smpMessageAbort_tlv"

definition isSMPMessage :: "tlv \<Rightarrow> bool" where
  "isSMPMessage t \<longleftrightarrow> tlvTypeSMP1 \<le> tlvType t \<and> tlvType t \<le> tlvTypeSMP1WithQuestion"

text \<open>The list of at least \<open>n\<close> integers in a TLV value.\<close>

definition tlv_mpis :: "nat \<Rightarrow> bytes \<Rightarrow> int list option" where
  "tlv_mpis n b =
     (case ExtractMPIs b of
        None \<Rightarrow> None
      | Some (_, mpis) \<Rightarrow> if length mpis < n then None else Some mpis)"

definition toSmpMessage1 :: "tlv \<Rightarrow> smp1Message option" where
  "toSmpMessage1 t =
     (case tlv_mpis 6 (tlvValue t) of
        None \<Rightarrow> None
      | Some ms \<Rightarrow> Some \<lparr>m1_g2a = ms ! 0, m1_g3a = ms ! 3, m1_c2 = ms ! 1, m1_c3 = ms ! 4,
          m1_d2 = ms ! 2, m1_d3 = ms ! 5, m1_hasQuestion = False, m1_question = []\<rparr>)"

definition toSmpMessage1Q :: "tlv \<Rightarrow> smp1Message option" where
  "toSmpMessage1Q t =
     (let nulPos = length (takeWhile (\<lambda>b. b \<noteq> 0) (tlvValue t)) in
      if nulPos = length (tlvValue t) then None
      else (case toSmpMessage1 (t\<lparr>tlvValue := drop (nulPos + 1) (tlvValue t)\<rparr>) of
              None \<Rightarrow> None
            | Some m \<Rightarrow> Some (m\<lparr>m1_hasQuestion := True, m1_question := take nulPos (tlvValue t)\<rparr>)))"

definition toSmpMessage2 :: "tlv \<Rightarrow> smp2Message option" where
  "toSmpMessage2 t =
     (case tlv_mpis 11 (tlvValue t) of
        None \<Rightarrow> None
      | Some ms \<Rightarrow> Some \<lparr>m2_g2b = ms ! 0, m2_g3b = ms ! 3, m2_c2 = ms ! 1, m2_c3 = ms ! 4,
          m2_d2 = ms ! 2, m2_d3 = ms ! 5, m2_pb = ms ! 6, m2_qb = ms ! 7, m2_cp = ms ! 8,
          m2_d5 = ms ! 9, m2_d6 = ms ! 10\<rparr>)"

definition toSmpMessage3 :: "tlv \<Rightarrow> smp3Message option" where
  "toSmpMessage3 t =
     (case tlv_mpis 8 (tlvValue t) of
        None \<Rightarrow> None
      | Some ms \<Rightarrow> Some \<lparr>m3_pa = ms ! 0, m3_qa = ms ! 1, m3_cp = ms ! 2, m3_d5 = ms ! 3,
          m3_d6 = ms ! 4, m3_d7 = ms ! 7, m3_ra = ms ! 5, m3_cr = ms ! 6\<rparr>)"

definition toSmpMessage4 :: "tlv \<Rightarrow> smp4Message option" where
  "toSmpMessage4 t =
     (case tlv_mpis 3 (tlvValue t) of
        None \<Rightarrow> None
      | Some ms \<Rightarrow> Some \<lparr>m4_cr = ms ! 1, m4_d7 = ms ! 2, m4_rb = ms ! 0\<rparr>)"

definition tlv_smpMessage :: "tlv \<Rightarrow> smpMessage option" where
  "tlv_smpMessage t =
     (if tlvType t = tlvTypeSMP1 then map_option Smp1 (toSmpMessage1 t)
      else if tlvType t = tlvTypeSMP1WithQuestion then map_option Smp1 (toSmpMessage1Q t)
      else if tlvType t = tlvTypeSMP2 then map_option Smp2 (toSmpMessage2 t)
      else if tlvType t = tlvTypeSMP3 then map_option Smp3 (toSmpMessage3 t)
      else if tlvType t = tlvTypeSMP4 then map_option Smp4 (toSmpMessage4 t)
      else if tlvType t = tlvTypeSMPAbort then Some SmpAbort
      else None)"

section \<open>Powers of the generator\<close>

text \<open>What the protocol needs of the group: the generator's order divides \<open>q\<close>. In Go's values
  (\<^verbatim>\<open>dh.go\<close>) \<open>p = 2 q + 1\<close> is a safe prime and \<open>g1 = 2\<close> generates the squares.\<close>

definition group_ok :: "suite \<Rightarrow> bool" where
  "group_ok S \<longleftrightarrow> 1 < dh_p S \<and> 0 < dh_q S \<and> dh_g1 S ^ nat (dh_q S) mod dh_p S = 1"

abbreviation gexp :: "suite \<Rightarrow> int \<Rightarrow> int" where
  "gexp S e \<equiv> modExp S (dh_g1 S) e"

lemma gexp_exp: "0 \<le> a \<Longrightarrow> 0 \<le> b \<Longrightarrow> modExp S (gexp S a) b = gexp S (a * b)"
  by (simp add: modExp_def big_Exp_def power_mod nat_mult_distrib power_mult)

lemma gexp_mul: "0 \<le> a \<Longrightarrow> 0 \<le> b \<Longrightarrow> mulMod (gexp S a) (gexp S b) (dh_p S) = gexp S (a + b)"
  by (simp add: modExp_def big_Exp_def bn_defs nat_add_distrib power_add mod_mult_eq)

lemma gexp_mul3:
  "0 \<le> a \<Longrightarrow> 0 \<le> b \<Longrightarrow> 0 \<le> c \<Longrightarrow>
   mulMod (mul (gexp S a) (gexp S b)) (gexp S c) (dh_p S) = gexp S (a + b + c)"
proof -
  assume *: "0 \<le> a" "0 \<le> b" "0 \<le> c"
  then have "gexp S (a + b + c) = (gexp S a * gexp S b mod dh_p S) * gexp S c mod dh_p S"
    by (simp flip: gexp_mul add: bn_defs)
  then show ?thesis by (simp add: bn_defs mod_mult_left_eq)
qed

lemma gexp_mod_q:
  assumes "group_ok S" "0 \<le> a"
  shows "gexp S (a mod dh_q S) = gexp S a"
proof -
  let ?q = "dh_q S" and ?g = "dh_g1 S" and ?p = "dh_p S"
  have q: "0 < ?q" "?g ^ nat ?q mod ?p = 1" using assms(1) by (simp_all add: group_ok_def)
  have "a = ?q * (a div ?q) + a mod ?q" by simp
  moreover have "0 \<le> a div ?q" using assms(2) q(1) by (simp add: pos_imp_zdiv_nonneg_iff)
  ultimately have "nat a = nat ?q * nat (a div ?q) + nat (a mod ?q)"
    using q(1) by (metis nat_add_distrib nat_mult_distrib order_less_imp_le pos_mod_sign zero_le_mult_iff)
  then have "?g ^ nat a = (?g ^ nat ?q) ^ nat (a div ?q) * ?g ^ nat (a mod ?q)"
    by (simp add: power_add power_mult)
  then have "?g ^ nat a mod ?p = ((?g ^ nat ?q mod ?p) ^ nat (a div ?q) mod ?p) * ?g ^ nat (a mod ?q) mod ?p"
    by (simp add: power_mod mod_mult_left_eq)
  then show ?thesis using q(2) by (simp add: modExp_def big_Exp_def mod_mult_left_eq)
qed

lemma gexp_cong:
  assumes "group_ok S" "0 \<le> a" "0 \<le> b" "a mod dh_q S = b mod dh_q S"
  shows "gexp S a = gexp S b"
  using assms gexp_mod_q by metis

lemma gexp_range: "group_ok S \<Longrightarrow> 0 \<le> gexp S a \<and> gexp S a < dh_p S"
  by (simp add: group_ok_def modExp_def big_Exp_def)

lemma gexp_0: "group_ok S \<Longrightarrow> gexp S 0 = 1"
  by (simp add: group_ok_def modExp_def big_Exp_def)

text \<open>Every power of the generator has an inverse, so factors cancel.\<close>

lemma gexp_inverse:
  assumes "group_ok S" "0 \<le> b"
  shows "gexp S b * gexp S ((- b) mod dh_q S) mod dh_p S = 1"
proof -
  have nn: "0 \<le> (- b) mod dh_q S" using assms(1) by (simp add: group_ok_def)
  have "gexp S b * gexp S ((- b) mod dh_q S) mod dh_p S = gexp S (b + (- b) mod dh_q S)"
    using gexp_mul [OF assms(2) nn, of S] by (simp add: bn_defs)
  also have "\<dots> = gexp S 0"
    using assms nn by (intro gexp_cong) (simp_all add: mod_add_right_eq)
  finally show ?thesis using assms(1) by (simp add: gexp_0)
qed

lemma gexp_cancel:
  assumes "group_ok S" "0 \<le> b" "0 \<le> x" "x < dh_p S" "0 \<le> y" "y < dh_p S"
    and "x * gexp S b mod dh_p S = y * gexp S b mod dh_p S"
  shows "x = y"
proof -
  let ?i = "gexp S ((- b) mod dh_q S)"
  have inv: "z * gexp S b * ?i mod dh_p S = z mod dh_p S" for z
    using gexp_inverse [OF assms(1,2)] by (metis mod_mult_right_eq mult.assoc mult.right_neutral)
  have "x * gexp S b * ?i mod dh_p S = y * gexp S b * ?i mod dh_p S"
    using assms(7) by (metis mod_mult_left_eq)
  then show ?thesis using assms(3-6) by (simp add: inv)
qed

lemma gexp_coprime: "group_ok S \<Longrightarrow> 0 \<le> b \<Longrightarrow> coprime (gexp S b) (dh_p S)"
proof -
  assume *: "group_ok S" "0 \<le> b"
  have "gexp S b * gexp S ((- b) mod dh_q S) mod dh_p S = 1" using * by (rule gexp_inverse)
  then show ?thesis
    by (metis coprime_1_left coprime_mod_left_iff coprime_mult_left_iff group_ok_def *(1) less_irrefl not_one_less_zero)
qed

lemma divMod_gexp:
  assumes "group_ok S" "0 \<le> a" "0 \<le> b"
  shows "divMod (gexp S a) (gexp S b) (dh_p S) = Some (gexp S ((a - b) mod dh_q S))"
proof -
  let ?p = "dh_p S" and ?e = "(a - b) mod dh_q S"
  have p: "0 < ?p" and e: "0 \<le> ?e" using assms(1) by (simp_all add: group_ok_def)
  obtain i where i: "big_ModInverse (gexp S b) ?p = Some i"
    using big_ModInverse_iff [OF p] gexp_coprime [OF assms(1,3)] by blast
  have unit: "gexp S b * i mod ?p = 1"
    using big_ModInverse_inverse(1) [OF p i] assms(1) by (simp add: group_ok_def)
  have "gexp S ?e * gexp S b mod ?p = gexp S (?e + b)"
    using gexp_mul [OF e assms(3), of S] by (simp add: bn_defs)
  also have "\<dots> = gexp S a"
    using assms e by (intro gexp_cong) (simp_all add: mod_add_left_eq)
  finally have quot: "gexp S ?e * gexp S b mod ?p = gexp S a" .
  have "gexp S a * i mod ?p = gexp S ?e * (gexp S b * i) mod ?p"
    unfolding quot [symmetric] by (simp add: mod_mult_left_eq mult.assoc)
  also have "\<dots> = gexp S ?e"
    using unit gexp_range [OF assms(1), of ?e] by (metis mod_mult_right_eq mod_pos_pos_trivial mult.right_neutral)
  finally show ?thesis
    by (simp add: divMod_def modInverse_def i bn_defs)
qed


section \<open>The zero-knowledge proofs are complete\<close>

text \<open>A response \<open>d = r - a c\<close> modulo \<open>q\<close> restores the commitment's exponent, also under a common
  factor \<open>k\<close> (the logarithm of the proof's base).\<close>

lemma response_exp:
  assumes "group_ok S" "0 \<le> k" "0 \<le> r" "0 \<le> a" "0 \<le> c"
  shows "gexp S (k * ((r - a * c) mod dh_q S) + k * a * c) = gexp S (k * r)"
proof (rule gexp_cong [OF assms(1)])
  have q: "0 < dh_q S" using assms(1) by (simp add: group_ok_def)
  then have "0 \<le> (r - a * c) mod dh_q S" by simp
  then show "0 \<le> k * ((r - a * c) mod dh_q S) + k * a * c" using assms by simp
  show "0 \<le> k * r" using assms by simp
  have "(k * ((r - a * c) mod dh_q S) + k * a * c) mod dh_q S = (k * (r - a * c) + k * a * c) mod dh_q S"
    by (metis mod_add_left_eq mod_mult_right_eq)
  then show "(k * ((r - a * c) mod dh_q S) + k * a * c) mod dh_q S = k * r mod dh_q S"
    by (simp add: algebra_simps)
qed

lemma response_nonneg: "group_ok S \<Longrightarrow> 0 \<le> (x :: int) mod dh_q S"
  by (simp add: group_ok_def)

lemma hashMPIsBN_nonneg [simp]: "0 \<le> hashMPIsBN h ix ms"
  by (simp add: hashMPIsBN_def big_SetBytes_def)

lemma verifyZKP_complete:
  assumes "group_ok S" "0 \<le> r" "0 \<le> a" "generateZKP S r a ix v = (c, d)"
  shows "verifyZKP S d (gexp S a) c ix v"
proof -
  have c: "c = hashMPIsBN (v_hash2 S v) ix [gexp S r]" and d: "d = (r - a * c) mod dh_q S"
    using assms(4) by (auto simp: generateZKP_def generateDZKP_def Let_def bn_defs)
  have "0 \<le> c" "0 \<le> d" using c d response_nonneg [OF assms(1)] by simp_all
  then have "mulMod (gexp S d) (modExp S (gexp S a) c) (dh_p S) = gexp S (d + a * c)"
    using assms(3) by (simp add: gexp_exp gexp_mul)
  also have "\<dots> = gexp S r"
    using response_exp [OF assms(1) _ assms(2,3) \<open>0 \<le> c\<close>, of 1] by (simp add: d)
  finally show ?thesis by (simp add: verifyZKP_def Let_def eq_def c)
qed

lemma verifyZKP_generate:
  "group_ok S \<Longrightarrow> 0 \<le> r \<Longrightarrow> 0 \<le> a \<Longrightarrow>
   verifyZKP S (snd (generateZKP S r a ix v)) (gexp S a) (fst (generateZKP S r a ix v)) ix v"
  by (rule verifyZKP_complete) simp_all

text \<open>Proofs over two bases: \<open>g3 = g^k3\<close>, \<open>g2 = g^k2\<close>; the value is \<open>P = g3^r4\<close>, \<open>Q = g^r4 g2^x\<close>.\<close>

lemma two_base_proof:
  fixes k2 k3 r4 r5 r6 x c :: int
  assumes "group_ok S" "0 \<le> k2" "0 \<le> k3" "0 \<le> r4" "0 \<le> r5" "0 \<le> r6" "0 \<le> x" "0 \<le> c"
  defines "d5 \<equiv> (r5 - r4 * c) mod dh_q S" and "d6 \<equiv> (r6 - x * c) mod dh_q S"
  shows "mulMod (modExp S (gexp S k3) d5) (modExp S (gexp S (k3 * r4)) c) (dh_p S) = gexp S (k3 * r5)"
    and "mulMod (mul (gexp S d5) (modExp S (gexp S k2) d6)) (modExp S (gexp S (r4 + k2 * x)) c) (dh_p S)
      = gexp S (r5 + k2 * r6)"
proof -
  have d: "0 \<le> d5" "0 \<le> d6" using response_nonneg [OF assms(1)] by (simp_all add: d5_def d6_def)
  show "mulMod (modExp S (gexp S k3) d5) (modExp S (gexp S (k3 * r4)) c) (dh_p S) = gexp S (k3 * r5)"
    using assms d response_exp [OF assms(1), of k3 r5 r4 c] by (simp add: gexp_exp gexp_mul d5_def)
  have "mulMod (mul (gexp S d5) (modExp S (gexp S k2) d6)) (modExp S (gexp S (r4 + k2 * x)) c) (dh_p S)
      = gexp S (d5 + k2 * d6 + (r4 + k2 * x) * c)"
    using assms d by (simp add: gexp_exp gexp_mul3)
  also have "\<dots> = gexp S ((d5 + r4 * c) + (k2 * d6 + k2 * x * c))" by (simp add: algebra_simps)
  also have "\<dots> = mulMod (gexp S (d5 + r4 * c)) (gexp S (k2 * d6 + k2 * x * c)) (dh_p S)"
    using assms d by (simp add: gexp_mul)
  also have "\<dots> = mulMod (gexp S r5) (gexp S (k2 * r6)) (dh_p S)"
    using response_exp [OF assms(1), of 1 r5 r4 c] response_exp [OF assms(1), of k2 r6 x c] assms
    by (simp add: d5_def d6_def)
  finally show "mulMod (mul (gexp S d5) (modExp S (gexp S k2) d6)) (modExp S (gexp S (r4 + k2 * x)) c) (dh_p S)
      = gexp S (r5 + k2 * r6)" using assms by (simp add: gexp_mul)
qed

text \<open>Proof that two values have the same logarithm \<open>a\<close> to the bases \<open>g\<close> and \<open>g^k\<close>.\<close>

lemma same_log_proof:
  fixes k a r c :: int
  assumes "group_ok S" "0 \<le> k" "0 \<le> a" "0 \<le> r" "0 \<le> c"
  defines "d \<equiv> (r - a * c) mod dh_q S"
  shows "mulMod (gexp S d) (modExp S (gexp S a) c) (dh_p S) = gexp S r"
    and "mulMod (modExp S (gexp S k) d) (modExp S (gexp S (k * a)) c) (dh_p S) = gexp S (k * r)"
proof -
  have d: "0 \<le> d" using response_nonneg [OF assms(1)] by (simp add: d_def)
  show "mulMod (gexp S d) (modExp S (gexp S a) c) (dh_p S) = gexp S r"
    using assms d response_exp [OF assms(1), of 1 r a c] by (simp add: gexp_exp gexp_mul d_def)
  show "mulMod (modExp S (gexp S k) d) (modExp S (gexp S (k * a)) c) (dh_p S) = gexp S (k * r)"
    using assms d response_exp [OF assms(1), of k r a c] by (simp add: gexp_exp gexp_mul d_def)
qed

section \<open>An honest run\<close>

text \<open>The initiator draws \<open>a2 a3 r2 r3\<close> and \<open>r4 r5 r6 r7\<close>, the responder \<open>b2\<close> to \<open>r6\<close> and \<open>r7\<close>; all
  are read from the random source as unsigned integers.\<close>

definition smp1State_ok :: "smp1State \<Rightarrow> bool" where
  "smp1State_ok s \<longleftrightarrow> 0 \<le> s1_a2 s \<and> 0 \<le> s1_a3 s \<and> 0 \<le> s1_r2 s \<and> 0 \<le> s1_r3 s"

definition smp2State_ok :: "smp2State \<Rightarrow> bool" where
  "smp2State_ok s \<longleftrightarrow> 0 \<le> s2_y s \<and> 0 \<le> s2_b2 s \<and> 0 \<le> s2_b3 s \<and> 0 \<le> s2_r2 s \<and> 0 \<le> s2_r3 s
     \<and> 0 \<le> s2_r4 s \<and> 0 \<le> s2_r5 s \<and> 0 \<le> s2_r6 s"

definition smp3State_ok :: "smp3State \<Rightarrow> bool" where
  "smp3State_ok s \<longleftrightarrow> 0 \<le> s3_x s \<and> 0 \<le> s3_r4 s \<and> 0 \<le> s3_r5 s \<and> 0 \<le> s3_r6 s \<and> 0 \<le> s3_r7 s"

lemma smp1_message:
  assumes "group_ok S" "smp1State_ok s1"
  shows "verifySMP1 S v (generateSMP1Message S s1 v) =
     (if \<not> v_isGroupElement S v (gexp S (s1_a2 s1)) then Some (newOtrError ''g2a is an invalid group element'')
      else if \<not> v_isGroupElement S v (gexp S (s1_a3 s1)) then Some (newOtrError ''g3a is an invalid group element'')
      else None)"
  using assms
  by (simp add: verifyZKP_generate verifySMP1_def generateSMP1Message_def split_def Let_def smp1State_ok_def)

lemma smp1_message_fields:
  "m1_g2a (generateSMP1Message S s1 v) = gexp S (s1_a2 s1)"
  "m1_g3a (generateSMP1Message S s1 v) = gexp S (s1_a3 s1)"
  by (simp_all add: generateSMP1Message_def split_def Let_def)

text \<open>The responder's values as powers of the generator.\<close>

definition smp2_computed :: "suite \<Rightarrow> smp1State \<Rightarrow> smp2State \<Rightarrow> smp2State \<Rightarrow> smp2Message \<Rightarrow> bool" where
  "smp2_computed S s1 s2 s2' m2 \<longleftrightarrow>
     s2_g2 s2' = gexp S (s1_a2 s1 * s2_b2 s2) \<and> s2_g3 s2' = gexp S (s1_a3 s1 * s2_b3 s2)
     \<and> s2_g3a s2' = gexp S (s1_a3 s1)
     \<and> s2_pb s2' = gexp S (s1_a3 s1 * s2_b3 s2 * s2_r4 s2)
     \<and> s2_qb s2' = gexp S (s2_r4 s2 + s1_a2 s1 * s2_b2 s2 * s2_y s2)
     \<and> s2_b3 s2' = s2_b3 s2 \<and> m2_g2b m2 = gexp S (s2_b2 s2) \<and> m2_g3b m2 = gexp S (s2_b3 s2)
     \<and> m2_pb m2 = s2_pb s2' \<and> m2_qb m2 = s2_qb s2'"

lemma smp2_computed:
  assumes "group_ok S" "smp1State_ok s1" "smp2State_ok s2"
    "m1_g2a m1 = gexp S (s1_a2 s1)" "m1_g3a m1 = gexp S (s1_a3 s1)"
    "generateSMP2Message S s2 m1 v = (s2', m2)"
  shows "smp2_computed S s1 s2 s2' m2"
  using assms
  by (auto simp: generateSMP2Message_def smp2_computed_def split_def Let_def smp1State_ok_def smp2State_ok_def
      gexp_exp gexp_mul)

lemma verifySMP2_honest:
  assumes "group_ok S" "smp1State_ok s1" "smp2State_ok s2"
    "m1_g2a m1 = gexp S (s1_a2 s1)" "m1_g3a m1 = gexp S (s1_a3 s1)"
    and gen: "generateSMP2Message S s2 m1 v = (s2', m2)"
    and grp: "list_all (v_isGroupElement S v) [m2_g2b m2, m2_g3b m2, m2_pb m2, m2_qb m2]"
  shows "verifySMP2 S v s1 m2 = None"
proof -
  note nn = assms(2) [unfolded smp1State_ok_def] assms(3) [unfolded smp2State_ok_def]
  let ?k2 = "s1_a2 s1 * s2_b2 s2" and ?k3 = "s1_a3 s1 * s2_b3 s2"
  note f = smp2_computed [OF assms(1-6), unfolded smp2_computed_def]
  have zkp: "verifyZKP S (m2_d2 m2) (m2_g2b m2) (m2_c2 m2) 3 v" "verifyZKP S (m2_d3 m2) (m2_g3b m2) (m2_c3 m2) 4 v"
    using gen nn by (auto simp: generateSMP2Message_def split_def Let_def verifyZKP_generate assms(1))
  have cp: "m2_cp m2 = hashMPIsBN (v_hash2 S v) 5 [gexp S (?k3 * s2_r5 s2), gexp S (s2_r5 s2 + ?k2 * s2_r6 s2)]"
    "m2_d5 m2 = (s2_r5 s2 - s2_r4 s2 * m2_cp m2) mod dh_q S"
    "m2_d6 m2 = (s2_r6 s2 - s2_y s2 * m2_cp m2) mod dh_q S"
    using gen nn assms(4,5)
    by (auto simp: generateSMP2Message_def split_def Let_def gexp_exp gexp_mul) (simp_all add: bn_defs)
  have g: "modExp S (m2_g2b m2) (s1_a2 s1) = gexp S ?k2" "modExp S (m2_g3b m2) (s1_a3 s1) = gexp S ?k3"
    using f nn by (simp_all add: gexp_exp mult.commute)
  have "verifyZKP2 S (gexp S ?k2) (gexp S ?k3) (m2_d5 m2) (m2_d6 m2) (m2_pb m2) (m2_qb m2) (m2_cp m2) 5 v"
  proof -
    have "0 \<le> ?k2" "0 \<le> ?k3" "0 \<le> m2_cp m2" using nn cp(1) by simp_all
    then show ?thesis
      using two_base_proof [OF assms(1), of ?k2 ?k3 "s2_r4 s2" "s2_r5 s2" "s2_r6 s2" "s2_y s2" "m2_cp m2"] nn f
      by (simp add: verifyZKP2_def Let_def eq_def cp(2,3)) (use cp(1) in simp)
  qed
  with zkp grp g show ?thesis by (simp add: verifySMP2_def Let_def)
qed

text \<open>The initiator's second message. \<open>ea\<close> and \<open>eb\<close> are the logarithms of \<open>Qa\<close> and \<open>Qb\<close>.\<close>

definition smp3_computed ::
    "suite \<Rightarrow> smp1State \<Rightarrow> smp2State \<Rightarrow> smp3State \<Rightarrow> smp3State \<Rightarrow> smp3Message \<Rightarrow> bool" where
  "smp3_computed S s1 s2 s3 s3' m3 \<longleftrightarrow>
     (let k2 = s1_a2 s1 * s2_b2 s2; k3 = s1_a3 s1 * s2_b3 s2;
          ea = s3_r4 s3 + k2 * s3_x s3; eb = s2_r4 s2 + k2 * s2_y s2;
          e = (ea - eb) mod dh_q S
      in m3_pa m3 = gexp S (k3 * s3_r4 s3) \<and> m3_qa m3 = gexp S ea
       \<and> s3_qaqb s3' = gexp S e \<and> s3_papb s3' = gexp S ((k3 * s3_r4 s3 - k3 * s2_r4 s2) mod dh_q S)
       \<and> s3_g3b s3' = gexp S (s2_b3 s2) \<and> m3_ra m3 = gexp S (e * s1_a3 s1))"

lemma smp3_computed:
  assumes "group_ok S" "smp1State_ok s1" "smp2State_ok s2" "smp3State_ok s3"
    and f: "smp2_computed S s1 s2 s2' m2"
  shows "\<exists>s3' m3. generateSMP3Message S s3 s1 m2 v = Some (s3', m3) \<and> smp3_computed S s1 s2 s3 s3' m3
    \<and> m3_cp m3 = hashMPIsBN (v_hash2 S v) 6 [gexp S (s1_a3 s1 * s2_b3 s2 * s3_r5 s3),
        gexp S (s3_r5 s3 + s1_a2 s1 * s2_b2 s2 * s3_r6 s3)]
    \<and> m3_d5 m3 = (s3_r5 s3 - s3_r4 s3 * m3_cp m3) mod dh_q S
    \<and> m3_d6 m3 = (s3_r6 s3 - s3_x s3 * m3_cp m3) mod dh_q S
    \<and> m3_cr m3 = hashMPIsBN (v_hash2 S v) 7 [gexp S (s3_r7 s3), modExp S (s3_qaqb s3') (s3_r7 s3)]
    \<and> m3_d7 m3 = (s3_r7 s3 - s1_a3 s1 * m3_cr m3) mod dh_q S"
proof -
  note nn = assms(2) [unfolded smp1State_ok_def] assms(3) [unfolded smp2State_ok_def]
    assms(4) [unfolded smp3State_ok_def]
  let ?k2 = "s1_a2 s1 * s2_b2 s2" and ?k3 = "s1_a3 s1 * s2_b3 s2"
  have k: "0 \<le> ?k2" "0 \<le> ?k3" using nn by simp_all
  have g: "modExp S (m2_g2b m2) (s1_a2 s1) = gexp S ?k2" "modExp S (m2_g3b m2) (s1_a3 s1) = gexp S ?k3"
    using f nn by (simp_all add: smp2_computed_def gexp_exp mult.commute)
  have q: "divMod (gexp S (s3_r4 s3 + ?k2 * s3_x s3)) (m2_qb m2) (dh_p S)
      = Some (gexp S ((s3_r4 s3 + ?k2 * s3_x s3 - (s2_r4 s2 + ?k2 * s2_y s2)) mod dh_q S))"
    using f nn k divMod_gexp [OF assms(1)] by (simp add: smp2_computed_def)
  have p: "divMod (gexp S (?k3 * s3_r4 s3)) (m2_pb m2) (dh_p S)
      = Some (gexp S ((?k3 * s3_r4 s3 - ?k3 * s2_r4 s2) mod dh_q S))"
    using f nn k divMod_gexp [OF assms(1)] by (simp add: smp2_computed_def)
  have e: "0 \<le> x mod dh_q S" for x using response_nonneg [OF assms(1)] .
  have g3b: "m2_g3b m2 = gexp S (s2_b3 s2)" using f by (simp add: smp2_computed_def)
  show ?thesis
    using nn k
    by (simp add: generateSMP3Message_def Let_def g gexp_exp gexp_mul q p smp3_computed_def e generateDZKP_def)
       (simp add: bn_defs g3b)
qed

lemma verifySMP3_honest:
  assumes "group_ok S" "smp1State_ok s1" "smp2State_ok s2" "smp3State_ok s3"
    and f: "smp2_computed S s1 s2 s2' m2" and gen: "generateSMP3Message S s3 s1 m2 v = Some (s3', m3)"
    and grp: "list_all (v_isGroupElement S v) [m3_pa m3, m3_qa m3, m3_ra m3]"
  shows "verifySMP3 S v s2' m3 = Some None"
proof -
  note nn = assms(2) [unfolded smp1State_ok_def] assms(3) [unfolded smp2State_ok_def]
    assms(4) [unfolded smp3State_ok_def]
  let ?k2 = "s1_a2 s1 * s2_b2 s2" and ?k3 = "s1_a3 s1 * s2_b3 s2"
  let ?ea = "s3_r4 s3 + ?k2 * s3_x s3" and ?eb = "s2_r4 s2 + ?k2 * s2_y s2"
  let ?e = "(?ea - ?eb) mod dh_q S"
  from smp3_computed [OF assms(1-5), of v] gen
  have c: "smp3_computed S s1 s2 s3 s3' m3"
    and cp: "m3_cp m3 = hashMPIsBN (v_hash2 S v) 6 [gexp S (?k3 * s3_r5 s3), gexp S (s3_r5 s3 + ?k2 * s3_r6 s3)]"
    and d5: "m3_d5 m3 = (s3_r5 s3 - s3_r4 s3 * m3_cp m3) mod dh_q S"
    and d6: "m3_d6 m3 = (s3_r6 s3 - s3_x s3 * m3_cp m3) mod dh_q S"
    and cr: "m3_cr m3 = hashMPIsBN (v_hash2 S v) 7 [gexp S (s3_r7 s3), modExp S (s3_qaqb s3') (s3_r7 s3)]"
    and d7: "m3_d7 m3 = (s3_r7 s3 - s1_a3 s1 * m3_cr m3) mod dh_q S"
    by auto
  note c' = c [unfolded smp3_computed_def Let_def] and f' = f [unfolded smp2_computed_def]
  have k: "0 \<le> ?k2" "0 \<le> ?k3" "0 \<le> m3_cp m3" "0 \<le> m3_cr m3" "0 \<le> ?e"
    using nn cp cr response_nonneg [OF assms(1)] by simp_all
  have zkp3: "verifyZKP3 S (m3_cp m3) (s2_g2 s2') (s2_g3 s2') (m3_d5 m3) (m3_d6 m3) (m3_pa m3) (m3_qa m3) 6 v"
    using two_base_proof [OF assms(1), of ?k2 ?k3 "s3_r4 s3" "s3_r5 s3" "s3_r6 s3" "s3_x s3" "m3_cp m3"] nn c' f' k
    by (simp add: verifyZKP3_def Let_def eq_def d5 d6) (use cp in simp)
  have qaqb: "divMod (m3_qa m3) (s2_qb s2') (dh_p S) = Some (gexp S ?e)"
    using c' f' divMod_gexp [OF assms(1), of ?ea ?eb] nn k by simp
  have zkp4: "verifyZKP4 S (m3_cr m3) (s2_g3a s2') (m3_d7 m3) (gexp S ?e) (m3_ra m3) 7 v"
    using same_log_proof [OF assms(1) k(5), of "s1_a3 s1" "s3_r7 s3" "m3_cr m3"] nn c' f' k
    by (simp add: verifyZKP4_def Let_def eq_def d7) (use cr c' nn k in \<open>simp add: gexp_exp\<close>)
  show ?thesis using grp zkp3 qaqb zkp4 by (simp add: verifySMP3_def)
qed

text \<open>Both sides' final comparison: the exponents differ by \<open>a2 b2 a3 b3 (x - y)\<close>.\<close>

lemma rab_papb:
  fixes k2 k3 ra rb x y :: int
  assumes "group_ok S" "0 \<le> k2" "0 \<le> k3" "0 \<le> ra" "0 \<le> rb" "0 \<le> x" "0 \<le> y"
  defines "e \<equiv> (ra + k2 * x - (rb + k2 * y)) mod dh_q S"
  shows "gexp S (e * k3) = gexp S ((k3 * ra - k3 * rb) mod dh_q S)
    \<longleftrightarrow> gexp S (k2 * k3 * x) = gexp S (k2 * k3 * y)"
proof -
  let ?u = "(k3 * ra - k3 * rb) mod dh_q S" and ?w = "k2 * k3"
  have nn: "0 \<le> e" "0 \<le> ?u" "0 \<le> ?w" using assms response_nonneg [OF assms(1)] by (simp_all add: e_def)
  have "gexp S (e * k3 + ?w * y) = gexp S (?u + ?w * x)"
  proof (rule gexp_cong [OF assms(1)])
    show "0 \<le> e * k3 + ?w * y" "0 \<le> ?u + ?w * x" using nn assms by simp_all
    have "(e * k3 + ?w * y) mod dh_q S = ((ra + k2 * x - (rb + k2 * y)) * k3 + ?w * y) mod dh_q S"
      unfolding e_def by (metis mod_add_left_eq mod_mult_left_eq)
    moreover have "(?u + ?w * x) mod dh_q S = (k3 * ra - k3 * rb + ?w * x) mod dh_q S"
      by (simp add: mod_add_left_eq)
    ultimately show "(e * k3 + ?w * y) mod dh_q S = (?u + ?w * x) mod dh_q S"
      by (simp add: algebra_simps)
  qed
  then have eq: "gexp S (e * k3) * gexp S (?w * y) mod dh_p S = gexp S ?u * gexp S (?w * x) mod dh_p S"
    using gexp_mul [of "e * k3" "?w * y" S] gexp_mul [of ?u "?w * x" S] nn assms by (simp add: bn_defs)
  note range = gexp_range [OF assms(1)]
  show ?thesis
  proof
    assume "gexp S (e * k3) = gexp S ?u"
    with eq have "gexp S (?w * x) * gexp S ?u mod dh_p S = gexp S (?w * y) * gexp S ?u mod dh_p S"
      by (simp add: mult.commute)
    then show "gexp S (?w * x) = gexp S (?w * y)"
      using gexp_cancel [OF assms(1) nn(2)] range by blast
  next
    assume "gexp S (?w * x) = gexp S (?w * y)"
    with eq have "gexp S (e * k3) * gexp S (?w * y) mod dh_p S = gexp S ?u * gexp S (?w * y) mod dh_p S"
      by simp
    moreover have "0 \<le> ?w * y" using nn assms by simp
    ultimately show "gexp S (e * k3) = gexp S ?u"
      using gexp_cancel [OF assms(1)] range by blast
  qed
qed

lemma smp_secrets_match:
  assumes "group_ok S" "smp1State_ok s1" "smp2State_ok s2" "smp3State_ok s3"
    and f: "smp2_computed S s1 s2 s2' m2" and c: "smp3_computed S s1 s2 s3 s3' m3"
  defines "w \<equiv> s1_a2 s1 * s2_b2 s2 * (s1_a3 s1 * s2_b3 s2)"
  shows "verifySMP3ProtocolSuccess S s2' m3 =
     Some (if gexp S (w * s3_x s3) = gexp S (w * s2_y s2) then None
           else Some (newOtrError ''protocol failed: x != y''))"
proof -
  note nn = assms(2) [unfolded smp1State_ok_def] assms(3) [unfolded smp2State_ok_def]
    assms(4) [unfolded smp3State_ok_def]
  let ?k2 = "s1_a2 s1 * s2_b2 s2" and ?k3 = "s1_a3 s1 * s2_b3 s2"
  let ?e = "(s3_r4 s3 + ?k2 * s3_x s3 - (s2_r4 s2 + ?k2 * s2_y s2)) mod dh_q S"
  let ?u = "(?k3 * s3_r4 s3 - ?k3 * s2_r4 s2) mod dh_q S"
  have k: "0 \<le> ?k2" "0 \<le> ?k3" "0 \<le> ?e" using nn response_nonneg [OF assms(1)] by simp_all
  have papb: "divMod (m3_pa m3) (s2_pb s2') (dh_p S) = Some (gexp S ?u)"
    using c f divMod_gexp [OF assms(1), of "?k3 * s3_r4 s3" "?k3 * s2_r4 s2"] nn k
    by (simp add: smp2_computed_def smp3_computed_def Let_def)
  have rab: "modExp S (m3_ra m3) (s2_b3 s2') = gexp S (?e * ?k3)"
    using c f nn k by (simp add: smp2_computed_def smp3_computed_def Let_def gexp_exp mult.assoc)
  show ?thesis
    using rab_papb [OF assms(1) k(1,2), of "s3_r4 s3" "s2_r4 s2" "s3_x s3" "s2_y s2"] nn
    by (simp add: verifySMP3ProtocolSuccess_def papb rab eq_def w_def)
qed

lemma smp4_honest:
  assumes "group_ok S" "smp1State_ok s1" "smp2State_ok s2" "smp3State_ok s3" "0 \<le> r7"
    and f: "smp2_computed S s1 s2 s2' m2" and c: "smp3_computed S s1 s2 s3 s3' m3"
  defines "w \<equiv> s1_a2 s1 * s2_b2 s2 * (s1_a3 s1 * s2_b3 s2)"
  shows "\<exists>m4. generateSMP4Message S r7 s2' m3 v = Some m4
     \<and> verifySMP4 S v s3' m4 = (if \<not> v_isGroupElement S v (m4_rb m4)
         then Some (newOtrError ''Rb is an invalid group element'') else None)
     \<and> m4_rb m4 = gexp S ((s3_r4 s3 + s1_a2 s1 * s2_b2 s2 * s3_x s3 - (s2_r4 s2 + s1_a2 s1 * s2_b2 s2 * s2_y s2)) mod dh_q S * s2_b3 s2)
     \<and> verifySMP4ProtocolSuccess S s1 s3' m4 =
         (if gexp S (w * s3_x s3) = gexp S (w * s2_y s2) then None
          else Some (newOtrError ''protocol failed: x != y''))"
proof -
  note nn = assms(2) [unfolded smp1State_ok_def] assms(3) [unfolded smp2State_ok_def]
    assms(4) [unfolded smp3State_ok_def]
  note c' = c [unfolded smp3_computed_def Let_def] and f' = f [unfolded smp2_computed_def]
  let ?k2 = "s1_a2 s1 * s2_b2 s2" and ?k3 = "s1_a3 s1 * s2_b3 s2"
  let ?ea = "s3_r4 s3 + ?k2 * s3_x s3" and ?eb = "s2_r4 s2 + ?k2 * s2_y s2"
  let ?e = "(?ea - ?eb) mod dh_q S"
  have k: "0 \<le> ?k2" "0 \<le> ?k3" "0 \<le> ?e" using nn response_nonneg [OF assms(1)] by simp_all
  have qaqb: "divMod (m3_qa m3) (s2_qb s2') (dh_p S) = Some (gexp S ?e)"
    using c' f' divMod_gexp [OF assms(1), of ?ea ?eb] nn k by simp
  have b3: "s2_b3 s2' = s2_b3 s2" using f' by simp
  define cr where "cr = hashMPIsBN (v_hash2 S v) 8 [gexp S r7, gexp S (?e * r7)]"
  have gen: "generateSMP4Message S r7 s2' m3 v =
      Some \<lparr>m4_cr = cr, m4_d7 = (r7 - s2_b3 s2 * cr) mod dh_q S, m4_rb = gexp S (?e * s2_b3 s2)\<rparr>"
    using nn k b3 by (simp add: generateSMP4Message_def qaqb Let_def gexp_exp assms(5) cr_def) (simp add: bn_defs)
  have "verifyZKP4 S cr (s3_g3b s3') ((r7 - s2_b3 s2 * cr) mod dh_q S) (s3_qaqb s3') (gexp S (?e * s2_b3 s2)) 8 v"
    using same_log_proof [OF assms(1) k(3), of "s2_b3 s2" r7 cr] nn c' assms(5)
    by (simp add: verifyZKP4_def Let_def eq_def cr_def)
  moreover have "modExp S (gexp S (?e * s2_b3 s2)) (s1_a3 s1) = gexp S (?e * ?k3)"
    using nn k by (simp add: gexp_exp ac_simps)
  ultimately show ?thesis
    using rab_papb [OF assms(1) k(1,2), of "s3_r4 s3" "s2_r4 s2" "s3_x s3" "s2_y s2"] nn c'
    by (simp add: gen verifySMP4_def verifySMP4ProtocolSuccess_def eq_def w_def)
qed


end
