(* ===== verification/Conversation.thy ===== *)
theory Conversation
  imports Key_Management Keys Fragmentation Smp
begin

text \<open>
  The state of a conversation (\<^verbatim>\<open>conversation.go\<close>, the structs of \<^verbatim>\<open>ake.go\<close>, \<^verbatim>\<open>smp.go\<close>, \<^verbatim>\<open>resend.go\<close>,
  \<^verbatim>\<open>heartbeat.go\<close>, \<^verbatim>\<open>inject_message.go\<close>) and the operations every other component calls: events,
  injected messages, version agreement (\<^verbatim>\<open>version.go\<close>), instance tags and message headers
  (\<^verbatim>\<open>otrv2.go\<close>, \<^verbatim>\<open>otrv3.go\<close>), and the reception of a fragment.

  A method of \<^verbatim>\<open>*Conversation\<close> takes the record and returns its result with the new record; a
  method that can panic returns an option of that. The environment is part of the record: the
  random source as the bytes it will deliver, the clock as the readings \<^verbatim>\<open>time.Now()\<close> will give
  (\<open>c_tick\<close> counts the calls), the calls made to the application's event handlers as a log, and
  the address the next allocated public key gets.
\<close>

section \<open>Enumerations\<close>

datatype msgState = plainText | encrypted | finished

datatype whitespaceState = whitespaceNotSent | whitespaceSent | whitespaceRejected

datatype retransmitFlag = noRetransmit | retransmitWithPrefix | retransmitExact

datatype authState =
    authStateNone | authStateAwaitingDHKey | authStateAwaitingRevealSig | authStateAwaitingSig bytes

datatype smpState =
    smpStateExpect1 | smpStateExpect2 | smpStateExpect3 | smpStateExpect4
  | smpStateWaitingForSecret smp1Message

datatype ErrorCode =
    ErrorCodeEncryptionError | ErrorCodeMessageUnreadable | ErrorCodeMessageMalformed
  | ErrorCodeMessageNotInPrivate

datatype MessageEvent =
    MessageEventEncryptionRequired | MessageEventEncryptionError | MessageEventConnectionEnded
  | MessageEventSetupError | MessageEventMessageReflected | MessageEventMessageSent
  | MessageEventMessageResent | MessageEventReceivedMessageNotInPrivate
  | MessageEventReceivedMessageUnreadable | MessageEventReceivedMessageMalformed
  | MessageEventLogHeartbeatReceived | MessageEventLogHeartbeatSent
  | MessageEventReceivedMessageGeneralError | MessageEventReceivedMessageUnencrypted
  | MessageEventReceivedMessageUnrecognized | MessageEventReceivedMessageForOtherInstance

datatype SecurityEvent = GoneInsecure | GoneSecure | StillSecure

datatype SMPEvent =
    SMPEventError | SMPEventAbort | SMPEventCheated | SMPEventAskForAnswer | SMPEventAskForSecret
  | SMPEventInProgress | SMPEventSuccess | SMPEventFailure

text \<open>A call of a handler: the message event with its message, error and trace; the security
  event; the SMP event with its progress and question; the extra symmetric key.\<close>

datatype event =
    EvMessage MessageEvent "bytes option" "go_error option" "nat list"
  | EvSecurity SecurityEvent
  | EvSMP SMPEvent nat bytes
  | EvSymKey uint32 bytes bytes

section \<open>The record\<close>

record ake_ctx =
  ake_secretExponent :: "int option"
  ake_ourPublicValue :: "int option"
  ake_theirPublicValue :: "int option"
  ake_r :: bytes
  ake_encryptedGx :: bytes
  ake_xhashedGx :: bytes
  ake_revealKey :: akeKeys
  ake_sigKey :: akeKeys
  ake_state :: authState
  ake_keys :: keyManagementContext
  ake_lastStateChange :: int

record smp_ctx =
  smp_state :: "smpState option"
  smp_question :: "bytes option"
  smp_secret :: "int option"
  smp_s1 :: "smp1State option"
  smp_s2 :: "smp2State option"
  smp_s3 :: "smp3State option"

record messageToResend =
  mr_m :: bytes
  mr_opaque :: "nat list"

record resendContext =
  mayRetransmit :: retransmitFlag
  messageTransform :: "(bytes \<Rightarrow> bytes) option"
  retransmitting :: bool
  resend_m :: "messageToResend list"

record conversation =
  c_version :: "otrVersion option"
  c_Rand :: bytes
  c_msgState :: msgState
  c_whitespaceState :: whitespaceState
  c_lastMessageStateChange :: int
  c_ourInstanceTag :: uint32
  c_theirInstanceTag :: uint32
  c_ssid :: bytes
  c_ourKeys :: "DSAPrivateKey list"
  c_ourCurrentKey :: "DSAPrivateKey option"
  c_theirKey :: "DSAPublicKey option"
  c_ake :: "ake_ctx option"
  c_smp :: smp_ctx
  c_keys :: keyManagementContext
  c_Policies :: int
  c_lastSent :: int
  c_resend :: resendContext
  c_injections :: "bytes list"
  c_fragmentSize :: uint16
  c_fragmentationContext :: fragmentationContext
  c_smpEventHandler :: bool
  c_errorMessageHandler :: "(ErrorCode \<Rightarrow> bytes) option"
  c_messageEventHandler :: bool
  c_securityEventHandler :: bool
  c_receivedKeyHandler :: bool
  c_debug :: bool
  c_sentRevealSig :: bool
  c_friendlyQueryMessage :: bytes
  c_clock :: "nat \<Rightarrow> int"
  c_tick :: nat
  c_events :: "event list"
  c_alloc :: nat

definition nil_smp :: smp_ctx where
  "nil_smp = \<lparr>smp_state = None, smp_question = None, smp_secret = None, smp_s1 = None, smp_s2 = None,
     smp_s3 = None\<rparr>"

definition nil_resend :: resendContext where
  "nil_resend = \<lparr>mayRetransmit = noRetransmit, messageTransform = None, retransmitting = False,
     resend_m = []\<rparr>"

text \<open>The zero value \<^verbatim>\<open>Conversation{}\<close>, in an environment with the given random source and clock.\<close>

definition nil_conversation :: "bytes \<Rightarrow> (nat \<Rightarrow> int) \<Rightarrow> nat \<Rightarrow> conversation" where
  "nil_conversation rnd clock alloc =
     \<lparr>c_version = None, c_Rand = rnd, c_msgState = plainText, c_whitespaceState = whitespaceNotSent,
      c_lastMessageStateChange = 0, c_ourInstanceTag = 0, c_theirInstanceTag = 0, c_ssid = replicate 8 0,
      c_ourKeys = [], c_ourCurrentKey = None, c_theirKey = None, c_ake = None, c_smp = nil_smp,
      c_keys = nil_keys, c_Policies = 0, c_lastSent = 0, c_resend = nil_resend, c_injections = [],
      c_fragmentSize = 0, c_fragmentationContext = forgetFragment, c_smpEventHandler = False,
      c_errorMessageHandler = None, c_messageEventHandler = False, c_securityEventHandler = False,
      c_receivedKeyHandler = False, c_debug = False, c_sentRevealSig = False, c_friendlyQueryMessage = [],
      c_clock = clock, c_tick = 0, c_events = [], c_alloc = alloc\<rparr>"

definition NewConversationWithVersion :: "int \<Rightarrow> bytes \<Rightarrow> (nat \<Rightarrow> int) \<Rightarrow> nat \<Rightarrow> conversation" where
  "NewConversationWithVersion v rnd clock alloc =
     (nil_conversation rnd clock alloc)
       \<lparr>c_version := (if v = 2 then Some OtrV2 else if v = 3 then Some OtrV3 else None)\<rparr>"

definition IsEncrypted :: "conversation \<Rightarrow> bool" where
  "IsEncrypted c \<longleftrightarrow> c_msgState c = encrypted"

definition SetOurKeys :: "DSAPrivateKey list \<Rightarrow> conversation \<Rightarrow> conversation" where
  "SetOurKeys ks c = c\<lparr>c_ourKeys := ks\<rparr>"

definition GetOurKeys :: "conversation \<Rightarrow> DSAPrivateKey list" where
  "GetOurKeys c = c_ourKeys c"

definition GetOurCurrentKey :: "conversation \<Rightarrow> DSAPrivateKey option" where
  "GetOurCurrentKey c = c_ourCurrentKey c"

definition GetTheirKey :: "conversation \<Rightarrow> DSAPublicKey option" where
  "GetTheirKey c = c_theirKey c"

definition GetSSID :: "conversation \<Rightarrow> bytes" where
  "GetSSID c = c_ssid c"

text \<open>For the handlers of events the record only says whether there is one.\<close>

definition SetSMPEventHandler :: "bool \<Rightarrow> conversation \<Rightarrow> conversation" where
  "SetSMPEventHandler handler c = c\<lparr>c_smpEventHandler := handler\<rparr>"

definition SetErrorMessageHandler :: "(ErrorCode \<Rightarrow> bytes) option \<Rightarrow> conversation \<Rightarrow> conversation" where
  "SetErrorMessageHandler handler c = c\<lparr>c_errorMessageHandler := handler\<rparr>"

definition SetMessageEventHandler :: "bool \<Rightarrow> conversation \<Rightarrow> conversation" where
  "SetMessageEventHandler handler c = c\<lparr>c_messageEventHandler := handler\<rparr>"

definition SetSecurityEventHandler :: "bool \<Rightarrow> conversation \<Rightarrow> conversation" where
  "SetSecurityEventHandler handler c = c\<lparr>c_securityEventHandler := handler\<rparr>"

definition SetFragmentSize :: "uint16 \<Rightarrow> conversation \<Rightarrow> conversation" where
  "SetFragmentSize n c = c\<lparr>c_fragmentSize := n\<rparr>"

definition SetFriendlyQueryMessage :: "bytes \<Rightarrow> conversation \<Rightarrow> conversation" where
  "SetFriendlyQueryMessage m c = c\<lparr>c_friendlyQueryMessage := m\<rparr>"

section \<open>Results\<close>

text \<open>A method that returns a value and an error and can panic. \<open>andThen\<close> is the code's
  \<^verbatim>\<open>if err != nil { return err }\<close> after such a call.\<close>

type_synonym 'a result = "((go_error + 'a) \<times> conversation) option"

definition andThen :: "'a result \<Rightarrow> ('a \<Rightarrow> conversation \<Rightarrow> 'b result) \<Rightarrow> 'b result" where
  "andThen m f =
     (case m of
        None \<Rightarrow> None
      | Some (Inl e, c) \<Rightarrow> Some (Inl e, c)
      | Some (Inr x, c) \<Rightarrow> f x c)"

lemma andThen_simps [simp]:
  "andThen None f = None" "andThen (Some (Inl e, c)) f = Some (Inl e, c)"
  "andThen (Some (Inr x, c)) f = f x c"
  by (simp_all add: andThen_def)

lemma andThen_eq_Inr:
  "andThen m f = Some (Inr y, c') \<longleftrightarrow> (\<exists>x c. m = Some (Inr x, c) \<and> f x c = Some (Inr y, c'))"
  by (auto simp: andThen_def split: option.splits sum.splits)

lemma andThen_eq_None:
  "andThen m f = None \<longleftrightarrow> m = None \<or> (\<exists>x c. m = Some (Inr x, c) \<and> f x c = None)"
  by (auto simp: andThen_def split: option.splits sum.splits)

section \<open>Clock, events, injected messages\<close>

definition time_Now :: "conversation \<Rightarrow> int \<times> conversation" where
  "time_Now c = (c_clock c (c_tick c), c\<lparr>c_tick := c_tick c + 1\<rparr>)"

definition updateLastSent :: "conversation \<Rightarrow> conversation" where
  "updateLastSent c = (case time_Now c of (t, c') \<Rightarrow> c'\<lparr>c_lastSent := t\<rparr>)"

definition log_event :: "event \<Rightarrow> conversation \<Rightarrow> conversation" where
  "log_event e c = c\<lparr>c_events := c_events c @ [e]\<rparr>"

definition messageEvent :: "MessageEvent \<Rightarrow> nat list \<Rightarrow> conversation \<Rightarrow> conversation" where
  "messageEvent e trace c = (if c_messageEventHandler c then log_event (EvMessage e None None trace) c else c)"

definition messageEventWithError :: "MessageEvent \<Rightarrow> go_error \<Rightarrow> conversation \<Rightarrow> conversation" where
  "messageEventWithError e err c =
     (if c_messageEventHandler c then log_event (EvMessage e None (Some err) []) c else c)"

definition messageEventWithMessage :: "MessageEvent \<Rightarrow> bytes \<Rightarrow> conversation \<Rightarrow> conversation" where
  "messageEventWithMessage e msg c =
     (if c_messageEventHandler c then log_event (EvMessage e (Some msg) None []) c else c)"

definition smpEventWithQuestion :: "SMPEvent \<Rightarrow> nat \<Rightarrow> bytes \<Rightarrow> conversation \<Rightarrow> conversation" where
  "smpEventWithQuestion e percent question c =
     (if c_smpEventHandler c then log_event (EvSMP e percent question) c else c)"

definition smpEvent :: "SMPEvent \<Rightarrow> nat \<Rightarrow> conversation \<Rightarrow> conversation" where
  "smpEvent e percent c = (if c_smpEventHandler c then log_event (EvSMP e percent []) c else c)"

definition securityEvent :: "SecurityEvent \<Rightarrow> conversation \<Rightarrow> conversation" where
  "securityEvent e c = (if c_securityEventHandler c then log_event (EvSecurity e) c else c)"

definition signalSecurityEventIf :: "bool \<Rightarrow> SecurityEvent \<Rightarrow> conversation \<Rightarrow> conversation" where
  "signalSecurityEventIf cond e c = (if cond then securityEvent e c else c)"

definition receivedSymKey :: "uint32 \<Rightarrow> bytes \<Rightarrow> bytes \<Rightarrow> conversation \<Rightarrow> conversation" where
  "receivedSymKey usage usageData symkey c =
     (if c_receivedKeyHandler c then log_event (EvSymKey usage usageData symkey) c else c)"

definition injectMessage :: "bytes \<Rightarrow> conversation \<Rightarrow> conversation" where
  "injectMessage vm c = c\<lparr>c_injections := c_injections c @ [vm]\<rparr>"

definition withInjects :: "bytes list \<Rightarrow> conversation \<Rightarrow> bytes list \<times> conversation" where
  "withInjects vms c = (vms @ c_injections c, c\<lparr>c_injections := []\<rparr>)"

definition errorMarker :: bytes where
  "errorMarker = str ''?OTR Error:''"

definition generatePotentialErrorMessage :: "ErrorCode \<Rightarrow> conversation \<Rightarrow> conversation" where
  "generatePotentialErrorMessage ec c =
     (case c_errorMessageHandler c of
        None \<Rightarrow> c
      | Some eh \<Rightarrow> injectMessage (errorMarker @ [32] @ eh ec) c)"

definition malformedMessage :: "conversation \<Rightarrow> conversation" where
  "malformedMessage c =
     generatePotentialErrorMessage ErrorCodeMessageMalformed
       (messageEvent MessageEventReceivedMessageMalformed [] c)"

definition potentialAuthError ::
    "bytes list \<times> go_error option \<Rightarrow> conversation \<Rightarrow> (bytes list \<times> go_error option) \<times> conversation" where
  "potentialAuthError res c =
     (case snd res of
        None \<Rightarrow> (res, c)
      | Some err \<Rightarrow> (res, messageEventWithError MessageEventSetupError err c))"

section \<open>version.go\<close>

fun first_key :: "uint16 \<Rightarrow> DSAPrivateKey list \<Rightarrow> DSAPrivateKey option" where
  "first_key v [] = None"
| "first_key v (k # ks) = (if IsAvailableForVersion (sk_DSAPublicKey k) v then Some k else first_key v ks)"

definition setKeyMatchingVersion :: "otrVersion \<Rightarrow> conversation \<Rightarrow> go_error option \<times> conversation" where
  "setKeyMatchingVersion v c =
     (case first_key (protocolVersion v) (c_ourKeys c) of
        Some k \<Rightarrow> (None, c\<lparr>c_ourCurrentKey := Some k\<rparr>)
      | None \<Rightarrow> (Some (GoError ''no possible key for current version''), c))"

definition commitToVersionFrom :: "int \<Rightarrow> conversation \<Rightarrow> go_error option \<times> conversation" where
  "commitToVersionFrom versions c =
     (if c_version c \<noteq> None then (None, c)
      else if has_policy (c_Policies c) allowV3 \<and> versions AND 8 > 0
        then setKeyMatchingVersion OtrV3 (c\<lparr>c_version := Some OtrV3\<rparr>)
      else if has_policy (c_Policies c) allowV2 \<and> versions AND 4 > 0
        then setKeyMatchingVersion OtrV2 (c\<lparr>c_version := Some OtrV2\<rparr>)
      else (Some errUnsupportedOTRVersion, c))"

text \<open>\<^verbatim>\<open>1 << n\<close> on a 64-bit \<^verbatim>\<open>int\<close>.\<close>

definition shl1 :: "nat \<Rightarrow> int" where
  "shl1 n = (if n < 63 then 2 ^ n else if n = 63 then - (2 ^ 63) else 0)"

definition checkVersion :: "bytes \<Rightarrow> conversation \<Rightarrow> go_error option \<times> conversation" where
  "checkVersion message c =
     (case ExtractShort message of
        None \<Rightarrow> (Some errInvalidOTRMessage, c)
      | Some (_, messageVersion) \<Rightarrow>
          (case commitToVersionFrom (shl1 (unat messageVersion)) c of
             (Some e, c') \<Rightarrow> (Some e, c')
           | (None, c') \<Rightarrow>
               if map_option protocolVersion (c_version c') \<noteq> Some messageVersion
               then (Some errWrongProtocolVersion, c') else (None, c')))"

definition resolveVersionFromFragment :: "bytes \<Rightarrow> conversation \<Rightarrow> go_error option \<times> conversation" where
  "resolveVersionFromFragment data c = commitToVersionFrom (shl1 (versionFromFragment data)) c"

section \<open>Instance tags and headers (otrv2.go, otrv3.go)\<close>

definition minValidInstanceTag :: uint32 where
  "minValidInstanceTag = 0x100"

text \<open>The loop draws 4 bytes until they make a valid tag or the random source is exhausted.\<close>

function draw_tag :: "uint32 \<Rightarrow> bytes \<Rightarrow> (go_error + uint32) \<times> bytes" where
  "draw_tag ret r =
     (if ret < minValidInstanceTag
      then (case randomInto 4 r of
              (Inl e, r') \<Rightarrow> (Inl e, r')
            | (Inr dst, r') \<Rightarrow> draw_tag (of_nat (be_nat dst)) r')
      else (Inr ret, r))"
  by pat_completeness auto
termination
  by (relation "measure (\<lambda>(ret, r). length r)")
     (auto simp: randomInto_def ReadFull_def split: if_splits)

declare draw_tag.simps [simp del]

definition generateInstanceTag :: "conversation \<Rightarrow> go_error option \<times> conversation" where
  "generateInstanceTag c =
     (if c_ourInstanceTag c \<noteq> 0 then (None, c)
      else (case draw_tag 0 (c_Rand c) of
              (Inl e, r) \<Rightarrow> (Some e, c\<lparr>c_Rand := r\<rparr>)
            | (Inr tag, r) \<Rightarrow> (None, c\<lparr>c_Rand := r, c_ourInstanceTag := tag\<rparr>)))"

definition InitializeInstanceTag :: "uint32 \<Rightarrow> conversation \<Rightarrow> uint32 \<times> conversation" where
  "InitializeInstanceTag tag c =
     (let c' = (if tag = 0 then snd (generateInstanceTag c) else c\<lparr>c_ourInstanceTag := tag\<rparr>)
      in (c_ourInstanceTag c', c'))"

definition otrV2_messageHeader :: "byte \<Rightarrow> bytes" where
  [simp]: "otrV2_messageHeader msgType = AppendShort [] (protocolVersion OtrV2) @ [msgType]"

definition messageHeader :: "byte \<Rightarrow> conversation \<Rightarrow> bytes result" where
  "messageHeader msgType c =
     (case c_version c of
        None \<Rightarrow> None
      | Some OtrV2 \<Rightarrow> Some (Inr (otrV2_messageHeader msgType), c)
      | Some OtrV3 \<Rightarrow>
          (case generateInstanceTag c of
             (Some e, c') \<Rightarrow> Some (Inl e, c')
           | (None, c') \<Rightarrow>
               Some (Inr (AppendWord (AppendWord (AppendShort [] (protocolVersion OtrV3) @ [msgType])
                            (c_ourInstanceTag c')) (c_theirInstanceTag c')), c')))"

definition wrapMessageHeader :: "byte \<Rightarrow> bytes \<Rightarrow> conversation \<Rightarrow> bytes result" where
  "wrapMessageHeader msgType msg c =
     andThen (messageHeader msgType c) (\<lambda>header c'. Some (Inr (header @ msg), c'))"

text \<open>Their tag is stored before it is looked at.\<close>

definition verifyInstanceTags :: "uint32 \<Rightarrow> uint32 \<Rightarrow> conversation \<Rightarrow> go_error option \<times> conversation" where
  "verifyInstanceTags their our c0 =
     (let c = (if c_theirInstanceTag c0 = 0 then c0\<lparr>c_theirInstanceTag := their\<rparr> else c0) in
      if our > 0 \<and> our < minValidInstanceTag then (Some errInvalidOTRMessage, malformedMessage c)
      else if their < minValidInstanceTag then (Some errInvalidOTRMessage, malformedMessage c)
      else if (our \<noteq> 0 \<and> c_ourInstanceTag c \<noteq> our) \<or> c_theirInstanceTag c \<noteq> their
        then (Some errReceivedMessageForOtherInstance,
              messageEvent MessageEventReceivedMessageForOtherInstance [] c)
      else (None, c))"

definition otrV2_parseMessageHeader :: "bytes \<Rightarrow> go_error + bytes \<times> bytes" where
  [simp]: "otrV2_parseMessageHeader msg = (if length msg < 3 then Inl errInvalidOTRMessage else Inr (take 3 msg, drop 3 msg))"

definition parseMessageHeader :: "bytes \<Rightarrow> conversation \<Rightarrow> (bytes \<times> bytes) result" where
  "parseMessageHeader msg c =
     (case c_version c of
        None \<Rightarrow> None
      | Some OtrV2 \<Rightarrow> Some (otrV2_parseMessageHeader msg, c)
      | Some OtrV3 \<Rightarrow>
          if length msg < 11 then Some (Inl errInvalidOTRMessage, malformedMessage c)
          else let their = DeserializeWord (drop 3 msg); our = DeserializeWord (drop 7 msg) in
            (case verifyInstanceTags their our c of
               (Some e, c') \<Rightarrow> Some (Inl e, c')
             | (None, c') \<Rightarrow> Some (Inr (take 11 msg, drop 11 msg), c')))"

section \<open>Receiving a fragment\<close>

definition parseItag :: "bytes \<Rightarrow> uint32 option" where
  "parseItag s = (case ParseInt 16 s of None \<Rightarrow> None | Some v \<Rightarrow> Some (of_int v))"

text \<open>The results are the rest, \<^verbatim>\<open>ignore\<close> and \<^verbatim>\<open>ok\<close>.\<close>

definition otrV2_parseFragmentPrefix :: "bytes \<Rightarrow> bytes \<times> bool \<times> bool" where
  [simp]: "otrV2_parseFragmentPrefix data = (if length data < 5 then (data, False, False) else (drop 5 data, False, True))"

fun v_parseFragmentPrefix :: "otrVersion \<Rightarrow> bytes \<Rightarrow> conversation \<Rightarrow> (bytes \<times> bool \<times> bool) \<times> conversation" where
  "v_parseFragmentPrefix OtrV2 data c = (otrV2_parseFragmentPrefix data, c)"
| "v_parseFragmentPrefix OtrV3 data c =
     (if length data < 23 then ((data, False, False), c)
      else let itagParts = split_byte 124 (hd (split_byte 44 (take 23 data))) in
        if length itagParts < 3 then ((data, False, False), c)
        else (case (parseItag (itagParts ! 1), parseItag (itagParts ! 2)) of
                (Some sender, Some receiver) \<Rightarrow>
                  (case verifyInstanceTags sender receiver c of
                     (None, c') \<Rightarrow> ((drop 23 data, False, True), c')
                   | (Some e, c') \<Rightarrow>
                       if e = errInvalidOTRMessage then ((data, False, False), c')
                       else if e = errReceivedMessageForOtherInstance then ((data, True, True), c')
                       else ((drop 23 data, False, True), c'))
              | _ \<Rightarrow> ((data, False, False), c)))"

definition parseFragmentPrefix :: "bytes \<Rightarrow> conversation \<Rightarrow> ((bytes \<times> bool \<times> bool) \<times> conversation) option" where
  "parseFragmentPrefix data c =
     (case resolveVersionFromFragment data c of
        (Some e, c') \<Rightarrow> Some ((data, True, False), c')
      | (None, c') \<Rightarrow>
          (case c_version c' of None \<Rightarrow> None | Some v \<Rightarrow> Some (v_parseFragmentPrefix v data c')))"

definition receiveFragment ::
    "fragmentationContext \<Rightarrow> bytes \<Rightarrow> conversation \<Rightarrow>
     ((fragmentationContext \<times> go_error option) \<times> conversation) option" where
  "receiveFragment beforeCtx data c =
     (case parseFragmentPrefix data c of
        None \<Rightarrow> None
      | Some ((fragBody, ignore, ok1), c') \<Rightarrow>
          if ignore
          then Some ((beforeCtx, None), messageEvent MessageEventReceivedMessageForOtherInstance [] c')
          else (case (ok1, parseFragment fragBody) of
                  (True, Some p) \<Rightarrow> Some ((fragment_step p beforeCtx, None), c')
                | _ \<Rightarrow> Some ((beforeCtx, Some (newOtrError ''invalid OTR fragment'')), c')))"

end
