(* ===== verification/Smp_State_Machine.thy ===== *)
theory Smp_State_Machine
  imports Conversation
begin

text \<open>
  \<^verbatim>\<open>smp_state_machine.go\<close>: the states of an SMP run, what each does with each message, and the
  start and continuation of a run by the local user. The fields \<^verbatim>\<open>s1\<close>, \<^verbatim>\<open>s2\<close>, \<^verbatim>\<open>s3\<close> and \<^verbatim>\<open>secret\<close>
  are pointers; using one that is nil is the panic \<^term>\<open>None\<close>, which the invariant \<open>smp_ok\<close>
  of the theory \<open>Session_Invariant\<close> excludes.
\<close>

section \<open>smp.go: the context\<close>

definition smp_wipe :: "conversation \<Rightarrow> conversation" where
  "smp_wipe c = c\<lparr>c_smp := nil_smp\<rparr>"

definition ensureSMP :: "conversation \<Rightarrow> conversation" where
  "ensureSMP c =
     (if smp_state (c_smp c) \<noteq> None then c
      else c\<lparr>c_smp := (c_smp c)\<lparr>smp_state := Some smpStateExpect1\<rparr>\<rparr>)"

definition SMPQuestion :: "conversation \<Rightarrow> bytes option" where
  "SMPQuestion c = smp_question (c_smp c)"

definition set_smp_state :: "smpState \<Rightarrow> conversation \<Rightarrow> conversation" where
  "set_smp_state st c = c\<lparr>c_smp := (c_smp c)\<lparr>smp_state := Some st\<rparr>\<rparr>"

section \<open>Transitions\<close>

text \<open>The next state, the message to answer with (nil when there is none) and the error.\<close>

type_synonym smp_result = "(smpState \<times> smpMessage option \<times> go_error option) \<times> conversation"

definition abortState :: "go_error option \<Rightarrow> smpState \<times> smpMessage option \<times> go_error option" where
  "abortState e = (smpStateExpect1, Some SmpAbort, e)"

definition sendSMPAbortAndRestartStateMachine :: "smpState \<times> smpMessage option \<times> go_error option" where
  "sendSMPAbortAndRestartStateMachine = abortState None"

definition restartSMP :: "conversation \<Rightarrow> tlv \<times> conversation" where
  "restartSMP c =
     (case sendSMPAbortAndRestartStateMachine of
        (st, ret, _) \<Rightarrow> (smpMessage_tlv (the ret), set_smp_state st c))"

definition abortStateMachineAndNotifyCheated :: "conversation \<Rightarrow> smp_result" where
  "abortStateMachineAndNotifyCheated c =
     (sendSMPAbortAndRestartStateMachine, smpEvent SMPEventCheated 0 c)"

definition abortStateMachineAndNotifyError :: "conversation \<Rightarrow> smp_result" where
  "abortStateMachineAndNotifyError c =
     (sendSMPAbortAndRestartStateMachine, smpEvent SMPEventError 0 c)"

definition receiveMessage1 :: "suite \<Rightarrow> smpState \<Rightarrow> smp1Message \<Rightarrow> conversation \<Rightarrow> smp_result option" where
  "receiveMessage1 S st m c =
     (case st of
        smpStateExpect1 \<Rightarrow>
          do { v \<leftarrow> c_version c;
               case verifySMP1 S v m of
                 Some _ \<Rightarrow> Some (abortStateMachineAndNotifyCheated c)
               | None \<Rightarrow>
                   let c' = (if m1_hasQuestion m
                             then smpEventWithQuestion SMPEventAskForAnswer 25 (m1_question m)
                                    (c\<lparr>c_smp := (c_smp c)\<lparr>smp_question := Some (m1_question m)\<rparr>\<rparr>)
                             else smpEvent SMPEventAskForSecret 25 c)
                   in Some ((smpStateWaitingForSecret m, None, None), c') }
      | _ \<Rightarrow> Some (abortStateMachineAndNotifyError c))"

definition continueMessage1 :: "suite \<Rightarrow> smpState \<Rightarrow> bytes \<Rightarrow> conversation \<Rightarrow> smp_result option" where
  "continueMessage1 S st mutualSecret c =
     (case st of
        smpStateWaitingForSecret msg \<Rightarrow>
          if \<not> IsEncrypted c then Some (abortState (Some errCantAuthenticateWithoutEncryption), c)
          else do { theirKey \<leftarrow> c_theirKey c; ourKey \<leftarrow> c_ourCurrentKey c; v \<leftarrow> c_version c;
               let secret = generateSMPSecret S (Fingerprint S theirKey)
                              (Fingerprint S (sk_DSAPublicKey ourKey)) (c_ssid c) mutualSecret v;
                   c1 = c\<lparr>c_smp := (c_smp c)\<lparr>smp_secret := Some secret\<rparr>\<rparr>
               in (case generateSMP2 S v secret msg (c_Rand c1) of
                     (Inl _, r) \<Rightarrow> Some (abortStateMachineAndNotifyCheated (c1\<lparr>c_Rand := r\<rparr>))
                   | (Inr s2, r) \<Rightarrow>
                       Some ((smpStateExpect3, Some (Smp2 (s2_msg s2)), None),
                             c1\<lparr>c_Rand := r, c_smp := (c_smp c1)\<lparr>smp_s2 := Some s2\<rparr>\<rparr>)) }
      | _ \<Rightarrow> Some (abortState (Some errNotWaitingForSMPSecret), c))"

definition receiveMessage2 :: "suite \<Rightarrow> smpState \<Rightarrow> smp2Message \<Rightarrow> conversation \<Rightarrow> smp_result option" where
  "receiveMessage2 S st m c =
     (case st of
        smpStateExpect2 \<Rightarrow>
          do { v \<leftarrow> c_version c; s1 \<leftarrow> smp_s1 (c_smp c); secret \<leftarrow> smp_secret (c_smp c);
               case verifySMP2 S v s1 m of
                 Some _ \<Rightarrow> Some (abortStateMachineAndNotifyCheated c)
               | None \<Rightarrow>
                   do { (res, r) \<leftarrow> generateSMP3 S v secret s1 m (c_Rand c);
                        case res of
                          Inl _ \<Rightarrow> Some (abortStateMachineAndNotifyCheated (c\<lparr>c_Rand := r\<rparr>))
                        | Inr s3 \<Rightarrow>
                            let c1 = smpEvent SMPEventInProgress 60 (c\<lparr>c_Rand := r\<rparr>)
                            in Some ((smpStateExpect4, Some (Smp3 (s3_msg s3)), None),
                                     c1\<lparr>c_smp := (c_smp c1)\<lparr>smp_s3 := Some s3\<rparr>\<rparr>) } }
      | _ \<Rightarrow> Some (abortStateMachineAndNotifyError c))"

definition receiveMessage3 :: "suite \<Rightarrow> smpState \<Rightarrow> smp3Message \<Rightarrow> conversation \<Rightarrow> smp_result option" where
  "receiveMessage3 S st m c =
     (case st of
        smpStateExpect3 \<Rightarrow>
          do { v \<leftarrow> c_version c; s2 \<leftarrow> smp_s2 (c_smp c);
               e \<leftarrow> verifySMP3 S v s2 m;
               case e of
                 Some _ \<Rightarrow> Some (abortStateMachineAndNotifyCheated c)
               | None \<Rightarrow>
                   do { e' \<leftarrow> verifySMP3ProtocolSuccess S s2 m;
                        case e' of
                          Some _ \<Rightarrow> Some (sendSMPAbortAndRestartStateMachine, smpEvent SMPEventFailure 100 c)
                        | None \<Rightarrow>
                            let c1 = smpEvent SMPEventSuccess 100 c in
                            do { (res, r) \<leftarrow> generateSMP4 S v (case smp_secret (c_smp c1) of None \<Rightarrow> 0 | Some x \<Rightarrow> x)
                                              s2 m (c_Rand c1);
                                 case res of
                                   Inl _ \<Rightarrow> Some (abortStateMachineAndNotifyCheated (c1\<lparr>c_Rand := r\<rparr>))
                                 | Inr ret \<Rightarrow>
                                     Some ((smpStateExpect1, Some (Smp4 (s4_msg ret)), None),
                                           smp_wipe (c1\<lparr>c_Rand := r\<rparr>)) } } }
      | _ \<Rightarrow> Some (abortStateMachineAndNotifyError c))"

definition receiveMessage4 :: "suite \<Rightarrow> smpState \<Rightarrow> smp4Message \<Rightarrow> conversation \<Rightarrow> smp_result option" where
  "receiveMessage4 S st m c =
     (case st of
        smpStateExpect4 \<Rightarrow>
          do { v \<leftarrow> c_version c; s3 \<leftarrow> smp_s3 (c_smp c); s1 \<leftarrow> smp_s1 (c_smp c);
               case verifySMP4 S v s3 m of
                 Some _ \<Rightarrow> Some (abortStateMachineAndNotifyCheated c)
               | None \<Rightarrow>
                   (case verifySMP4ProtocolSuccess S s1 s3 m of
                      Some _ \<Rightarrow> Some (sendSMPAbortAndRestartStateMachine, smpEvent SMPEventFailure 100 c)
                    | None \<Rightarrow> Some ((smpStateExpect1, None, None), smp_wipe (smpEvent SMPEventSuccess 100 c))) }
      | _ \<Rightarrow> Some (abortStateMachineAndNotifyError c))"

text \<open>\<^verbatim>\<open>c.smp.state, ret, err = c.smp.state.receiveMessageN(c, m)\<close>: the new state is stored after
  the handler has changed the conversation.\<close>

definition receivedMessage ::
    "suite \<Rightarrow> smpMessage \<Rightarrow> conversation \<Rightarrow> ((smpMessage option \<times> go_error option) \<times> conversation) option" where
  "receivedMessage S msg c =
     (case msg of
        SmpAbort \<Rightarrow> Some ((None, None), smpEvent SMPEventAbort 0 (set_smp_state smpStateExpect1 c))
      | _ \<Rightarrow>
          do { st \<leftarrow> smp_state (c_smp c);
               ((st', ret, err), c') \<leftarrow>
                 (case msg of
                    Smp1 m \<Rightarrow> receiveMessage1 S st m c
                  | Smp2 m \<Rightarrow> receiveMessage2 S st m c
                  | Smp3 m \<Rightarrow> receiveMessage3 S st m c
                  | Smp4 m \<Rightarrow> receiveMessage4 S st m c
                  | SmpAbort \<Rightarrow> None);
               Some ((ret, err), set_smp_state st' c') })"

definition receiveSMP :: "suite \<Rightarrow> smpMessage \<Rightarrow> conversation \<Rightarrow> tlv option result" where
  "receiveSMP S m c =
     do { ((toSend, err), c') \<leftarrow> receivedMessage S m c;
          case err of
            Some e \<Rightarrow> Some (Inl e, c')
          | None \<Rightarrow> Some (Inr (map_option smpMessage_tlv toSend), c') }"

definition continueSMP :: "suite \<Rightarrow> bytes \<Rightarrow> conversation \<Rightarrow> tlv result" where
  "continueSMP S mutualSecret c =
     do { st \<leftarrow> smp_state (c_smp c);
          ((st', toSend, err), c') \<leftarrow> continueMessage1 S st mutualSecret c;
          let c'' = set_smp_state st' c' in
          case err of
            Some e \<Rightarrow> Some (Inl e, c'')
          | None \<Rightarrow> do { m \<leftarrow> toSend; Some (Inr (smpMessage_tlv m), c'') } }"

definition startAuthenticate_Expect1 :: "suite \<Rightarrow> bytes \<Rightarrow> bytes \<Rightarrow> conversation \<Rightarrow> tlv list result" where
  "startAuthenticate_Expect1 S question mutualSecret c =
     (if \<not> IsEncrypted c then Some (Inl errCantAuthenticateWithoutEncryption, c)
      else do { ourKey \<leftarrow> c_ourCurrentKey c; theirKey \<leftarrow> c_theirKey c; v \<leftarrow> c_version c;
           let secret = generateSMPSecret S (Fingerprint S (sk_DSAPublicKey ourKey))
                          (Fingerprint S theirKey) (c_ssid c) mutualSecret v;
               c1 = c\<lparr>c_smp := (c_smp c)\<lparr>smp_secret := Some secret\<rparr>\<rparr>
           in (case generateSMP1 S v (c_Rand c1) of
                 (Inl _, r) \<Rightarrow> Some (Inl errShortRandomRead, c1\<lparr>c_Rand := r\<rparr>)
               | (Inr s1, r) \<Rightarrow>
                   let s1' = (if question \<noteq> []
                              then s1\<lparr>s1_msg := (s1_msg s1)\<lparr>m1_hasQuestion := True, m1_question := question\<rparr>\<rparr>
                              else s1)
                   in Some (Inr [smp1_tlv (s1_msg s1')],
                        c1\<lparr>c_Rand := r,
                           c_smp := (c_smp c1)\<lparr>smp_s1 := Some s1', smp_state := Some smpStateExpect2\<rparr>\<rparr>)) })"

definition startAuthenticate :: "suite \<Rightarrow> smpState \<Rightarrow> bytes \<Rightarrow> bytes \<Rightarrow> conversation \<Rightarrow> tlv list result" where
  "startAuthenticate S st question mutualSecret c =
     (if st = smpStateExpect1 then startAuthenticate_Expect1 S question mutualSecret c
      else andThen (startAuthenticate_Expect1 S question mutualSecret c)
             (\<lambda>tlvs c'. Some (Inr (smpMessageAbort_tlv # tlvs), c')))"

end
