(* ===== verification/Data_Message.thy ===== *)
theory Data_Message
  imports Smp_State_Machine
begin

text \<open>
  Sending and receiving data messages: \<^verbatim>\<open>data_message.go\<close>, \<^verbatim>\<open>resend.go\<close>, \<^verbatim>\<open>heartbeat.go\<close>,
  \<^verbatim>\<open>disconnect.go\<close>, \<^verbatim>\<open>padding.go\<close>, \<^verbatim>\<open>extra_key.go\<close>, \<^verbatim>\<open>authenticate.go\<close>, \<^verbatim>\<open>ssid.go\<close>, the handler
  table of \<^verbatim>\<open>tlv.go\<close>, \<^verbatim>\<open>End\<close> of \<^verbatim>\<open>conversation.go\<close>, and \<^verbatim>\<open>receiveDataMessage\<close> of \<^verbatim>\<open>receive.go\<close>.
\<close>

section \<open>resend.go: the queue\<close>

definition later :: "bytes \<Rightarrow> nat list \<Rightarrow> resendContext \<Rightarrow> resendContext" where
  "later msg opaque r =
     (if retransmitting r then r else r\<lparr>resend_m := resend_m r @ [\<lparr>mr_m = msg, mr_opaque = opaque\<rparr>]\<rparr>)"

definition lastMessage :: "bytes \<Rightarrow> nat list \<Rightarrow> conversation \<Rightarrow> conversation" where
  "lastMessage msg opaque c = c\<lparr>c_resend := later msg opaque (c_resend c)\<rparr>"

definition updateMayRetransmitTo :: "retransmitFlag \<Rightarrow> conversation \<Rightarrow> conversation" where
  "updateMayRetransmitTo f c = c\<lparr>c_resend := (c_resend c)\<lparr>mayRetransmit := f\<rparr>\<rparr>"

definition defaultResendMessageTransform :: "bytes \<Rightarrow> bytes" where
  "defaultResendMessageTransform msg = str ''[resent] '' @ msg"

definition resendMessageTransformer :: "conversation \<Rightarrow> bytes \<Rightarrow> bytes" where
  "resendMessageTransformer c =
     (case messageTransform (c_resend c) of None \<Rightarrow> defaultResendMessageTransform | Some f \<Rightarrow> f)"

text \<open>Times are in nanoseconds.\<close>

definition resendInterval :: int where
  "resendInterval = 60 * 10 ^ 9"

definition heartbeatInterval :: int where
  "heartbeatInterval = 60 * 10 ^ 9"

definition shouldRetransmit :: "conversation \<Rightarrow> bool \<times> conversation" where
  "shouldRetransmit c =
     (if resend_m (c_resend c) \<noteq> [] \<and> mayRetransmit (c_resend c) \<noteq> noRetransmit
      then (case time_Now c of (t, c') \<Rightarrow> (c_lastSent c' > t - resendInterval, c'))
      else (False, c))"

section \<open>data_message.go: sending\<close>

definition genDataMsgWithFlag ::
    "suite \<Rightarrow> bytes \<Rightarrow> byte \<Rightarrow> tlv list \<Rightarrow> conversation \<Rightarrow> (dataMsg \<times> bytes) result" where
  "genDataMsgWithFlag S message flag tlvs c =
     (if c_msgState c \<noteq> encrypted then Some (Inl errCannotSendUnencrypted, c)
      else do { v \<leftarrow> c_version c;
        let ourID = km_ourKeyID (c_keys c) - 1; theirID = km_theirKeyID (c_keys c) in
        do { (res, k1) \<leftarrow> keys_calculateDHSessionKeys S ourID theirID v (c_keys c);
          case res of
            Inl e \<Rightarrow> Some (Inl e, c\<lparr>c_keys := k1\<rparr>)
          | Inr keys \<Rightarrow>
              let (i, cs) = findCounterFor ourID theirID (counterHistory k1);
                  ctr = (if pc_ourCounter (cs ! i) = 0 then 1 else pc_ourCounter (cs ! i));
                  topHalfCtr = put_be 8 (unat ctr);
                  k2 = k1\<lparr>counterHistory := cs[i := (cs ! i)\<lparr>pc_ourCounter := ctr + 1\<rparr>]\<rparr>;
                  enc = plain_encrypt S \<lparr>pm_message = message, pm_tlvs = tlvs\<rparr> (sendingAESKey keys) topHalfCtr
              in andThen (messageHeader msgTypeData (c\<lparr>c_keys := k2\<rparr>))
                (\<lambda>header c2.
                  do { y \<leftarrow> kp_pub (ourCurrentDHKeys (c_keys c2));
                    let (old, k3) = revealMACKeys (c_keys c2);
                        dataMessage = dataMsg_sign S
                          \<lparr>dm_flag = flag, dm_senderKeyID = ourID, dm_recipientKeyID = theirID, dm_y = y,
                           dm_topHalfCtr = topHalfCtr, dm_encryptedMsg = enc, dm_authenticator = [],
                           dm_oldMACKeys = old, dm_serializeUnsignedCache = None\<rparr>
                          (sendingMACKey keys) header v
                    in Some (Inr (dataMessage, extraKey keys),
                         lastMessage message [] (updateMayRetransmitTo noRetransmit (c2\<lparr>c_keys := k3\<rparr>))) }) } })"

definition genDataMsg :: "suite \<Rightarrow> bytes \<Rightarrow> tlv list \<Rightarrow> conversation \<Rightarrow> (dataMsg \<times> bytes) result" where
  "genDataMsg S message tlvs c = genDataMsgWithFlag S message messageFlagNormal tlvs c"

definition extractDataMessageFlag :: "bytes \<Rightarrow> byte" where
  "extractDataMessageFlag msg = (case msg of [] \<Rightarrow> messageFlagNormal | b # _ \<Rightarrow> b)"

definition msgMarker :: bytes where
  "msgMarker = str ''?OTR:''"

definition encode :: "bytes \<Rightarrow> bytes" where
  "encode msg = msgMarker @ b64encode msg @ [46]"

text \<open>\<^verbatim>\<open>fragment\<close> looks at the version only when there is something to split.\<close>

definition c_fragment :: "bytes \<Rightarrow> uint16 \<Rightarrow> conversation \<Rightarrow> bytes list option" where
  "c_fragment data fraglen c =
     (case c_version c of
        Some v \<Rightarrow> fragment v (c_ourInstanceTag c) (c_theirInstanceTag c) data fraglen
      | None \<Rightarrow> if length data \<le> unat fraglen \<or> fraglen = 0 then Some [data] else None)"

definition fragEncode :: "bytes \<Rightarrow> conversation \<Rightarrow> bytes list option" where
  "fragEncode msg c = c_fragment (encode msg) (c_fragmentSize c) c"

definition wrap_dataMsg :: "dataMsg \<Rightarrow> conversation \<Rightarrow> bytes result" where
  "wrap_dataMsg dm c =
     do { v \<leftarrow> c_version c; wrapMessageHeader msgTypeData (dataMsg_serialize dm v) c }"

definition createSerializedDataMessage ::
    "suite \<Rightarrow> bytes \<Rightarrow> byte \<Rightarrow> tlv list \<Rightarrow> conversation \<Rightarrow> (bytes list \<times> bytes) result" where
  "createSerializedDataMessage S msg flag tlvs c =
     andThen (genDataMsgWithFlag S msg flag tlvs c)
       (\<lambda>(dm, x) c1. andThen (wrap_dataMsg dm c1)
         (\<lambda>res c2. let c3 = updateLastSent c2 in
            do { ms \<leftarrow> fragEncode res c3; Some (Inr (ms, x), c3) }))"

section \<open>resend.go: retransmission\<close>

text \<open>The result of the loop; a nil message stands for a header that could not be generated.\<close>

fun retransmit_loop ::
    "suite \<Rightarrow> bool \<Rightarrow> messageToResend list \<Rightarrow> conversation \<Rightarrow> bytes option list result" where
  "retransmit_loop S resending [] c = Some (Inr [], c)"
| "retransmit_loop S resending (msgx # msgs) c =
     (let msg = (if resending then resendMessageTransformer c (mr_m msgx) else mr_m msgx) in
      andThen (genDataMsg S msg [] c)
        (\<lambda>(dm, _) c1.
          do { (w, c2) \<leftarrow> wrap_dataMsg dm c1;
               andThen (retransmit_loop S resending msgs c2)
                 (\<lambda>rest c3. Some (Inr ((case w of Inl _ \<Rightarrow> None | Inr m \<Rightarrow> Some m) # rest), c3)) }))"

definition set_retransmitting :: "bool \<Rightarrow> conversation \<Rightarrow> conversation" where
  "set_retransmitting b c = c\<lparr>c_resend := (c_resend c)\<lparr>retransmitting := b\<rparr>\<rparr>"

definition retransmit :: "suite \<Rightarrow> conversation \<Rightarrow> bytes option list result" where
  "retransmit S c =
     (let msgs = resend_m (c_resend c);
          c1 = c\<lparr>c_resend := (c_resend c)\<lparr>resend_m := []\<rparr>\<rparr>;
          resending = (mayRetransmit (c_resend c1) = retransmitWithPrefix)
      in do { (res, c2) \<leftarrow> retransmit_loop S resending msgs (set_retransmitting True c1);
              case res of
                Inl e \<Rightarrow> Some (Inl e, set_retransmitting False c2)
              | Inr ret \<Rightarrow>
                  let ev = (if resending then MessageEventMessageResent else MessageEventMessageSent);
                      c3 = fold (\<lambda>msgx. messageEvent ev (mr_opaque msgx)) msgs c2
                  in Some (Inr ret, set_retransmitting False (updateLastSent c3)) })"

definition maybeRetransmit :: "suite \<Rightarrow> conversation \<Rightarrow> bytes option list result" where
  "maybeRetransmit S c =
     (case shouldRetransmit c of (b, c') \<Rightarrow> if b then retransmit S c' else Some (Inr [], c'))"

section \<open>heartbeat.go\<close>

definition potentialHeartbeat :: "suite \<Rightarrow> bytes option \<Rightarrow> conversation \<Rightarrow> bytes option result" where
  "potentialHeartbeat S plain c =
     (if plain = None then Some (Inr None, c)
      else (case time_Now c of (t, c0) \<Rightarrow>
        if \<not> c_lastSent c0 < t - heartbeatInterval then Some (Inr None, c0)
        else andThen (genDataMsgWithFlag S [] messageFlagIgnoreUnreadable [] c0)
          (\<lambda>(dm, _) c1. andThen (wrap_dataMsg dm c1)
            (\<lambda>toSend c2. Some (Inr (Some toSend),
               messageEvent MessageEventLogHeartbeatSent [] (updateLastSent c2))))))"

text \<open>The text, the messages and the error of \<^verbatim>\<open>Receive\<close> and its helpers.\<close>

type_synonym received = "(bytes option \<times> bytes list \<times> go_error option) \<times> conversation"

definition maybeHeartbeat ::
    "suite \<Rightarrow> bytes option \<times> bytes option \<times> go_error option \<Rightarrow> conversation \<Rightarrow> received option" where
  "maybeHeartbeat S res c =
     (case res of (plain, toSend, err) \<Rightarrow>
        (case err of
           Some e \<Rightarrow> Some ((None, [], Some e), c)
         | None \<Rightarrow>
             do { (r, c') \<leftarrow> potentialHeartbeat S plain c;
                  case r of
                    Inl e \<Rightarrow> Some ((plain, compactMessagesWithHeader [toSend, None], Some e), c')
                  | Inr tsExtra \<Rightarrow> Some ((plain, compactMessagesWithHeader [toSend, tsExtra], None), c') }))"

section \<open>TLV handlers (tlv.go, padding.go, disconnect.go, extra_key.go)\<close>

definition processPaddingTLV :: "tlv \<Rightarrow> bytes \<Rightarrow> conversation \<Rightarrow> tlv option result" where
  "processPaddingTLV t x c = Some (Inr None, c)"

definition processDisconnectedTLV :: "tlv \<Rightarrow> bytes \<Rightarrow> conversation \<Rightarrow> tlv option result" where
  "processDisconnectedTLV t x c =
     (let previousMsgState = c_msgState c;
          c1 = smp_wipe (c\<lparr>c_lastMessageStateChange := 0, c_msgState := finished\<rparr>);
          c2 = c1\<lparr>c_ake := None, c_keys := nil_keys\<rparr>
      in Some (Inr None, signalSecurityEventIf (previousMsgState = encrypted) GoneInsecure c2))"

definition processExtraSymmetricKeyTLV :: "tlv \<Rightarrow> bytes \<Rightarrow> conversation \<Rightarrow> tlv option result" where
  "processExtraSymmetricKeyTLV t x c =
     do { val \<leftarrow> slice (tlvValue t) 0 (unat (tlvLength t));
          case ExtractWord val of
            None \<Rightarrow> Some (Inr None, c)
          | Some (rest, usage) \<Rightarrow> Some (Inr None, receivedSymKey usage rest x c) }"

definition processSMPTLV :: "suite \<Rightarrow> tlv \<Rightarrow> bytes \<Rightarrow> conversation \<Rightarrow> tlv option result" where
  "processSMPTLV S t x c =
     (let c1 = ensureSMP c in
      case tlv_smpMessage t of
        None \<Rightarrow> Some (Inl (newOtrError ''corrupt data message''), c1)
      | Some m \<Rightarrow> receiveSMP S m c1)"

definition process_tlv :: "suite \<Rightarrow> tlv \<Rightarrow> bytes \<Rightarrow> conversation \<Rightarrow> tlv option result" where
  "process_tlv S t x c =
     (if tlvType t = tlvTypePadding then processPaddingTLV t x c
      else if tlvType t = tlvTypeDisconnected then processDisconnectedTLV t x c
      else if tlvType t = tlvTypeExtraSymmetricKey then processExtraSymmetricKeyTLV t x c
      else processSMPTLV S t x c)"

fun processTLVs :: "suite \<Rightarrow> tlv list \<Rightarrow> bytes \<Rightarrow> conversation \<Rightarrow> tlv list result" where
  "processTLVs S [] x c = Some (Inr [], c)"
| "processTLVs S (t # ts) x c =
     (if tlvType t \<ge> 9 then processTLVs S ts x c
      else andThen (process_tlv S t x c)
        (\<lambda>toSend c1. andThen (processTLVs S ts x c1)
          (\<lambda>rest c2. Some (Inr ((case toSend of None \<Rightarrow> [] | Some a \<Rightarrow> [a]) @ rest), c2))))"

definition decideFlagFrom :: "tlv list \<Rightarrow> byte" where
  "decideFlagFrom tlvs =
     (if \<exists>t \<in> set tlvs. isSMPMessage t then messageFlagIgnoreUnreadable else 0)"

section \<open>data_message.go: receiving\<close>

text \<open>The result is the text (nil when empty), the answer with its header (nil when there is none)
  and the error.\<close>

type_synonym processed = "(bytes option \<times> bytes option \<times> go_error option) \<times> conversation"

definition processDataMessageWithRawErrors :: "suite \<Rightarrow> bytes \<Rightarrow> bytes \<Rightarrow> conversation \<Rightarrow> processed option" where
  "processDataMessageWithRawErrors S header msg c =
     (if c_msgState c \<noteq> encrypted
      then Some ((None, None, Some errMessageNotInPrivate),
                 messageEvent MessageEventReceivedMessageNotInPrivate [] c)
      else do { v \<leftarrow> c_version c; d \<leftarrow> dataMsg_deserialize msg v;
        case d of
          Inl e \<Rightarrow> Some ((None, None, Some e), c)
        | Inr dm \<Rightarrow>
        (case checkMessageCounter dm (c_keys c) of
           (Some e, k1) \<Rightarrow> Some ((None, None, Some e), c\<lparr>c_keys := k1\<rparr>)
         | (None, k1) \<Rightarrow>
        do { (res, k2) \<leftarrow> keys_calculateDHSessionKeys S (dm_recipientKeyID dm) (dm_senderKeyID dm) v k1;
          case res of
            Inl e \<Rightarrow> Some ((None, None, Some e), c\<lparr>c_keys := k2\<rparr>)
          | Inr keys \<Rightarrow>
        (case checkSign S dm (receivingMACKey keys) header v of
           Some e \<Rightarrow> Some ((None, None, Some e), c\<lparr>c_keys := k2\<rparr>)
         | None \<Rightarrow>
          let p = (case plain_decrypt S (receivingAESKey keys) (dm_topHalfCtr dm) (dm_encryptedMsg dm) of
                     Inl _ \<Rightarrow> \<lparr>pm_message = [], pm_tlvs = []\<rparr>
                   | Inr p \<Rightarrow> p);
              plain = (if pm_message p = [] then None else Some (pm_message p));
              c1 = c\<lparr>c_keys := k2\<rparr>;
              c2 = (if plain = None then messageEvent MessageEventLogHeartbeatReceived [] c1 else c1)
          in do { (e, r, k3) \<leftarrow> rotateKeys S dm (c_Rand c2) (c_keys c2);
                  let c3 = c2\<lparr>c_keys := k3, c_Rand := r\<rparr> in
                  case e of
                    Some err \<Rightarrow> Some ((plain, None, Some err), c3)
                  | None \<Rightarrow>
                do { (tr, c4) \<leftarrow> processTLVs S (pm_tlvs p) (extraKey keys) c3;
                  case tr of
                    Inl err \<Rightarrow> Some ((plain, None, Some err), c4)
                  | Inr tlvs \<Rightarrow>
                      if tlvs = [] then Some ((plain, None, None), c4)
                      else do { (rep, c5) \<leftarrow> andThen (genDataMsgWithFlag S [] (decideFlagFrom tlvs) tlvs c4)
                                            (\<lambda>(reply, _) c'. wrap_dataMsg reply c');
                                case rep of
                                  Inl err \<Rightarrow> Some ((plain, None, Some err), c5)
                                | Inr toSend \<Rightarrow> Some ((plain, Some toSend, None), c5) } } }) }) })"

definition processDataMessage :: "suite \<Rightarrow> bytes \<Rightarrow> bytes \<Rightarrow> conversation \<Rightarrow> processed option" where
  "processDataMessage S header msg c =
     (let ignoreUnreadable = (extractDataMessageFlag msg AND messageFlagIgnoreUnreadable = messageFlagIgnoreUnreadable)
      in do { ((plain, toSend, err), c') \<leftarrow> processDataMessageWithRawErrors S header msg c;
              Some ((plain, toSend, if ignoreUnreadable then None else err), c') })"

definition notifyDataMessageError :: "go_error \<Rightarrow> conversation \<Rightarrow> conversation" where
  "notifyDataMessageError err c =
     (if err = errMessageNotInPrivate then c
      else if isConflict err
        then generatePotentialErrorMessage ErrorCodeMessageUnreadable
               (messageEvent MessageEventReceivedMessageUnreadable [] c)
      else generatePotentialErrorMessage ErrorCodeMessageMalformed
             (messageEvent MessageEventReceivedMessageMalformed [] c))"

definition receiveDataMessage :: "suite \<Rightarrow> bytes \<Rightarrow> bytes \<Rightarrow> conversation \<Rightarrow> received option" where
  "receiveDataMessage S header body c =
     do { (res, c1) \<leftarrow> processDataMessage S header body c;
          ((plain, toSend, err), c2) \<leftarrow> maybeHeartbeat S res c1;
          Some ((plain, toSend, err), (case err of None \<Rightarrow> c2 | Some e \<Rightarrow> notifyDataMessageError e c2)) }"

section \<open>Operations of the local user\<close>

definition c_End :: "suite \<Rightarrow> conversation \<Rightarrow> ((bytes list \<times> go_error option) \<times> conversation) option" where
  "c_End S c =
     do { ((toSend, err), c1) \<leftarrow>
            (if c_msgState c = encrypted
             then do { (res, c') \<leftarrow> createSerializedDataMessage S [] messageFlagIgnoreUnreadable
                         [\<lparr>tlvType = tlvTypeDisconnected, tlvLength = 0, tlvValue = []\<rparr>] (smp_wipe c);
                       case res of Inl e \<Rightarrow> Some (([], Some e), c') | Inr (ms, _) \<Rightarrow> Some ((ms, None), c') }
             else Some (([], None), c));
          let k = c_keys c1;
              c2 = c1\<lparr>c_lastMessageStateChange := 0, c_ake := None, c_msgState := plainText,
                      c_keys := k\<lparr>ourCurrentDHKeys := dhKeyPair_wipe (ourCurrentDHKeys k),
                                  ourPreviousDHKeys := dhKeyPair_wipe (ourPreviousDHKeys k),
                                  theirCurrentDHPubKey := map_option (\<lambda>_. 0) (theirCurrentDHPubKey k)\<rparr>\<rparr>
          in Some ((toSend, err), signalSecurityEventIf (c_msgState c = encrypted) GoneInsecure c2) }"

definition UseExtraSymmetricKey ::
    "suite \<Rightarrow> uint32 \<Rightarrow> bytes \<Rightarrow> conversation \<Rightarrow> (bytes \<times> bytes list) result" where
  "UseExtraSymmetricKey S usage usageData c =
     (if c_msgState c \<noteq> encrypted \<or> km_theirKeyID (c_keys c) = 0
      then Some (Inl (newOtrError ''cannot send message in current state''), c)
      else andThen (createSerializedDataMessage S [] messageFlagIgnoreUnreadable
             [\<lparr>tlvType = tlvTypeExtraSymmetricKey, tlvLength = 4 + of_nat (length usageData),
               tlvValue = AppendWord [] usage @ usageData\<rparr>] c)
             (\<lambda>(toSend, key) c'. Some (Inr (key, toSend), c')))"

definition StartAuthenticate :: "suite \<Rightarrow> bytes \<Rightarrow> bytes \<Rightarrow> conversation \<Rightarrow> bytes list result" where
  "StartAuthenticate S question mutualSecret c =
     (let c1 = ensureSMP c in
      do { st \<leftarrow> smp_state (c_smp c1);
           andThen (startAuthenticate S st question mutualSecret c1)
             (\<lambda>tlvs c2. andThen (createSerializedDataMessage S [] messageFlagIgnoreUnreadable tlvs c2)
               (\<lambda>(msgs, _) c3. Some (Inr msgs, c3))) })"

definition ProvideAuthenticationSecret :: "suite \<Rightarrow> bytes \<Rightarrow> conversation \<Rightarrow> bytes list result" where
  "ProvideAuthenticationSecret S mutualSecret c =
     andThen (continueSMP S mutualSecret c)
       (\<lambda>t c1. andThen (createSerializedDataMessage S [] messageFlagIgnoreUnreadable [t] c1)
         (\<lambda>(msgs, _) c2. Some (Inr msgs, c2)))"

definition AbortAuthentication :: "suite \<Rightarrow> conversation \<Rightarrow> bytes list result" where
  "AbortAuthentication S c =
     (case restartSMP c of (t, c1) \<Rightarrow>
        andThen (createSerializedDataMessage S [] messageFlagIgnoreUnreadable [t] c1)
          (\<lambda>(msgs, _) c2. Some (Inr msgs, c2)))"

definition SecureSessionID :: "conversation \<Rightarrow> bytes list \<times> nat" where
  "SecureSessionID c =
     (let hex = (\<lambda>bs. concat (map (\<lambda>b. fmt_num 16 2 (unat b)) bs))
      in ([hex (take 4 (c_ssid c)), hex (drop 4 (c_ssid c))], if c_sentRevealSig c then 0 else 1))"

end
