(* ===== verification/Ake.thy ===== *)
theory Ake
  imports Data_Message
begin

text \<open>
  The authenticated key exchange: \<^verbatim>\<open>ake.go\<close> (the messages and their checks), the part of
  \<^verbatim>\<open>wipe.go\<close> about it, and \<^verbatim>\<open>auth_state_machine.go\<close> (the four states and what each does with each
  message). \<^verbatim>\<open>c.ake\<close> is a pointer that may be nil; methods that use it on nil panic.
\<close>

section \<open>The context\<close>

definition nil_ake :: ake_ctx where
  "nil_ake = \<lparr>ake_secretExponent = None, ake_ourPublicValue = None, ake_theirPublicValue = None,
     ake_r = replicate 16 0, ake_encryptedGx = [], ake_xhashedGx = [], ake_revealKey = nil_akeKeys,
     ake_sigKey = nil_akeKeys, ake_state = authStateNone, ake_keys = nil_keys, ake_lastStateChange = 0\<rparr>"

definition initAKE :: "conversation \<Rightarrow> conversation" where
  "initAKE c = c\<lparr>c_ake := Some nil_ake\<rparr>"

definition ensureAKE :: "conversation \<Rightarrow> conversation" where
  "ensureAKE c = (if c_ake c \<noteq> None then c else initAKE c)"

definition wipeGX :: "ake_ctx \<Rightarrow> ake_ctx" where
  "wipeGX a = a\<lparr>ake_xhashedGx := [], ake_encryptedGx := []\<rparr>"

definition ake_wipe :: "bool \<Rightarrow> ake_ctx \<Rightarrow> ake_ctx" where
  "ake_wipe wipeKeys a =
     (wipeGX (a\<lparr>ake_secretExponent := None, ake_ourPublicValue := None, ake_theirPublicValue := None,
        ake_r := replicate 16 0\<rparr>))
       \<lparr>ake_revealKey := akeKeys_wipe (ake_revealKey a), ake_sigKey := akeKeys_wipe (ake_sigKey a),
        ake_keys := (if wipeKeys then keys_wipe (ake_keys a) else nil_keys)\<rparr>"

text \<open>\<^verbatim>\<open>upd_ake f\<close> assigns through the pointer \<^verbatim>\<open>c.ake\<close>.\<close>

definition upd_ake :: "(ake_ctx \<Rightarrow> ake_ctx) \<Rightarrow> conversation \<Rightarrow> conversation" where
  "upd_ake f c = c\<lparr>c_ake := map_option f (c_ake c)\<rparr>"

section \<open>ake.go: building messages\<close>

definition calcAKEKeys :: "suite \<Rightarrow> int \<Rightarrow> otrVersion \<Rightarrow> conversation \<Rightarrow> conversation" where
  "calcAKEKeys S s v c =
     (case calculateAKEKeys S s v of
        (ssid, rk, sk) \<Rightarrow> upd_ake (\<lambda>a. a\<lparr>ake_revealKey := rk, ake_sigKey := sk\<rparr>) (c\<lparr>c_ssid := ssid\<rparr>))"

definition setSecretExponent :: "suite \<Rightarrow> int \<Rightarrow> conversation \<Rightarrow> conversation" where
  "setSecretExponent S val c =
     upd_ake (\<lambda>a. a\<lparr>ake_secretExponent := Some val,
                    ake_ourPublicValue := Some (modExp S (dh_g1 S) val)\<rparr>) c"

definition calcDHSharedSecret :: "suite \<Rightarrow> ake_ctx \<Rightarrow> int option" where
  "calcDHSharedSecret S a =
     do { t \<leftarrow> ake_theirPublicValue a; x \<leftarrow> ake_secretExponent a; Some (modExp S t x) }"

definition appendAll :: "int \<Rightarrow> int \<Rightarrow> DSAPublicKey \<Rightarrow> uint32 \<Rightarrow> bytes" where
  "appendAll one two publicKey keyID =
     AppendWord (AppendMPI (AppendMPI [] one) two @ DSAPublicKey_serialize publicKey) keyID"

definition fixedSize :: "nat \<Rightarrow> bytes \<Rightarrow> bytes" where
  "fixedSize s v = (if length v < s then v @ replicate (s - length v) 0 else v)"

text \<open>The error of \<^verbatim>\<open>encrypt\<close> is dropped, which leaves a slice of zeros.\<close>

definition encrypt_ignoring_error :: "suite \<Rightarrow> bytes \<Rightarrow> bytes \<Rightarrow> bytes option" where
  "encrypt_ignoring_error S key data =
     (case encrypt S key data of
        None \<Rightarrow> None
      | Some (Inl _) \<Rightarrow> Some (replicate (length data) 0)
      | Some (Inr dst) \<Rightarrow> Some dst)"

definition calcXb :: "suite \<Rightarrow> akeKeys \<Rightarrow> bytes \<Rightarrow> conversation \<Rightarrow> bytes result" where
  "calcXb S key mb c =
     do { ourKey \<leftarrow> c_ourCurrentKey c; a \<leftarrow> c_ake c; v \<leftarrow> c_version c;
          let xb = AppendWord (DSAPublicKey_serialize (sk_DSAPublicKey ourKey)) (km_ourKeyID (ake_keys a)) in
          do { (res, r) \<leftarrow> key_Sign S ourKey (c_Rand c) mb;
               let c1 = c\<lparr>c_Rand := r\<rparr> in
               case res of
                 Inl e \<Rightarrow>
                   Some (Inl (if e = GoError ''unexpected EOF'' \<or> e = GoError ''EOF'' then errShortRandomRead else e), c1)
               | Inr sigb \<Rightarrow>
                   do { enc \<leftarrow> encrypt_ignoring_error S (fixedSize (keyLength v) (ak_c key)) (xb @ sigb);
                        Some (Inr enc, c1) } } }"

definition generateEncryptedSignature :: "suite \<Rightarrow> akeKeys \<Rightarrow> conversation \<Rightarrow> bytes result" where
  "generateEncryptedSignature S key c =
     do { a \<leftarrow> c_ake c; our \<leftarrow> ake_ourPublicValue a; their \<leftarrow> ake_theirPublicValue a;
          ourKey \<leftarrow> c_ourCurrentKey c; v \<leftarrow> c_version c;
          let verifyData = appendAll our their (sk_DSAPublicKey ourKey) (km_ourKeyID (ake_keys a));
              mb = sumHMAC S (ak_m1 key) verifyData v
          in andThen (calcXb S key mb c) (\<lambda>xb c1. Some (Inr (AppendData [] xb), c1)) }"

definition serializeDHCommit :: "suite \<Rightarrow> conversation \<Rightarrow> bytes option" where
  "serializeDHCommit S c =
     do { a \<leftarrow> c_ake c; v \<leftarrow> c_version c; public \<leftarrow> ake_ourPublicValue a;
          Some (dhCommit_serialize \<lparr>dc_encryptedGx = ake_encryptedGx a,
                  dc_yhashedGx = v_hash2 S v (AppendMPI [] public)\<rparr>) }"

text \<open>When the random source ends within the 16 bytes of \<^verbatim>\<open>r\<close>, those read stay in it.\<close>

definition dhCommitMessage :: "suite \<Rightarrow> conversation \<Rightarrow> bytes result" where
  "dhCommitMessage S c =
     (let c0 = upd_ake (\<lambda>a. a\<lparr>ake_keys := (ake_keys a)\<lparr>km_ourKeyID := 0\<rparr>\<rparr>) (initAKE c) in
      case randMPI 40 (c_Rand c0) of
        (Inl e, r) \<Rightarrow> Some (Inl e, c0\<lparr>c_Rand := r\<rparr>)
      | (Inr x, r) \<Rightarrow>
          (let c1 = setSecretExponent S x (c0\<lparr>c_Rand := r\<rparr>) in
           case randomInto 16 (c_Rand c1) of
             (Inl e, r') \<Rightarrow>
               Some (Inl e, upd_ake (\<lambda>a. a\<lparr>ake_r := r @ drop (length r) (ake_r a)\<rparr>) (c1\<lparr>c_Rand := r'\<rparr>))
           | (Inr rr, r') \<Rightarrow>
               do { enc \<leftarrow> encrypt_ignoring_error S rr (AppendMPI [] (modExp S (dh_g1 S) x));
                    let c2 = upd_ake (\<lambda>a. a\<lparr>ake_r := rr, ake_encryptedGx := enc\<rparr>) (c1\<lparr>c_Rand := r'\<rparr>) in
                    do { out \<leftarrow> serializeDHCommit S c2; Some (Inr out, c2) } }))"

definition serializeDHKey :: "conversation \<Rightarrow> bytes option" where
  "serializeDHKey c =
     do { a \<leftarrow> c_ake c; gy \<leftarrow> ake_ourPublicValue a; Some (dhKey_serialize \<lparr>dk_gy = gy\<rparr>) }"

definition dhKeyMessage :: "suite \<Rightarrow> conversation \<Rightarrow> bytes result" where
  "dhKeyMessage S c =
     (let c0 = initAKE c in
      case randMPI 40 (c_Rand c0) of
        (Inl e, r) \<Rightarrow> Some (Inl e, c0\<lparr>c_Rand := r\<rparr>)
      | (Inr y, r) \<Rightarrow>
          let c1 = setSecretExponent S y (c0\<lparr>c_Rand := r\<rparr>) in
          do { out \<leftarrow> serializeDHKey c1; Some (Inr out, c1) })"

definition incr_ourKeyID :: "conversation \<Rightarrow> conversation" where
  "incr_ourKeyID = upd_ake (\<lambda>a. a\<lparr>ake_keys := (ake_keys a)\<lparr>km_ourKeyID := km_ourKeyID (ake_keys a) + 1\<rparr>\<rparr>)"

definition revealSigMessage :: "suite \<Rightarrow> conversation \<Rightarrow> bytes result" where
  "revealSigMessage S c =
     do { a \<leftarrow> c_ake c; v \<leftarrow> c_version c; s \<leftarrow> calcDHSharedSecret S a;
          let c1 = incr_ourKeyID (calcAKEKeys S s v c) in
          do { a1 \<leftarrow> c_ake c1;
               andThen (generateEncryptedSignature S (ake_revealKey a1) c1)
                 (\<lambda>encryptedSig c2.
                   let macSig = sumHMAC S (ak_m2 (ake_revealKey a1)) encryptedSig v in
                   do { out \<leftarrow> revealSig_serialize \<lparr>rs_r = ake_r a1, rs_encryptedSig = encryptedSig,
                                 rs_macSig = macSig\<rparr> v;
                        Some (Inr out, c2) }) } }"

definition sigMessage :: "suite \<Rightarrow> conversation \<Rightarrow> bytes result" where
  "sigMessage S c =
     (let c1 = incr_ourKeyID c in
      do { a1 \<leftarrow> c_ake c1; v \<leftarrow> c_version c1;
           andThen (generateEncryptedSignature S (ake_sigKey a1) c1)
             (\<lambda>encryptedSig c2.
               let macSig = sumHMAC S (ak_m2 (ake_sigKey a1)) encryptedSig v in
               do { out \<leftarrow> sig_serialize \<lparr>sg_encryptedSig = encryptedSig, sg_macSig = macSig\<rparr> v;
                    Some (Inr out, c2) }) })"

section \<open>ake.go: processing messages\<close>

text \<open>A method that only returns an error: \<open>Inr ()\<close> is nil.\<close>

definition processDHCommit :: "bytes \<Rightarrow> conversation \<Rightarrow> unit result" where
  "processDHCommit msg c =
     (case dhCommit_deserialize msg of
        Inl e \<Rightarrow> Some (Inl e, c)
      | Inr m \<Rightarrow>
          if c_ake c = None then None
          else Some (Inr (), upd_ake (\<lambda>a. a\<lparr>ake_encryptedGx := dc_encryptedGx m,
                                            ake_xhashedGx := dc_yhashedGx m\<rparr>) c))"

definition processDHKey :: "suite \<Rightarrow> bytes \<Rightarrow> conversation \<Rightarrow> bool result" where
  "processDHKey S msg c =
     (case dhKey_deserialize msg of
        Inl e \<Rightarrow> Some (Inl e, c)
      | Inr m \<Rightarrow>
          if \<not> isGroupElement S (dk_gy m) then Some (Inl (newOtrError ''DH value out of range''), c)
          else do { a \<leftarrow> c_ake c;
                    case ake_theirPublicValue a of
                      Some t \<Rightarrow> Some (Inr (eq t (dk_gy m)), c)
                    | None \<Rightarrow> Some (Inr False, upd_ake (\<lambda>a. a\<lparr>ake_theirPublicValue := Some (dk_gy m)\<rparr>) c) })"

text \<open>\<^verbatim>\<open>extractGx\<close> returns the value (nil when none could be read) together with the error.\<close>

definition extractGx :: "suite \<Rightarrow> bytes \<Rightarrow> int option \<times> go_error option" where
  "extractGx S decryptedGx =
     (case ExtractMPI decryptedGx of
        None \<Rightarrow> (None, Some (newOtrError ''gx corrupt after decryption''))
      | Some (newData, gx) \<Rightarrow>
          if newData \<noteq> [] then (Some gx, Some (newOtrError ''gx corrupt after decryption''))
          else if \<not> isGroupElement S gx then (Some gx, Some (newOtrError ''DH value out of range''))
          else (Some gx, None))"

definition checkDecryptedGx :: "suite \<Rightarrow> bytes \<Rightarrow> bytes \<Rightarrow> otrVersion \<Rightarrow> go_error option" where
  "checkDecryptedGx S decryptedGx hashedGx v =
     (if v_hash2 S v decryptedGx \<noteq> hashedGx
      then Some (newOtrError ''bad commit MAC in reveal signature message'') else None)"

definition verifyEncryptedSignatureMAC ::
    "suite \<Rightarrow> bytes \<Rightarrow> bytes \<Rightarrow> akeKeys \<Rightarrow> otrVersion \<Rightarrow> go_error option" where
  "verifyEncryptedSignatureMAC S encryptedSig theirMAC keys v =
     (if take (truncateLength v) (sumHMAC S (ak_m2 keys) (AppendData [] encryptedSig) v) \<noteq> theirMAC
      then Some (newOtrError ''bad signature MAC in encrypted signature'') else None)"

text \<open>The parsed key is stored whatever the outcome; it is a new struct, at a new address.\<close>

definition parseTheirKey :: "bytes \<Rightarrow> conversation \<Rightarrow> (bytes \<times> uint32) result" where
  "parseTheirKey key c =
     (case ParsePublicKey (c_alloc c) key of
        (rest, ok1, pub) \<Rightarrow>
          let c1 = c\<lparr>c_theirKey := pub, c_alloc := c_alloc c + 1\<rparr> in
          (case ExtractWord rest of
             Some (sig, keyID) \<Rightarrow>
               if ok1 then Some (Inr (sig, keyID), c1) else Some (Inl errCorruptEncryptedSignature, c1)
           | None \<Rightarrow> Some (Inl errCorruptEncryptedSignature, c1)))"

definition expectedMessageHMAC :: "suite \<Rightarrow> uint32 \<Rightarrow> akeKeys \<Rightarrow> conversation \<Rightarrow> bytes option" where
  "expectedMessageHMAC S keyID keys c =
     do { a \<leftarrow> c_ake c; their \<leftarrow> ake_theirPublicValue a; our \<leftarrow> ake_ourPublicValue a;
          theirKey \<leftarrow> c_theirKey c; v \<leftarrow> c_version c;
          Some (sumHMAC S (ak_m1 keys) (appendAll their our theirKey keyID) v) }"

definition checkedSignatureVerification :: "suite \<Rightarrow> bytes \<Rightarrow> bytes \<Rightarrow> conversation \<Rightarrow> go_error option option" where
  "checkedSignatureVerification S mb sig c =
     do { theirKey \<leftarrow> c_theirKey c; (rest, ok) \<leftarrow> key_Verify S theirKey mb sig;
          Some (if \<not> ok then Some (newOtrError ''bad signature in encrypted signature'')
                else if rest \<noteq> [] then Some errCorruptEncryptedSignature
                else None) }"

definition processEncryptedSig ::
    "suite \<Rightarrow> bytes \<Rightarrow> bytes \<Rightarrow> akeKeys \<Rightarrow> conversation \<Rightarrow> unit result" where
  "processEncryptedSig S encryptedSig theirMAC keys c =
     do { v \<leftarrow> c_version c;
          case verifyEncryptedSignatureMAC S encryptedSig theirMAC keys v of
            Some e \<Rightarrow> Some (Inl e, c)
          | None \<Rightarrow>
              (case decrypt S (fixedSize (keyLength v) (ak_c keys)) encryptedSig of
                 Inl e \<Rightarrow> Some (Inl e, c)
               | Inr decryptedSig \<Rightarrow>
                   andThen (parseTheirKey decryptedSig c)
                     (\<lambda>(sig, keyID) c1.
                       do { mb \<leftarrow> expectedMessageHMAC S keyID keys c1;
                            e \<leftarrow> checkedSignatureVerification S mb sig c1;
                            case e of
                              Some err \<Rightarrow> Some (Inl err, c1)
                            | None \<Rightarrow>
                                Some (Inr (), upd_ake (\<lambda>a. a\<lparr>ake_keys := (ake_keys a)\<lparr>km_theirKeyID := keyID\<rparr>\<rparr>) c1) })) }"

definition wrap_error :: "string \<Rightarrow> 'a result \<Rightarrow> 'a result" where
  "wrap_error pre res =
     (case res of Some (Inl e, c) \<Rightarrow> Some (Inl (newOtrError (pre @ go_Error e)), c) | _ \<Rightarrow> res)"

definition processRevealSig :: "suite \<Rightarrow> bytes \<Rightarrow> conversation \<Rightarrow> unit result" where
  "processRevealSig S msg c =
     do { v \<leftarrow> c_version c;
          case revealSig_deserialize msg v of
            Inl e \<Rightarrow> Some (Inl e, c)
          | Inr m \<Rightarrow>
          do { a \<leftarrow> c_ake c;
            case decrypt S (rs_r m) (ake_encryptedGx a) of
              Inl e \<Rightarrow> Some (Inl e, c)
            | Inr decryptedGx \<Rightarrow>
            (case checkDecryptedGx S decryptedGx (ake_xhashedGx a) v of
               Some e \<Rightarrow> Some (Inl e, c)
             | None \<Rightarrow>
               (case extractGx S decryptedGx of
                  (gx, e) \<Rightarrow>
                    let c1 = upd_ake (\<lambda>a. a\<lparr>ake_theirPublicValue := gx\<rparr>) c in
                    (case e of
                       Some err \<Rightarrow> Some (Inl err, c1)
                     | None \<Rightarrow>
                         do { a1 \<leftarrow> c_ake c1; s \<leftarrow> calcDHSharedSecret S a1;
                              let c2 = calcAKEKeys S s v c1 in
                              do { a2 \<leftarrow> c_ake c2;
                                   wrap_error ''in reveal signature message: ''
                                     (processEncryptedSig S (rs_encryptedSig m) (rs_macSig m) (ake_revealKey a2) c2) } }))) } }"

definition processSig :: "suite \<Rightarrow> bytes \<Rightarrow> conversation \<Rightarrow> unit result" where
  "processSig S msg c =
     (case sig_deserialize msg of
        Inl e \<Rightarrow> Some (Inl e, c)
      | Inr m \<Rightarrow>
          do { a \<leftarrow> c_ake c;
               wrap_error ''in signature message: ''
                 (processEncryptedSig S (sg_encryptedSig m) (sg_macSig m) (ake_sigKey a) c) })"

section \<open>auth_state_machine.go\<close>

text \<open>What a state's handler returns: the next state, the answer (nil when there is none) and the
  error.\<close>

type_synonym auth_result = "((authState \<times> bytes option \<times> go_error option) \<times> conversation) option"

definition c_generateNewDHKeyPair :: "suite \<Rightarrow> conversation \<Rightarrow> go_error option \<times> conversation" where
  "c_generateNewDHKeyPair S c =
     (case generateNewDHKeyPair S (c_Rand c) (c_keys c) of
        (e, r, k) \<Rightarrow> (e, c\<lparr>c_Rand := r, c_keys := k\<rparr>))"

definition akeHasFinished :: "suite \<Rightarrow> conversation \<Rightarrow> (go_error option \<times> conversation) option" where
  "akeHasFinished S c =
     do { a \<leftarrow> c_ake c;
          let c1 = upd_ake (ake_wipe False) (c\<lparr>c_keys := ake_keys a\<rparr>);
              previousMsgState = c_msgState c1;
              (t, c2) = time_Now c1;
              c3 = c2\<lparr>c_lastMessageStateChange := t, c_msgState := encrypted\<rparr>
          in do { ourKey \<leftarrow> c_ourCurrentKey c3;
                  let c4 = (if IsSame (sk_DSAPublicKey ourKey) (c_theirKey c3)
                            then messageEvent MessageEventMessageReflected [] c3 else c3)
                  in (case c_generateNewDHKeyPair S c4 of
                        (e, c5) \<Rightarrow>
                          Some (e, signalSecurityEventIf (previousMsgState \<noteq> encrypted) GoneSecure
                                     (signalSecurityEventIf (previousMsgState = encrypted) StillSecure c5))) } }"

text \<open>A step that fails keeps the state \<open>s\<close>; \<open>k\<close> continues with the result.\<close>

definition or_keep :: "authState \<Rightarrow> 'a result \<Rightarrow> ('a \<Rightarrow> conversation \<Rightarrow> auth_result) \<Rightarrow> auth_result" where
  "or_keep s m k =
     (case m of
        None \<Rightarrow> None
      | Some (Inl e, c) \<Rightarrow> Some ((s, None, Some e), c)
      | Some (Inr x, c) \<Rightarrow> k x c)"

definition receiveDHCommit_None :: "suite \<Rightarrow> bytes \<Rightarrow> conversation \<Rightarrow> auth_result" where
  "receiveDHCommit_None S msg c =
     or_keep authStateNone (dhKeyMessage S (upd_ake (ake_wipe True) c))
       (\<lambda>body c1. or_keep authStateNone (wrapMessageHeader msgTypeDHKey body c1)
         (\<lambda>dhKeyMsg c2. or_keep authStateNone (processDHCommit msg c2)
           (\<lambda>_ c3. Some ((authStateAwaitingRevealSig, Some dhKeyMsg, None), c3))))"

definition receiveDHCommit_AwaitingRevealSig :: "suite \<Rightarrow> bytes \<Rightarrow> conversation \<Rightarrow> auth_result" where
  "receiveDHCommit_AwaitingRevealSig S msg c =
     or_keep authStateAwaitingRevealSig
       (processDHCommit msg (upd_ake (\<lambda>a. wipeGX (a\<lparr>ake_keys := wipeAndKeepRevealKeys (ake_keys a)\<rparr>)) c))
       (\<lambda>_ c1. do { body \<leftarrow> serializeDHKey c1;
          or_keep authStateAwaitingRevealSig (wrapMessageHeader msgTypeDHKey body c1)
            (\<lambda>dhKeyMsg c2. Some ((authStateAwaitingRevealSig, Some dhKeyMsg, None), c2)) })"

text \<open>\<^verbatim>\<open>bytes.Compare\<close> is the lexicographic order.\<close>

fun bytes_gt :: "bytes \<Rightarrow> bytes \<Rightarrow> bool" where
  "bytes_gt [] ys = False"
| "bytes_gt (x # xs) [] = True"
| "bytes_gt (x # xs) (y # ys) = (y < x \<or> (x = y \<and> bytes_gt xs ys))"

definition receiveDHCommit_AwaitingDHKey :: "suite \<Rightarrow> bytes \<Rightarrow> conversation \<Rightarrow> auth_result" where
  "receiveDHCommit_AwaitingDHKey S msg c =
     (case ExtractData msg of
        None \<Rightarrow> Some ((authStateAwaitingDHKey, None, Some errInvalidOTRMessage), c)
      | Some (newMsg, _) \<Rightarrow>
     (case ExtractData newMsg of
        None \<Rightarrow> Some ((authStateAwaitingDHKey, None, Some errInvalidOTRMessage), c)
      | Some (_, theirHashedGx) \<Rightarrow>
          do { a \<leftarrow> c_ake c; gx \<leftarrow> ake_ourPublicValue a; v \<leftarrow> c_version c;
               if bytes_gt (v_hash2 S v (AppendMPI [] gx)) theirHashedGx
               then do { body \<leftarrow> serializeDHCommit S c;
                         or_keep authStateAwaitingDHKey (wrapMessageHeader msgTypeDHCommit body c)
                           (\<lambda>dhCommitMsg c1. Some ((authStateAwaitingRevealSig, Some dhCommitMsg, None), c1)) }
               else receiveDHCommit_None S msg c }))"

definition receiveDHCommitMessage :: "suite \<Rightarrow> authState \<Rightarrow> bytes \<Rightarrow> conversation \<Rightarrow> auth_result" where
  "receiveDHCommitMessage S s msg c =
     (case s of
        authStateNone \<Rightarrow> receiveDHCommit_None S msg c
      | authStateAwaitingDHKey \<Rightarrow> receiveDHCommit_AwaitingDHKey S msg c
      | authStateAwaitingRevealSig \<Rightarrow> receiveDHCommit_AwaitingRevealSig S msg c
      | authStateAwaitingSig _ \<Rightarrow> receiveDHCommit_None S msg c)"

text \<open>\<^verbatim>\<open>setTheirCurrentDHPubKey\<close> and \<^verbatim>\<open>setOurCurrentDHKeys\<close> on \<^verbatim>\<open>c.ake.keys\<close>; copying a nil value panics.\<close>

definition setDHKeys :: "conversation \<Rightarrow> conversation option" where
  "setDHKeys c =
     do { a \<leftarrow> c_ake c; t \<leftarrow> ake_theirPublicValue a; x \<leftarrow> ake_secretExponent a; g \<leftarrow> ake_ourPublicValue a;
          Some (upd_ake (\<lambda>a. a\<lparr>ake_keys := setOurCurrentDHKeys x g (setTheirCurrentDHPubKey t (ake_keys a))\<rparr>) c) }"

definition receiveDHKeyMessage :: "suite \<Rightarrow> authState \<Rightarrow> bytes \<Rightarrow> conversation \<Rightarrow> auth_result" where
  "receiveDHKeyMessage S s msg c =
     (case s of
        authStateAwaitingDHKey \<Rightarrow>
          or_keep s (processDHKey S msg c)
            (\<lambda>_ c1. or_keep s (revealSigMessage S c1)
              (\<lambda>body c2. or_keep s (wrapMessageHeader msgTypeRevealSig body c2)
                (\<lambda>revealSigMsg c3.
                  do { c4 \<leftarrow> setDHKeys c3;
                       Some ((authStateAwaitingSig revealSigMsg, Some revealSigMsg, None),
                             c4\<lparr>c_sentRevealSig := True\<rparr>) })))
      | authStateAwaitingSig revealSigMsg \<Rightarrow>
          or_keep s (processDHKey S msg c)
            (\<lambda>isSame c1. Some ((s, if isSame then Some revealSigMsg else None, None), c1))
      | _ \<Rightarrow> Some ((s, None, None), c))"

definition receiveRevealSigMessage :: "suite \<Rightarrow> authState \<Rightarrow> bytes \<Rightarrow> conversation \<Rightarrow> auth_result" where
  "receiveRevealSigMessage S s msg c =
     (case s of
        authStateAwaitingRevealSig \<Rightarrow>
          or_keep s (processRevealSig S msg c)
            (\<lambda>_ c1. or_keep s (sigMessage S c1)
              (\<lambda>body c2. or_keep s (wrapMessageHeader msgTypeSig body c2)
                (\<lambda>sigMsg c3.
                  do { c4 \<leftarrow> setDHKeys c3;
                       (e, c5) \<leftarrow> akeHasFinished S (c4\<lparr>c_sentRevealSig := False\<rparr>);
                       Some ((authStateNone, Some sigMsg, e), c5) })))
      | _ \<Rightarrow> Some ((s, None, None), c))"

definition receiveSigMessage :: "suite \<Rightarrow> authState \<Rightarrow> bytes \<Rightarrow> conversation \<Rightarrow> auth_result" where
  "receiveSigMessage S s msg c =
     (case s of
        authStateAwaitingSig _ \<Rightarrow>
          or_keep s (processSig S msg c)
            (\<lambda>_ c1. do { a \<leftarrow> c_ake c1; t \<leftarrow> ake_theirPublicValue a;
               (e, c2) \<leftarrow> akeHasFinished S
                 (upd_ake (\<lambda>a. a\<lparr>ake_keys := setTheirCurrentDHPubKey t (ake_keys a)\<rparr>) c1);
               Some ((authStateNone, None, e), c2) })
      | _ \<Rightarrow> Some ((s, None, None), c))"

text \<open>The state returned by a handler is stored in the \<^verbatim>\<open>ake\<close> struct the conversation has then
  (the handler may have put a new one in place).\<close>

definition store_state :: "authState \<Rightarrow> conversation \<Rightarrow> conversation" where
  "store_state s = upd_ake (\<lambda>a. a\<lparr>ake_state := s\<rparr>)"

definition hex_byte :: "byte \<Rightarrow> string" where
  "hex_byte b =
     (let dig = (\<lambda>d. char_of (if d < 10 then 48 + d else 55 + d :: nat)); n = unat b
      in if n < 16 then [dig n] else [dig (n div 16), dig (n mod 16)])"

definition processAKE :: "suite \<Rightarrow> byte \<Rightarrow> bytes \<Rightarrow> conversation \<Rightarrow>
    ((bytes list \<times> go_error option) \<times> conversation) option" where
  "processAKE S msgType msg c0 =
     (let c = ensureAKE c0 in
      do { a \<leftarrow> c_ake c;
           ((toSendSingle, toSendExtra, err), c3) \<leftarrow>
             (if msgType = msgTypeDHCommit
              then do { ((s, m, e), c1) \<leftarrow> receiveDHCommitMessage S (ake_state a) msg c;
                        Some ((m, [], e), store_state s c1) }
              else if msgType = msgTypeDHKey
              then do { ((s, m, e), c1) \<leftarrow> receiveDHKeyMessage S (ake_state a) msg c;
                        Some ((m, [], e), store_state s c1) }
              else if msgType = msgTypeRevealSig
              then do { ((s, m, e), c1) \<leftarrow> receiveRevealSigMessage S (ake_state a) msg c;
                        (ex, c2) \<leftarrow> maybeRetransmit S (store_state s c1);
                        Some ((m, (case ex of Inl _ \<Rightarrow> [] | Inr xs \<Rightarrow> xs), e), c2) }
              else if msgType = msgTypeSig
              then do { ((s, m, e), c1) \<leftarrow> receiveSigMessage S (ake_state a) msg c;
                        (ex, c2) \<leftarrow> maybeRetransmit S (store_state s c1);
                        Some ((m, (case ex of Inl _ \<Rightarrow> [] | Inr xs \<Rightarrow> xs), e), c2) }
              else Some ((None, [], Some (newOtrError (''unknown message type 0x'' @ hex_byte msgType))), c));
           let (t, c4) = time_Now c3;
               c5 = upd_ake (\<lambda>a. a\<lparr>ake_lastStateChange := t\<rparr>) c4
           in Some ((compactMessagesWithHeader (toSendSingle # toSendExtra), err), c5) })"

definition sendDHCommit :: "suite \<Rightarrow> conversation \<Rightarrow> bytes result" where
  "sendDHCommit S c =
     andThen (dhCommitMessage S (c\<lparr>c_ake := None\<rparr>))
       (\<lambda>body c1. andThen (wrapMessageHeader msgTypeDHCommit body c1)
         (\<lambda>toSend c2. Some (Inr toSend, store_state authStateAwaitingDHKey c2)))"

end
