(* ===== verification/Debug.thy ===== *)
theory Debug
  imports Conversation
begin

text \<open>
  The debug output of \<^verbatim>\<open>debug.go\<close>: what \<^verbatim>\<open>Send\<close> of the debug string writes to standard error. The
  functions yield the text written; they panic on a conversation without a version and, while a
  key exchange is going on, on one whose peer has no known key.
\<close>

definition debugString :: bytes where
  "debugString = str ''?OTR!''"

definition debugPrefix :: bytes where
  "debugPrefix = str ''[DEBUG] ''"

definition SetDebug :: "bool \<Rightarrow> conversation \<Rightarrow> conversation" where
  "SetDebug d c = c\<lparr>c_debug := d\<rparr>"

definition otrOffer :: "conversation \<Rightarrow> bytes" where
  "otrOffer c =
     (case c_whitespaceState c of
        whitespaceNotSent \<Rightarrow> str ''NOT''
      | whitespaceSent \<Rightarrow> if c_msgState c = encrypted then str ''ACCEPTED'' else str ''SENT''
      | whitespaceRejected \<Rightarrow> str ''REJECTED'')"

fun smpState_identity :: "smpState \<Rightarrow> nat" where
  "smpState_identity smpStateExpect1 = 0"
| "smpState_identity smpStateExpect2 = 2"
| "smpState_identity smpStateExpect3 = 3"
| "smpState_identity smpStateExpect4 = 4"
| "smpState_identity (smpStateWaitingForSecret m) = 1"

fun smpState_identityString :: "smpState \<Rightarrow> bytes" where
  "smpState_identityString smpStateExpect1 = str ''EXPECT1''"
| "smpState_identityString smpStateExpect2 = str ''EXPECT2''"
| "smpState_identityString smpStateExpect3 = str ''EXPECT3''"
| "smpState_identityString smpStateExpect4 = str ''EXPECT4''"
| "smpState_identityString (smpStateWaitingForSecret m) = str ''EXPECT1_WQ''"

fun authState_identity :: "authState \<Rightarrow> nat" where
  "authState_identity authStateNone = 0"
| "authState_identity authStateAwaitingDHKey = 1"
| "authState_identity authStateAwaitingRevealSig = 2"
| "authState_identity (authStateAwaitingSig m) = 3"

fun authState_identityString :: "authState \<Rightarrow> bytes" where
  "authState_identityString authStateNone = str ''NONE''"
| "authState_identityString authStateAwaitingDHKey = str ''AWAITING_DHKEY''"
| "authState_identityString authStateAwaitingRevealSig = str ''AWAITING_REVEALSIG''"
| "authState_identityString (authStateAwaitingSig m) = str ''AWAITING_SIG''"

text \<open>The constants of \<^verbatim>\<open>msgState\<close> in their order, printed with \<^verbatim>\<open>%d\<close>.\<close>

fun msgState_number :: "msgState \<Rightarrow> nat" where
  "msgState_number plainText = 0"
| "msgState_number encrypted = 1"
| "msgState_number finished = 2"

fun msgState_identityString :: "msgState \<Rightarrow> bytes" where
  "msgState_identityString plainText = str ''PLAINTEXT''"
| "msgState_identityString encrypted = str ''ENCRYPTED''"
| "msgState_identityString finished = str ''FINISHED''"

text \<open>\<^verbatim>\<open>%d\<close>, \<^verbatim>\<open>%08X\<close> of a number, \<^verbatim>\<open>%X\<close> of a byte slice.\<close>

definition fmt_d :: "nat \<Rightarrow> bytes" where
  "fmt_d n = fmt_num 10 1 n"

definition fmt_08X :: "uint32 \<Rightarrow> bytes" where
  "fmt_08X n = map upper (fmt_num 16 8 (unat n))"

definition fmt_hex :: "bytes \<Rightarrow> bytes" where
  "fmt_hex bs = concat (map (\<lambda>b. map upper (fmt_num 16 2 (unat b))) bs)"

definition dumpAKE :: "suite \<Rightarrow> conversation \<Rightarrow> bytes option" where
  "dumpAKE S c =
     do { theirKey \<leftarrow> c_theirKey c; v \<leftarrow> c_version c;
          Some (str ''  Auth info:'' @ [10]
            @ (case c_ake c of
                 None \<Rightarrow> []
               | Some a \<Rightarrow> str ''    State: '' @ fmt_d (authState_identity (ake_state a)) @ str '' (''
                   @ authState_identityString (ake_state a) @ str '')'' @ [10])
            @ str ''    Our keyid:   '' @ fmt_d (unat (km_ourKeyID (c_keys c))) @ [10]
            @ str ''    Their keyid: '' @ fmt_d (unat (km_theirKeyID (c_keys c))) @ [10]
            @ str ''    Their fingerprint: '' @ fmt_hex (Fingerprint S theirKey) @ [10]
            @ str ''    Proto version = '' @ fmt_d (unat (protocolVersion v)) @ [10]) }"

definition dumpSMP :: "conversation \<Rightarrow> bytes" where
  "dumpSMP c =
     str ''  SM state:'' @ [10]
     @ (case smp_state (c_smp c) of
          None \<Rightarrow> []
        | Some st \<Rightarrow> str ''    Next expected: '' @ fmt_d (smpState_identity st) @ str '' (''
            @ smpState_identityString st @ str '')'' @ [10])
     @ str ''    Received_Q: '' @ fmt_d (if smp_question (c_smp c) = None then 0 else 1) @ [10]"

definition dump :: "suite \<Rightarrow> conversation \<Rightarrow> bytes option" where
  "dump S c =
     do { v \<leftarrow> c_version c;
          auth \<leftarrow> (if c_ake c = None then Some (str ''  Auth info: NULL'' @ [10]) else dumpAKE S c);
          Some (str ''Context:'' @ [10, 10]
            @ str ''  Our instance:   '' @ fmt_08X (c_ourInstanceTag c) @ [10]
            @ str ''  Their instance: '' @ fmt_08X (c_theirInstanceTag c) @ [10, 10]
            @ str ''  Msgstate: '' @ fmt_d (msgState_number (c_msgState c)) @ str '' (''
            @ msgState_identityString (c_msgState c) @ str '')'' @ [10, 10]
            @ str ''  Protocol version: '' @ fmt_d (unat (protocolVersion v)) @ [10]
            @ str ''  OTR offer: '' @ otrOffer c @ [10, 10]
            @ auth @ [10] @ dumpSMP c) }"

lemma dump_panics_iff: "dump S c = None \<longleftrightarrow> c_version c = None \<or> c_ake c \<noteq> None \<and> c_theirKey c = None"
  by (cases "c_version c"; cases "c_theirKey c") (simp_all add: dump_def dumpAKE_def)

end
