(* ===== verification/Receive.thy ===== *)
theory Receive
  imports Ake Debug
begin

text \<open>
  The entry points \<^verbatim>\<open>Receive\<close> and \<^verbatim>\<open>Send\<close>: \<^verbatim>\<open>message_type.go\<close>, \<^verbatim>\<open>whitespace.go\<close>, \<^verbatim>\<open>query.go\<close>,
  \<^verbatim>\<open>receive.go\<close> and \<^verbatim>\<open>send.go\<close>.

  \<^verbatim>\<open>receiveUnit\<close> calls itself on the contents of a completed fragment sequence, and it need not
  end: the model takes fuel, one unit per nested call, and a run that needs more than it is
  given is \<open>OutOfFuel\<close>.
\<close>

section \<open>message_type.go\<close>

datatype messageTypeGuess =
    msgGuessNotOTR | msgGuessTaggedPlaintext | msgGuessQuery | msgGuessDHCommit | msgGuessDHKey
  | msgGuessRevealSig | msgGuessSignature | msgGuessV1KeyExch | msgGuessData | msgGuessError
  | msgGuessFragment | msgGuessUnknown

text \<open>whitespace.go: one byte as eight blanks (0) and tabs (1), the highest bit first.\<close>

definition convertToWhitespace :: "bytes \<Rightarrow> bytes" where
  "convertToWhitespace v = concat (map (\<lambda>b. map (\<lambda>i. if bit b i then 9 else 32) (rev [0..<8])) v)"

definition whitespaceTagHeader :: bytes where
  "whitespaceTagHeader = convertToWhitespace (str ''OT'')"

definition guessMessageType :: "bytes \<Rightarrow> messageTypeGuess" where
  "guessMessageType msg =
     (if HasPrefix msg (str ''?OTR'') then
        (if HasPrefix msg (str ''?OTR:AAMC'') then msgGuessDHCommit
         else if HasPrefix msg (str ''?OTR:AAIC'') then msgGuessDHCommit
         else if HasPrefix msg (str ''?OTR:AAMK'') then msgGuessDHKey
         else if HasPrefix msg (str ''?OTR:AAIK'') then msgGuessDHKey
         else if HasPrefix msg (str ''?OTR:AAMR'') then msgGuessRevealSig
         else if HasPrefix msg (str ''?OTR:AAIR'') then msgGuessRevealSig
         else if HasPrefix msg (str ''?OTR:AAMS'') then msgGuessSignature
         else if HasPrefix msg (str ''?OTR:AAIS'') then msgGuessSignature
         else if HasPrefix msg (str ''?OTR:AAED'') then msgGuessData
         else if HasPrefix msg (str ''?OTR:AAID'') then msgGuessData
         else if HasPrefix msg (str ''?OTR:AAMD'') then msgGuessData
         else if HasPrefix msg (str ''?OTR?'') then msgGuessQuery
         else if HasPrefix msg (str ''?OTRv'') then msgGuessQuery
         else if HasPrefix msg (str ''?OTR:AAEK'') then msgGuessV1KeyExch
         else if HasPrefix msg (str ''?OTR Error:'') then msgGuessError
         else if HasPrefix msg (str ''?OTR|'') then msgGuessFragment
         else if HasPrefix msg (str ''?OTR,'') then msgGuessFragment
         else msgGuessUnknown)
      else if bytes_Index msg whitespaceTagHeader \<noteq> None then msgGuessTaggedPlaintext
      else msgGuessNotOTR)"

section \<open>whitespace.go\<close>

definition otrV2_whitespaceTag :: bytes where
  [simp]: "otrV2_whitespaceTag = convertToWhitespace (str ''2'')"

fun whitespaceTag :: "otrVersion \<Rightarrow> bytes" where
  "whitespaceTag OtrV2 = otrV2_whitespaceTag"
| "whitespaceTag OtrV3 = convertToWhitespace (str ''3'')"

definition genWhitespaceTag :: "int \<Rightarrow> bytes" where
  "genWhitespaceTag p =
     whitespaceTagHeader
       @ (if has_policy p allowV2 then whitespaceTag OtrV2 else [])
       @ (if has_policy p allowV3 then whitespaceTag OtrV3 else [])"

definition appendWhitespaceTag :: "bytes \<Rightarrow> conversation \<Rightarrow> bytes \<times> conversation" where
  "appendWhitespaceTag message c =
     (if \<not> has_policy (c_Policies c) sendWhitespaceTag \<or> c_whitespaceState c = whitespaceRejected
      then (message, c)
      else (message @ genWhitespaceTag (c_Policies c), c\<lparr>c_whitespaceState := whitespaceSent\<rparr>))"

definition nextAllWhite :: "bytes \<Rightarrow> (bytes \<times> bytes) option" where
  "nextAllWhite data =
     (if length data < 8 then None
      else if \<exists>b \<in> set (take 8 data). b \<noteq> 32 \<and> b \<noteq> 9 then None
      else Some (take 8 data, drop 8 data))"

function whitespace_versions :: "bytes \<Rightarrow> int \<Rightarrow> bytes \<times> int" where
  "whitespace_versions currentData versions =
     (case nextAllWhite currentData of
        None \<Rightarrow> (currentData, versions)
      | Some (aw, r) \<Rightarrow>
          whitespace_versions r
            (if aw = whitespaceTag OtrV3 then versions OR 8
             else if aw = whitespaceTag OtrV2 then versions OR 4
             else versions))"
  by pat_completeness auto
termination
  by (relation "measure (\<lambda>(d, v). length d)") (auto simp: nextAllWhite_def split: if_splits)

declare whitespace_versions.simps [simp del]

text \<open>Called on messages that have the tag; without one the Go code slices from index \<open>-1 + 16\<close>.\<close>

definition extractWhitespaceTag :: "bytes \<Rightarrow> (bytes \<times> int) option" where
  "extractWhitespaceTag message =
     do { wsPos \<leftarrow> bytes_Index message whitespaceTagHeader;
          let (currentData, versions) =
                whitespace_versions (drop (wsPos + length whitespaceTagHeader) message) 0
          in Some (take wsPos message @ currentData, versions) }"

definition startAKEFromWhitespaceTag ::
    "suite \<Rightarrow> int \<Rightarrow> conversation \<Rightarrow> ((bytes list \<times> go_error option) \<times> conversation) option" where
  "startAKEFromWhitespaceTag S versions c =
     (case commitToVersionFrom versions c of
        (Some e, c1) \<Rightarrow> Some (([], Some e), c1)
      | (None, c1) \<Rightarrow>
          do { (res, c2) \<leftarrow> sendDHCommit S c1;
               Some (potentialAuthError
                 (case res of Inl e \<Rightarrow> ([], Some e) | Inr m \<Rightarrow> ([m], None)) c2) })"

definition processWhitespaceTag :: "suite \<Rightarrow> bytes \<Rightarrow> conversation \<Rightarrow> received option" where
  "processWhitespaceTag S message c =
     do { (plain, versions) \<leftarrow> extractWhitespaceTag message;
          if \<not> has_policy (c_Policies c) whitespaceStartAKE then Some ((Some plain, [], None), c)
          else do { ((toSend, err), c1) \<leftarrow> startAKEFromWhitespaceTag S versions c;
                    Some ((Some plain, toSend, err), c1) } }"

section \<open>query.go\<close>

definition queryMarker :: bytes where
  "queryMarker = str ''?OTR''"

fun query_digits :: "bytes \<Rightarrow> int list" where
  "query_digits [] = []"
| "query_digits (c # cs) = (case Atoi [c] of None \<Rightarrow> query_digits cs | Some v \<Rightarrow> v # query_digits cs)"

definition parseOTRQueryMessage :: "bytes \<Rightarrow> int list" where
  "parseOTRQueryMessage msg =
     (if HasPrefix msg queryMarker \<and> length msg > length queryMarker
      then let versions = drop (length queryMarker) msg;
               (r, versions) = (if hd versions = 63 then ([1], tl versions) else ([], versions))
           in if versions \<noteq> [] \<and> hd versions = 118 then r @ query_digits versions else r
      else [])"

fun query_versions :: "int \<Rightarrow> int list \<Rightarrow> int \<Rightarrow> int" where
  "query_versions p [] versions = versions"
| "query_versions p (v # vs) versions =
     query_versions p vs
       (if v = 3 \<and> has_policy p allowV3 then versions OR 8
        else if v = 2 \<and> has_policy p allowV2 then versions OR 4
        else versions)"

definition extractVersionsFromQueryMessage :: "int \<Rightarrow> bytes \<Rightarrow> int" where
  "extractVersionsFromQueryMessage p msg = query_versions p (parseOTRQueryMessage msg) 0"

definition timeoutLength :: int where
  "timeoutLength = 60 * 10 ^ 9"

definition isWithinTimeToIgnoreQueryMessage :: "int \<Rightarrow> conversation \<Rightarrow> bool \<times> conversation" where
  "isWithinTimeToIgnoreQueryMessage t c = (case time_Now c of (now, c') \<Rightarrow> (t + timeoutLength > now, c'))"

text \<open>The disjunction of \<^verbatim>\<open>receiveQueryMessage\<close>, with the clock read only where it is evaluated.\<close>

definition ignore_query :: "conversation \<Rightarrow> bool \<times> conversation" where
  "ignore_query c =
     (let (b1, c1) = (if c_msgState c = encrypted
                      then isWithinTimeToIgnoreQueryMessage (c_lastMessageStateChange c) c
                      else (False, c))
      in if b1 then (True, c1)
         else (case c_ake c1 of
                 None \<Rightarrow> (False, c1)
               | Some a \<Rightarrow> isWithinTimeToIgnoreQueryMessage (ake_lastStateChange a) c1))"

definition receiveQueryMessage ::
    "suite \<Rightarrow> bytes \<Rightarrow> conversation \<Rightarrow> ((bytes list \<times> go_error option) \<times> conversation) option" where
  "receiveQueryMessage S msg c =
     (case commitToVersionFrom (extractVersionsFromQueryMessage (c_Policies c) msg) c of
        (Some e, c1) \<Rightarrow> Some (([], Some e), c1)
      | (None, c1) \<Rightarrow>
          (case ignore_query c1 of
             (True, c2) \<Rightarrow> Some (([], None), c2)
           | (False, c2) \<Rightarrow>
               do { (res, c3) \<leftarrow> sendDHCommit S c2;
                    Some (potentialAuthError
                      (case res of Inl e \<Rightarrow> ([], Some e) | Inr m \<Rightarrow> ([m], None)) c3) }))"

definition QueryMessage :: "conversation \<Rightarrow> bytes" where
  "QueryMessage c =
     str ''?OTRv''
       @ (if has_policy (c_Policies c) allowV2 then [50] else [])
       @ (if has_policy (c_Policies c) allowV3 then [51] else [])
       @ (if c_friendlyQueryMessage c \<noteq> [] then str ''? '' @ c_friendlyQueryMessage c else str ''?'')"

section \<open>receive.go\<close>

definition withoutPotentialSpaceStart :: "bytes \<Rightarrow> bytes" where
  "withoutPotentialSpaceStart msg = (case msg of [] \<Rightarrow> [] | b # r \<Rightarrow> if b = 32 then r else msg)"

definition receiveErrorMessage :: "bytes \<Rightarrow> conversation \<Rightarrow> received" where
  "receiveErrorMessage message c =
     (let msg = drop (length errorMarker) message;
          toSend = (if has_policy (c_Policies c) errorStartAKE then [QueryMessage c] else []);
          c1 = (if c_msgState c = encrypted then updateMayRetransmitTo retransmitWithPrefix c else c)
      in ((None, toSend, None),
          messageEventWithMessage MessageEventReceivedMessageGeneralError (withoutPotentialSpaceStart msg) c1))"

fun encodeAndCombine :: "bytes list \<Rightarrow> conversation \<Rightarrow> bytes list option" where
  "encodeAndCombine [] c = Some []"
| "encodeAndCombine (ts # rest) c =
     do { a \<leftarrow> fragEncode ts c; b \<leftarrow> encodeAndCombine rest c; Some (a @ b) }"

definition toSendEncoded :: "received \<Rightarrow> received option" where
  "toSendEncoded res =
     (case res of ((plain, toSend, err), c) \<Rightarrow>
        if err \<noteq> None \<or> toSend = [] \<or> hd toSend = [] then Some ((plain, [], err), c)
        else do { ms \<leftarrow> encodeAndCombine toSend c; Some ((plain, ms, err), c) })"

definition withInjectionsPlain :: "received \<Rightarrow> received" where
  "withInjectionsPlain res =
     (case res of ((plain, vms, err), c) \<Rightarrow>
        (case withInjects vms c of (ms, c') \<Rightarrow> ((plain, ms, err), c')))"

definition checkPlaintextPolicies :: "bytes \<Rightarrow> conversation \<Rightarrow> conversation" where
  "checkPlaintextPolicies plain c =
     (let c1 = (if c_whitespaceState c = whitespaceSent then c\<lparr>c_whitespaceState := whitespaceRejected\<rparr> else c)
      in if c_msgState c1 \<noteq> plainText \<or> has_policy (c_Policies c1) requireEncryption
         then messageEventWithMessage MessageEventReceivedMessageUnencrypted plain c1 else c1)"

definition receivePlaintext :: "bytes \<Rightarrow> conversation \<Rightarrow> received" where
  "receivePlaintext message c = ((Some message, [], None), checkPlaintextPolicies message c)"

definition receiveTaggedPlaintext :: "suite \<Rightarrow> bytes \<Rightarrow> conversation \<Rightarrow> received option" where
  "receiveTaggedPlaintext S message c =
     do { ((plain, toSend, err), c1) \<leftarrow> processWhitespaceTag S message c;
          Some ((plain, toSend, err), checkPlaintextPolicies (case plain of None \<Rightarrow> [] | Some p \<Rightarrow> p) c1) }"

definition removeOTRMsgEnvelope :: "bytes \<Rightarrow> bytes option" where
  "removeOTRMsgEnvelope msg = (if msg = [] then None else slice msg (length msgMarker) (length msg - 1))"

definition decode :: "bytes \<Rightarrow> (go_error + bytes) option" where
  "decode enc =
     do { body \<leftarrow> removeOTRMsgEnvelope enc;
          Some (case b64decode body of None \<Rightarrow> Inl errInvalidOTRMessage | Some msg \<Rightarrow> Inr msg) }"

definition receiveAKEMessage :: "suite \<Rightarrow> byte \<Rightarrow> bytes \<Rightarrow> conversation \<Rightarrow> received option" where
  "receiveAKEMessage S msgType body c =
     do { (res, c1) \<leftarrow> processAKE S msgType body c;
          case potentialAuthError res c1 of
            ((toSend, err), c2) \<Rightarrow> Some ((None, toSend, err), c2) }"

definition receiveDecoded :: "suite \<Rightarrow> bytes \<Rightarrow> conversation \<Rightarrow> received option" where
  "receiveDecoded S message c =
     (case checkVersion message c of
        (Some e, c1) \<Rightarrow> Some ((None, [], Some e), c1)
      | (None, c1) \<Rightarrow>
          do { (res, c2) \<leftarrow> parseMessageHeader message c1;
               case res of
                 Inl e \<Rightarrow> Some ((None, [], if e = errReceivedMessageForOtherInstance then None else Some e), c2)
               | Inr (header, body) \<Rightarrow>
                   if header ! 2 = msgTypeData then receiveDataMessage S header body c2
                   else receiveAKEMessage S (header ! 2) body c2 })"

definition receiveEncoded :: "suite \<Rightarrow> bytes \<Rightarrow> conversation \<Rightarrow> received option" where
  "receiveEncoded S message c =
     do { d \<leftarrow> decode message;
          case d of Inl e \<Rightarrow> Some ((None, [], Some e), c) | Inr decodedMessage \<Rightarrow> receiveDecoded S decodedMessage c }"

datatype 'a run = OutOfFuel | Finished 'a

fun map_run :: "('a \<Rightarrow> 'b) \<Rightarrow> 'a run \<Rightarrow> 'b run" where
  "map_run f OutOfFuel = OutOfFuel"
| "map_run f (Finished x) = Finished (f x)"

text \<open>The common end of \<^verbatim>\<open>receiveUnit\<close>: reset the fragmentation context if asked to, encode the
  messages to send, append the injected ones.\<close>

definition finish_receive :: "bool \<Rightarrow> received \<Rightarrow> received option" where
  "finish_receive forgetCtx res =
     (case res of ((plain, toSend, err), c) \<Rightarrow>
        let c1 = (if forgetCtx then c\<lparr>c_fragmentationContext := forgetFragment\<rparr> else c)
        in map_option withInjectionsPlain (toSendEncoded ((plain, toSend, err), c1)))"

text \<open>With OTR disabled the returned slice is the local copy itself, which the deferred
  \<^verbatim>\<open>wipeBytes(message)\<close> overwrites with zeros on return; the results of the other branches are
  copies.\<close>

fun receiveUnit :: "suite \<Rightarrow> nat \<Rightarrow> bytes \<Rightarrow> bool \<Rightarrow> conversation \<Rightarrow> received option run" where
  "receiveUnit S 0 message forgetFragments c = OutOfFuel"
| "receiveUnit S (Suc fuel) message forgetFragments c =
     (if \<not> isOTREnabled (c_Policies c)
      then Finished (Some ((Some (replicate (length message) 0), [], None), c))
      else (case guessMessageType message of
        msgGuessError \<Rightarrow> Finished (Some (withInjectionsPlain (receiveErrorMessage message c)))
      | msgGuessQuery \<Rightarrow>
          Finished (do { ((toSend, err), c1) \<leftarrow> receiveQueryMessage S message c;
                         finish_receive forgetFragments ((None, toSend, err), c1) })
      | msgGuessTaggedPlaintext \<Rightarrow>
          Finished (do { res \<leftarrow> receiveTaggedPlaintext S message c; finish_receive forgetFragments res })
      | msgGuessNotOTR \<Rightarrow> Finished (finish_receive forgetFragments (receivePlaintext message c))
      | msgGuessV1KeyExch \<Rightarrow> Finished (Some ((None, [], Some errUnsupportedOTRVersion), c))
      | msgGuessFragment \<Rightarrow>
          (case receiveFragment (c_fragmentationContext c) message c of
             None \<Rightarrow> Finished None
           | Some ((ctx, err), c1) \<Rightarrow>
               let c2 = c1\<lparr>c_fragmentationContext := ctx\<rparr> in
               if fragmentsFinished ctx
               then map_run (map_option withInjectionsPlain) (receiveUnit S fuel (frag ctx) False c2)
               else Finished (finish_receive False ((None, [], err), c2)))
      | msgGuessUnknown \<Rightarrow>
          Finished (finish_receive forgetFragments
            ((None, [], None), messageEvent MessageEventReceivedMessageUnrecognized [] c))
      | _ \<Rightarrow> Finished (do { res \<leftarrow> receiveEncoded S message c; finish_receive forgetFragments res })))"

definition c_Receive :: "suite \<Rightarrow> nat \<Rightarrow> bytes \<Rightarrow> conversation \<Rightarrow> received option run" where
  "c_Receive S fuel m c = receiveUnit S fuel m True c"

section \<open>send.go\<close>

definition sendMessageOnPlaintext :: "bytes \<Rightarrow> nat list \<Rightarrow> conversation \<Rightarrow> (bytes list \<times> go_error option) \<times> conversation" where
  "sendMessageOnPlaintext message trace c =
     (if has_policy (c_Policies c) requireEncryption
      then let c1 = updateLastSent (messageEvent MessageEventEncryptionRequired trace c);
               c2 = lastMessage message trace (updateMayRetransmitTo retransmitExact c1)
           in (([QueryMessage c2], None), c2)
      else (case appendWhitespaceTag message c of (m, c1) \<Rightarrow> (([m], None), c1)))"

definition sendMessageOnEncrypted ::
    "suite \<Rightarrow> bytes \<Rightarrow> conversation \<Rightarrow> ((bytes list \<times> go_error option) \<times> conversation) option" where
  "sendMessageOnEncrypted S message c =
     do { (res, c1) \<leftarrow> createSerializedDataMessage S message messageFlagNormal [] c;
          case res of
            Inl e \<Rightarrow> Some (([], Some e), generatePotentialErrorMessage ErrorCodeEncryptionError
                                           (messageEvent MessageEventEncryptionError [] c1))
          | Inr (ms, _) \<Rightarrow> Some ((ms, None), c1) }"

definition withInjections ::
    "(bytes list \<times> go_error option) \<times> conversation \<Rightarrow> (bytes list \<times> go_error option) \<times> conversation" where
  "withInjections res =
     (case res of ((vms, err), c) \<Rightarrow> (case withInjects vms c of (ms, c') \<Rightarrow> ((ms, err), c')))"

definition c_Send ::
    "suite \<Rightarrow> bytes \<Rightarrow> nat list \<Rightarrow> conversation \<Rightarrow> ((bytes list \<times> go_error option) \<times> conversation) option" where
  "c_Send S message trace c =
     (if \<not> isOTREnabled (c_Policies c) then Some (([message], None), c)
      else if c_debug c \<and> bytes_Index message debugString \<noteq> None then do { _ \<leftarrow> dump S c; Some (([], None), c) }
      else (case c_msgState c of
              plainText \<Rightarrow> Some (withInjections (sendMessageOnPlaintext message trace c))
            | encrypted \<Rightarrow> map_option withInjections (sendMessageOnEncrypted S message c)
            | finished \<Rightarrow>
                Some (withInjections
                  (([], Some (newOtrError ''cannot send message because secure conversation has finished'')),
                   messageEvent MessageEventConnectionEnded [] c))))"

end
