(* ===== verification/Key_Rotation.thy ===== *)
theory Key_Rotation
  imports Key_Management
begin

text \<open>
  What the key context of \<^verbatim>\<open>key_management.go\<close> guarantees over a whole session: the calls made on
  it as a step relation with its invariant, the fate of MAC keys in a rotation, and the counter
  history as a guard against replays.
\<close>

section \<open>Reachable key contexts\<close>

text \<open>One call on the key context of a running session: a message checked, session keys derived
  for any pair of ids a peer names, keys rotated by any message, old MAC keys handed out, our
  counter advanced.\<close>

inductive key_step :: "suite \<Rightarrow> keyManagementContext \<Rightarrow> keyManagementContext \<Rightarrow> bool" for S where
  check: "checkMessageCounter m k = (e, k') \<Longrightarrow> key_step S k k'"
| derive: "keys_calculateDHSessionKeys S i j v k = Some (res, k') \<Longrightarrow> key_step S k k'"
| rotate: "rotateKeys S m r k = Some (e, r', k') \<Longrightarrow> key_step S k k'"
| reveal: "revealMACKeys k = (ks, k') \<Longrightarrow> key_step S k k'"
| count: "incrementOurCounter i j k = k' \<Longrightarrow> key_step S k k'"

inductive key_steps :: "suite \<Rightarrow> keyManagementContext \<Rightarrow> keyManagementContext \<Rightarrow> bool" for S where
  idle: "key_steps S k k"
| more: "key_steps S k k1 \<Longrightarrow> key_step S k1 k2 \<Longrightarrow> key_steps S k k2"

text \<open>Every entry of the MAC-key history is of a pair of ids that can still be used.\<close>

definition usage_current :: "keyManagementContext \<Rightarrow> macKeyUsage \<Rightarrow> bool" where
  "usage_current k u \<longleftrightarrow> mu_ourKeyID u \<in> {km_ourKeyID k, km_ourKeyID k - 1}
     \<and> mu_theirKeyID u \<in> {km_theirKeyID k, km_theirKeyID k - 1}"

definition history_current :: "keyManagementContext \<Rightarrow> bool" where
  "history_current k \<longleftrightarrow> (\<forall>u \<in> set (macKeyHistory k). usage_current k u)"

text \<open>The MAC keys a context answers for: those in use and those waiting to be revealed.\<close>

definition mac_keys :: "keyManagementContext \<Rightarrow> bytes multiset" where
  "mac_keys k = image_mset mu_receivingKey (mset (macKeyHistory k)) + mset (km_oldMACKeys k)"

lemma generateNewDHKeyPair_frame:
  "generateNewDHKeyPair S r k = (e, r', k') \<Longrightarrow>
   macKeyHistory k' = macKeyHistory k \<and> km_oldMACKeys k' = km_oldMACKeys k
   \<and> km_theirKeyID k' = km_theirKeyID k \<and> counterHistory k' = counterHistory k
   \<and> km_ourKeyID k' = (if e = None then km_ourKeyID k + 1 else km_ourKeyID k)"
  by (auto simp: generateNewDHKeyPair_def split: prod.splits sum.splits)

text \<open>What a rotation does to the MAC keys: those of the key ids it retires leave the history and
  are queued, nothing else moves.\<close>

definition retires_our :: "dataMsg \<Rightarrow> keyManagementContext \<Rightarrow> macKeyUsage \<Rightarrow> bool" where
  "retires_our m k u \<longleftrightarrow> dm_recipientKeyID m = km_ourKeyID k \<and> mu_ourKeyID u = km_ourKeyID k - 1"

definition retires_their :: "dataMsg \<Rightarrow> keyManagementContext \<Rightarrow> macKeyUsage \<Rightarrow> bool" where
  "retires_their m k u \<longleftrightarrow> dm_senderKeyID m = km_theirKeyID k \<and> mu_theirKeyID u = km_theirKeyID k - 1"

lemma rotateOurKeys_macs:
  assumes "rotateOurKeys S (dm_recipientKeyID m) r k = Some (e, r', k')"
  shows "mset (macKeyHistory k') = filter_mset (\<lambda>u. \<not> retires_our m k u) (mset (macKeyHistory k))"
    and "km_oldMACKeys k' = km_oldMACKeys k @ map mu_receivingKey (filter (retires_our m k) (macKeyHistory k))"
    and "km_theirKeyID k' = km_theirKeyID k" "counterHistory k' = counterHistory k"
    and "km_ourKeyID k' = (if e = None \<and> dm_recipientKeyID m = km_ourKeyID k then km_ourKeyID k + 1 else km_ourKeyID k)"
proof -
  obtain items where items: "revealMACKeysForOurPreviousKeyID k =
      Some (k\<lparr>macKeyHistory := items, km_oldMACKeys := km_oldMACKeys k @
        map mu_receivingKey (filter (\<lambda>u. mu_ourKeyID u = km_ourKeyID k - 1) (macKeyHistory k))\<rparr>)" (is "_ = Some ?k")
    "mset items = filter_mset (\<lambda>u. mu_ourKeyID u \<noteq> km_ourKeyID k - 1) (mset (macKeyHistory k))"
    using revealMACKeysForOurPreviousKeyID_spec by blast
  have *: "if dm_recipientKeyID m = km_ourKeyID k then generateNewDHKeyPair S r ?k = (e, r', k') else e = None \<and> k' = k"
    using assms items(1) by (auto simp: rotateOurKeys_def)
  have r: "retires_our m k = (if dm_recipientKeyID m = km_ourKeyID k then (\<lambda>u. mu_ourKeyID u = km_ourKeyID k - 1) else (\<lambda>u. False))"
    by (simp add: retires_our_def fun_eq_iff)
  show "mset (macKeyHistory k') = filter_mset (\<lambda>u. \<not> retires_our m k u) (mset (macKeyHistory k))"
    "km_oldMACKeys k' = km_oldMACKeys k @ map mu_receivingKey (filter (retires_our m k) (macKeyHistory k))"
    "km_theirKeyID k' = km_theirKeyID k" "counterHistory k' = counterHistory k"
    "km_ourKeyID k' = (if e = None \<and> dm_recipientKeyID m = km_ourKeyID k then km_ourKeyID k + 1 else km_ourKeyID k)"
    using * generateNewDHKeyPair_frame [of S r ?k e r' k'] items(2) by (auto simp: r split: if_splits)
qed

lemma rotateTheirKey_macs:
  assumes "rotateTheirKey (dm_senderKeyID m) y k = Some k'"
  shows "mset (macKeyHistory k') = filter_mset (\<lambda>u. \<not> retires_their m k u) (mset (macKeyHistory k))"
    and "km_oldMACKeys k' = km_oldMACKeys k @ map mu_receivingKey (filter (retires_their m k) (macKeyHistory k))"
    and "km_ourKeyID k' = km_ourKeyID k" "counterHistory k' = counterHistory k"
    and "km_theirKeyID k' = (if dm_senderKeyID m = km_theirKeyID k then km_theirKeyID k + 1 else km_theirKeyID k)"
proof -
  obtain items where items: "revealMACKeysForTheirPreviousKeyID k =
      Some (k\<lparr>macKeyHistory := items, km_oldMACKeys := km_oldMACKeys k @
        map mu_receivingKey (filter (\<lambda>u. mu_theirKeyID u = km_theirKeyID k - 1) (macKeyHistory k))\<rparr>)"
    "mset items = filter_mset (\<lambda>u. mu_theirKeyID u \<noteq> km_theirKeyID k - 1) (mset (macKeyHistory k))"
    using revealMACKeysForTheirPreviousKeyID_spec by blast
  have r: "retires_their m k = (if dm_senderKeyID m = km_theirKeyID k then (\<lambda>u. mu_theirKeyID u = km_theirKeyID k - 1) else (\<lambda>u. False))"
    by (simp add: retires_their_def fun_eq_iff)
  show "mset (macKeyHistory k') = filter_mset (\<lambda>u. \<not> retires_their m k u) (mset (macKeyHistory k))"
    "km_oldMACKeys k' = km_oldMACKeys k @ map mu_receivingKey (filter (retires_their m k) (macKeyHistory k))"
    "km_ourKeyID k' = km_ourKeyID k" "counterHistory k' = counterHistory k"
    "km_theirKeyID k' = (if dm_senderKeyID m = km_theirKeyID k then km_theirKeyID k + 1 else km_theirKeyID k)"
    using assms items by (auto simp: rotateTheirKey_def r split: if_splits)
qed

lemma keys_calculate_adds:
  assumes "keys_calculateDHSessionKeys S i j v k = Some (res, k')"
  shows "k' = k \<or> (\<exists>mk. k' = k\<lparr>macKeyHistory := addKeys i j mk (macKeyHistory k)\<rparr>
      \<and> i \<in> {km_ourKeyID k, km_ourKeyID k - 1} \<and> j \<in> {km_theirKeyID k, km_theirKeyID k - 1})"
proof (cases "pickOurKeys i k")
  case (Inl e)
  then show ?thesis using assms by (simp add: keys_calculateDHSessionKeys_def)
next
  case our: (Inr p)
  show ?thesis
  proof (cases "pickTheirKey j k")
    case (Inl e)
    then show ?thesis using assms our by (cases p) (simp add: keys_calculateDHSessionKeys_def)
  next
    case (Inr t)
    then have "i \<in> {km_ourKeyID k, km_ourKeyID k - 1}" "j \<in> {km_theirKeyID k, km_theirKeyID k - 1}"
      using our by (auto simp: pickOurKeys_def pickTheirKey_def split: if_splits)
    with Inr our assms show ?thesis
      by (cases p) (auto simp: keys_calculateDHSessionKeys_def bind_eq_Some_conv)
  qed
qed

lemma checkMessageCounter_only:
  "checkMessageCounter m k = (e, k') \<Longrightarrow> \<exists>cs. k' = k\<lparr>counterHistory := cs\<rparr>"
  by (auto simp: checkMessageCounter_def Let_def split: prod.splits if_splits)

lemma usage_retired:
  "usage_current k u \<Longrightarrow> retires_our m k u \<Longrightarrow> km_ourKeyID k' = km_ourKeyID k + 1 \<Longrightarrow>
   \<exists>e. pickOurKeys (mu_ourKeyID u) k' = Inl e"
  "usage_current k u \<Longrightarrow> retires_their m k u \<Longrightarrow> km_theirKeyID k' = km_theirKeyID k + 1 \<Longrightarrow>
   \<exists>e. pickTheirKey (mu_theirKeyID u) k' = Inl e"
proof -
  have ne: "(w :: uint32) - 1 \<noteq> w + 1" for w
  proof
    assume "w - 1 = w + 1"
    then have "(2 :: uint32) = 0" by (simp add: algebra_simps)
    then show False by simp
  qed
  show "\<exists>e. pickOurKeys (mu_ourKeyID u) k' = Inl e"
    if "retires_our m k u" "km_ourKeyID k' = km_ourKeyID k + 1"
    using that ne [of "km_ourKeyID k"] by (auto simp: retires_our_def pickOurKeys_def)
  show "\<exists>e. pickTheirKey (mu_theirKeyID u) k' = Inl e"
    if "retires_their m k u" "km_theirKeyID k' = km_theirKeyID k + 1"
    using that ne [of "km_theirKeyID k"] by (auto simp: retires_their_def pickTheirKey_def)
qed

lemma rotateKeys_split:
  assumes "rotateKeys S m r k = Some (e, r', k')"
  obtains (short) "rotateOurKeys S (dm_recipientKeyID m) r k = Some (e, r', k')" "e \<noteq> None"
  | (full) k1 where "rotateOurKeys S (dm_recipientKeyID m) r k = Some (None, r', k1)"
      "rotateTheirKey (dm_senderKeyID m) (dm_y m) k1 = Some k'" "e = None"
  using assms by (auto simp: rotateKeys_def bind_eq_Some_conv split: option.splits prod.splits)

lemma history_current_subset:
  assumes "history_current k" "set (macKeyHistory k') \<subseteq> set (macKeyHistory k)"
    "km_ourKeyID k' = km_ourKeyID k" "km_theirKeyID k' = km_theirKeyID k"
  shows "history_current k'"
  using assms by (auto simp: history_current_def usage_current_def)

lemma rotateOurKeys_history:
  fixes m :: dataMsg
  assumes "history_current k" "rotateOurKeys S (dm_recipientKeyID m) r k = Some (e, r', k')"
  shows "history_current k'"
proof -
  note f = rotateOurKeys_macs [OF assms(2)]
  have "set (macKeyHistory k') = {u \<in> set (macKeyHistory k). \<not> retires_our m k u}"
    using arg_cong [OF f(1), of set_mset] by simp
  then show ?thesis using assms(1) f(3,5)
    by (auto simp: history_current_def usage_current_def retires_our_def split: if_splits)
qed

lemma rotateTheirKey_history:
  fixes m :: dataMsg
  assumes "history_current k" "rotateTheirKey (dm_senderKeyID m) y k = Some k'"
  shows "history_current k'"
proof -
  note f = rotateTheirKey_macs [OF assms(2)]
  have "set (macKeyHistory k') = {u \<in> set (macKeyHistory k). \<not> retires_their m k u}"
    using arg_cong [OF f(1), of set_mset] by simp
  then show ?thesis using assms(1) f(3,5)
    by (auto simp: history_current_def usage_current_def retires_their_def split: if_splits)
qed

lemma rotateKeys_history:
  assumes "history_current k" "rotateKeys S m r k = Some (e, r', k')"
  shows "history_current k'"
  using assms(2) by (cases rule: rotateKeys_split) (metis assms(1) rotateOurKeys_history rotateTheirKey_history)+

lemma rotateKeys_counters:
  assumes "rotateKeys S m r k = Some (e, r', k')"
  shows "counterHistory k' = counterHistory k"
  using assms by (cases rule: rotateKeys_split) (simp_all add: rotateOurKeys_macs rotateTheirKey_macs)

text \<open>The invariant of a session's key context, kept by every call.\<close>

definition session_keys_ok :: "suite \<Rightarrow> keyManagementContext \<Rightarrow> bool" where
  "session_keys_ok S k \<longleftrightarrow> keys_ok S k \<and> history_current k"

lemma incrementOurCounter_only: "\<exists>cs. incrementOurCounter i j k = k\<lparr>counterHistory := cs\<rparr>"
  by (auto simp: incrementOurCounter_def split: prod.splits)

lemma history_current_frame [simp]:
  "history_current (k\<lparr>counterHistory := cs\<rparr>) = history_current k"
  "history_current (k\<lparr>km_oldMACKeys := ks\<rparr>) = history_current k"
  by (simp_all add: history_current_def usage_current_def)

lemma history_current_add:
  "history_current k \<Longrightarrow> i \<in> {km_ourKeyID k, km_ourKeyID k - 1} \<Longrightarrow> j \<in> {km_theirKeyID k, km_theirKeyID k - 1} \<Longrightarrow>
   history_current (k\<lparr>macKeyHistory := addKeys i j mk (macKeyHistory k)\<rparr>)"
  by (auto simp: history_current_def usage_current_def addKeys_def)

lemma key_step_ok:
  assumes "key_step S k k'" "session_keys_ok S k"
  shows "session_keys_ok S k'"
  using assms
proof (induction rule: key_step.induct)
  case (check m k e k')
  then show ?case using checkMessageCounter_only by (fastforce simp: session_keys_ok_def)
next
  case (derive i j v k res k')
  then show ?case using keys_calculate_adds [OF derive(1)] by (auto simp: session_keys_ok_def history_current_add)
next
  case (rotate m r k e r' k')
  then show ?case using rotateKeys_ok [of S k m r] rotateKeys_history by (auto simp: session_keys_ok_def)
next
  case (reveal k ks k')
  then show ?case by (auto simp: revealMACKeys_def session_keys_ok_def)
next
  case (count i j k k')
  then show ?case using incrementOurCounter_only [of i j k] by (auto simp: session_keys_ok_def)
qed

lemma key_steps_ok: "key_steps S k k' \<Longrightarrow> session_keys_ok S k \<Longrightarrow> session_keys_ok S k'"
  by (induction rule: key_steps.induct) (auto intro: key_step_ok)

lemma key_step_theirCounter:
  assumes "key_step S k k'"
  shows "theirCounterOf i j k \<le> theirCounterOf i j k'"
  using assms
proof (induction rule: key_step.induct)
  case (check m k e k')
  then show ?case using theirCounterOf_mono [of i j k m] by simp
next
  case (derive i' j' v k res k')
  then show ?case using keys_calculate_adds by fastforce
next
  case (rotate m r k e r' k')
  then show ?case using rotateKeys_counters by fastforce
next
  case (reveal k ks k')
  then show ?case by (auto simp: revealMACKeys_def)
next
  case (count i' j' k k')
  then show ?case using theirCounterOf_incrementOurCounter [of i j i' j' k] by simp
qed

lemma key_steps_theirCounter: "key_steps S k k' \<Longrightarrow> theirCounterOf i j k \<le> theirCounterOf i j k'"
  by (induction rule: key_steps.induct) (auto intro: order_trans key_step_theirCounter)

section \<open>Properties\<close>

text \<open>A small group and a key context in it, for concrete instances.\<close>

definition toy_suite :: suite where
  "toy_suite = \<lparr>dh_p = 23, dh_q = 11, dh_g1 = 2, sha1 = (\<lambda>m. replicate 20 0), sha256 = (\<lambda>m. replicate 32 0),
     aes_enc = (\<lambda>k b. replicate 16 0), dsa_Sign = (\<lambda>p q g x h r. (Inr (1, 1), r)), dsa_Verify = (\<lambda>p q g y h r s. True)\<rparr>"

definition toy_keys :: keyManagementContext where
  "toy_keys = nil_keys\<lparr>km_ourKeyID := 2, km_theirKeyID := 1,
     ourCurrentDHKeys := \<lparr>kp_pub = Some 9, kp_priv = Some 5\<rparr>, ourPreviousDHKeys := \<lparr>kp_pub = Some 8, kp_priv = Some 3\<rparr>,
     theirCurrentDHPubKey := Some 16,
     macKeyHistory := [\<lparr>mu_ourKeyID = 1, mu_theirKeyID = 1, mu_receivingKey = [7]\<rparr>]\<rparr>"

definition toy_message :: dataMsg where
  "toy_message = \<lparr>dm_flag = 0, dm_senderKeyID = 1, dm_recipientKeyID = 2, dm_y = 4, dm_topHalfCtr = [0, 0, 0, 0, 0, 0, 0, 1],
     dm_encryptedMsg = [], dm_authenticator = [], dm_oldMACKeys = [], dm_serializeUnsignedCache = None\<rparr>"

lemma toy_keys_ok: "session_keys_ok toy_suite toy_keys"
  by (simp add: session_keys_ok_def keys_ok_def pair_ok_def toy_keys_def toy_suite_def modExp_def big_Exp_def nil_keys_def
      history_current_def usage_current_def)

text \<open>C12. From a key context in which every key id in use has its key and every recorded MAC key is of
  a usable pair of ids, any sequence of calls (messages checked, keys derived for whatever ids a
  peer names, rotations, reveals) keeps it so, and the next derivation or rotation never
  dereferences a nil key.\<close>

theorem key_context_never_panics:
  assumes "session_keys_ok S k" "key_steps S k k'"
  shows "session_keys_ok S k'
    \<and> (\<exists>res k''. keys_calculateDHSessionKeys S i j v k' = Some (res, k''))
    \<and> (\<exists>e r' k''. rotateKeys S m r k' = Some (e, r', k''))"
proof -
  have "session_keys_ok S k'" using assms(2,1) by (rule key_steps_ok)
  then show ?thesis
    using keys_calculateDHSessionKeys_ok [of S k' i j v] rotateKeys_ok [of S k' m r] by (auto simp: session_keys_ok_def)
qed

lemma toy_rotates:
  "\<exists>k'. rotateKeys toy_suite toy_message (replicate 40 1) toy_keys = Some (None, [], k') \<and> km_ourKeyID k' = 3
     \<and> km_theirKeyID k' = 2 \<and> macKeyHistory k' = [] \<and> km_oldMACKeys k' = [[7]]"
  by (simp add: rotateKeys_def rotateOurKeys_def rotateTheirKey_def revealMACKeysForOurPreviousKeyID_def
      revealMACKeysForTheirPreviousKeyID_def forgetMACKeysForOurKey_def forgetMACKeysForTheirKey_def deleteKeysAt_def
      delete_swap_def generateNewDHKeyPair_def randSizedMPI_def randMPI_def randomInto_def ReadFull_def
      toy_keys_def toy_message_def nil_keys_def numeral_eq_Suc)

theorem key_context_never_panics_witness:
  "\<exists>k'. key_steps toy_suite toy_keys k' \<and> km_ourKeyID k' = 3 \<and> session_keys_ok toy_suite k'"
proof -
  obtain k' where k': "rotateKeys toy_suite toy_message (replicate 40 1) toy_keys = Some (None, [], k')" "km_ourKeyID k' = 3"
    using toy_rotates by blast
  have st: "key_steps toy_suite toy_keys k'" by (rule key_steps.more [OF key_steps.idle key_step.rotate [OF k'(1)]])
  then show ?thesis using key_context_never_panics [OF toy_keys_ok st] k'(2) by blast
qed

text \<open>C10. Replay. Once a data message has passed the counter check, no later call lets through a message of the
  same pair of key ids whose counter is not larger: the message itself, or an earlier one of
  that pair, is answered with the conflict error, whatever messages, derivations, rotations and
  reveals happened in between.\<close>

theorem replay_rejected:
  assumes "checkMessageCounter m k = (None, k1)" "key_steps S k1 k2"
    "dm_senderKeyID m' = dm_senderKeyID m" "dm_recipientKeyID m' = dm_recipientKeyID m"
    "(of_nat (be_nat (dm_topHalfCtr m')) :: uint64) \<le> of_nat (be_nat (dm_topHalfCtr m))"
  shows "fst (checkMessageCounter m' k2) = Some (newOtrConflictError ''counter regressed'')"
proof -
  let ?i = "dm_recipientKeyID m" and ?j = "dm_senderKeyID m"
  have "theirCounterOf ?i ?j k1 = of_nat (be_nat (dm_topHalfCtr m))"
    using checkMessageCounter_spec(2) [OF assms(1), of ?i ?j] by simp
  then have le: "of_nat (be_nat (dm_topHalfCtr m)) \<le> theirCounterOf ?i ?j k2"
    using key_steps_theirCounter [OF assms(2), of ?i ?j] by (simp only:)
  have "of_nat (be_nat (dm_topHalfCtr m')) \<le> theirCounterOf ?i ?j k2"
    by (rule order_trans [OF assms(5) le])
  then show ?thesis
    using checkMessageCounter_spec(1) [of m' k2 "fst (checkMessageCounter m' k2)" "snd (checkMessageCounter m' k2)"] assms(3,4)
    by simp
qed

theorem replay_rejected_witness:
  "checkMessageCounter toy_message toy_keys = (None, snd (checkMessageCounter toy_message toy_keys))
   \<and> fst (checkMessageCounter toy_message (snd (checkMessageCounter toy_message toy_keys)))
      = Some (newOtrConflictError ''counter regressed'')"
proof -
  have 1: "checkMessageCounter toy_message toy_keys = (None, snd (checkMessageCounter toy_message toy_keys))"
    by (simp add: checkMessageCounter_def findCounterFor_def toy_message_def toy_keys_def nil_keys_def be_nat_def)
  then show ?thesis using replay_rejected [OF 1 key_steps.idle, of toy_message] by simp
qed



section \<open>The counter history as a guard against replays\<close>

text \<open>The interface a receiver relies on: each message belongs to a channel and has a counter, the
  store keeps the largest counter seen per channel, and a check passes exactly the messages
  beyond it.\<close>

fun accepted_by :: "('m \<Rightarrow> 's \<Rightarrow> bool \<times> 's) \<Rightarrow> 'm list \<Rightarrow> 's \<Rightarrow> 'm list" where
  "accepted_by check [] s = []"
| "accepted_by check (m # ms) s =
     (case check m s of (b, s') \<Rightarrow> (if b then [m] else []) @ accepted_by check ms s')"

locale replay_guard =
  fixes chan :: "'m \<Rightarrow> 'i" and ctr :: "'m \<Rightarrow> 'c :: linorder" and seen :: "'s \<Rightarrow> 'i \<Rightarrow> 'c"
    and check :: "'m \<Rightarrow> 's \<Rightarrow> bool \<times> 's"
  assumes check_passes: "fst (check m s) \<longleftrightarrow> seen s (chan m) < ctr m"
    and check_records: "seen (snd (check m s)) i = (if fst (check m s) \<and> i = chan m then ctr m else seen s i)"
begin

lemma accepted_above: "m \<in> set (accepted_by check ms s) \<Longrightarrow> seen s (chan m) < ctr m"
proof (induction ms arbitrary: s)
  case (Cons m' ms)
  obtain b s' where c: "check m' s = (b, s')" by fastforce
  have le: "seen s i \<le> seen s' i" for i
    using check_passes [of m' s] check_records [of m' s i] c by auto
  show ?case
  proof (cases "m \<in> set (accepted_by check ms s')")
    case True
    then show ?thesis using Cons.IH [of s'] le [of "chan m"] by simp
  next
    case False
    with Cons.prems c have "m = m'" b by (auto split: if_splits)
    then show ?thesis using check_passes [of m' s] c by simp
  qed
qed simp

lemma accepted_increasing:
  "sorted_wrt (\<lambda>m m'. chan m = chan m' \<longrightarrow> ctr m < ctr m') (accepted_by check ms s)"
proof (induction ms arbitrary: s)
  case (Cons m ms)
  obtain b s' where c: "check m s = (b, s')" by fastforce
  have "ctr m < ctr m'" if "b" "m' \<in> set (accepted_by check ms s')" "chan m = chan m'" for m'
    using accepted_above [OF that(2)] check_records [of m s "chan m'"] c that by simp
  then show ?case using Cons.IH [of s'] c by auto
qed simp

end

definition check_passes_counter :: "dataMsg \<Rightarrow> keyManagementContext \<Rightarrow> bool \<times> keyManagementContext" where
  "check_passes_counter m k = (fst (checkMessageCounter m k) = None, snd (checkMessageCounter m k))"

definition message_channel :: "dataMsg \<Rightarrow> uint32 \<times> uint32" where
  "message_channel m = (dm_recipientKeyID m, dm_senderKeyID m)"

definition message_counter :: "dataMsg \<Rightarrow> uint64" where
  "message_counter m = of_nat (be_nat (dm_topHalfCtr m))"

interpretation counters: replay_guard message_channel message_counter "\<lambda>k (i, j). theirCounterOf i j k" check_passes_counter
proof unfold_locales
  fix m k
  obtain e k' where c: "checkMessageCounter m k = (e, k')" by fastforce
  note s = checkMessageCounter_spec(1,2) [OF c]
  show "fst (check_passes_counter m k) \<longleftrightarrow> (case message_channel m of (i, j) \<Rightarrow> theirCounterOf i j k) < message_counter m"
    using s(1) by (auto simp: check_passes_counter_def message_channel_def message_counter_def c not_le)
  fix i
  show "(case i of (i, j) \<Rightarrow> theirCounterOf i j (snd (check_passes_counter m k))) =
      (if fst (check_passes_counter m k) \<and> i = message_channel m then message_counter m
       else case i of (i, j) \<Rightarrow> theirCounterOf i j k)"
    using s(2) by (cases i) (simp add: check_passes_counter_def message_channel_def message_counter_def c)
qed

text \<open>C14. In any sequence of data messages, the ones that pass the counter check have, for each pair of key
  ids, strictly increasing counters; none is accepted twice, in whatever order, and however often, the
  messages arrive.\<close>

theorem accepted_counters_increase:
  "sorted_wrt (\<lambda>m m'. (dm_recipientKeyID m, dm_senderKeyID m) = (dm_recipientKeyID m', dm_senderKeyID m')
        \<longrightarrow> (of_nat (be_nat (dm_topHalfCtr m)) :: uint64) < of_nat (be_nat (dm_topHalfCtr m')))
     (accepted_by (\<lambda>m k. (fst (checkMessageCounter m k) = None, snd (checkMessageCounter m k))) ms k)"
  using counters.accepted_increasing [of ms k]
  unfolding message_channel_def message_counter_def check_passes_counter_def .

theorem accepted_counters_increase_witness:
  "accepted_by (\<lambda>m k. (fst (checkMessageCounter m k) = None, snd (checkMessageCounter m k)))
     [toy_message, toy_message, toy_message\<lparr>dm_topHalfCtr := [0, 0, 0, 0, 0, 0, 0, 2]\<rparr>, toy_message] toy_keys
   = [toy_message, toy_message\<lparr>dm_topHalfCtr := [0, 0, 0, 0, 0, 0, 0, 2]\<rparr>]
   \<and> (of_nat (be_nat [0, 0, 0, 0, 0, 0, 0, 1]) :: uint64) < of_nat (be_nat [0, 0, 0, 0, 0, 0, 0, 2])"
proof -
  let ?ms = "[toy_message, toy_message, toy_message\<lparr>dm_topHalfCtr := [0, 0, 0, 0, 0, 0, 0, 2]\<rparr>, toy_message]"
  have "accepted_by (\<lambda>m k. (fst (checkMessageCounter m k) = None, snd (checkMessageCounter m k))) ?ms toy_keys
      = [toy_message, toy_message\<lparr>dm_topHalfCtr := [0, 0, 0, 0, 0, 0, 0, 2]\<rparr>]"
    by (simp add: checkMessageCounter_def findCounterFor_def toy_message_def toy_keys_def nil_keys_def be_nat_def word_le_def)
  then show ?thesis using accepted_counters_increase [of ?ms toy_keys] by (simp add: toy_message_def)
qed

text \<open>C15. The history of MAC keys, with its deletion by swapping in the last entry, refines a multiset:
  forgetting the keys of one of our (or of their) ids never indexes out of range, returns exactly
  the matching keys in their order, and leaves exactly the others.\<close>

theorem mac_history_refines_multiset:
  "map_option (\<lambda>(ret, items'). (ret, mset items')) (forgetMACKeysForOurKey i items)
     = Some (map mu_receivingKey (filter (\<lambda>u. mu_ourKeyID u = i) items), filter_mset (\<lambda>u. mu_ourKeyID u \<noteq> i) (mset items))
   \<and> map_option (\<lambda>(ret, items'). (ret, mset items')) (forgetMACKeysForTheirKey i items)
     = Some (map mu_receivingKey (filter (\<lambda>u. mu_theirKeyID u = i) items), filter_mset (\<lambda>u. mu_theirKeyID u \<noteq> i) (mset items))"
  using forgetMACKeysForOurKey_spec [of i items] forgetMACKeysForTheirKey_spec [of i items] by auto

text \<open>C13. The two ends of a pair of D-H keys derive mirrored session keys: what one side sends with is
  what the other receives with, for the cipher and for the MAC, and the extra symmetric key is
  the same; derivation does not fail.\<close>

theorem session_keys_mirror:
  assumes "0 \<le> a" "0 \<le> b" "modExp S (dh_g1 S) a \<noteq> modExp S (dh_g1 S) b"
  shows "\<exists>ka kb. calculateDHSessionKeys S (Some a) (Some (modExp S (dh_g1 S) a)) (Some (modExp S (dh_g1 S) b)) v = Some ka
    \<and> calculateDHSessionKeys S (Some b) (Some (modExp S (dh_g1 S) b)) (Some (modExp S (dh_g1 S) a)) v = Some kb
    \<and> sendingAESKey ka = receivingAESKey kb \<and> receivingAESKey ka = sendingAESKey kb
    \<and> sendingMACKey ka = receivingMACKey kb \<and> receivingMACKey ka = sendingMACKey kb \<and> extraKey ka = extraKey kb"
proof -
  obtain ka where ka: "calculateDHSessionKeys S (Some a) (Some (modExp S (dh_g1 S) a)) (Some (modExp S (dh_g1 S) b)) v = Some ka"
    using calculateDHSessionKeys_total by blast
  obtain kb where kb: "calculateDHSessionKeys S (Some b) (Some (modExp S (dh_g1 S) b)) (Some (modExp S (dh_g1 S) a)) v = Some kb"
    using calculateDHSessionKeys_total by blast
  show ?thesis using calculateDHSessionKeys_symmetric [OF assms ka kb] ka kb by blast
qed

theorem session_keys_mirror_witness:
  "\<exists>ka kb. calculateDHSessionKeys toy_suite (Some 5) (Some 9) (Some 8) OtrV3 = Some ka
    \<and> calculateDHSessionKeys toy_suite (Some 3) (Some 8) (Some 9) OtrV3 = Some kb
    \<and> sendingAESKey ka = receivingAESKey kb \<and> extraKey ka = extraKey kb"
  using session_keys_mirror [of 5 3 toy_suite OtrV3] by (auto simp: toy_suite_def modExp_def big_Exp_def)

end
