(* ===== verification/Delivery.thy ===== *)
theory Delivery
  imports Receive Key_Rotation
begin

text \<open>
  What two conversations do together on data messages. \<open>linked\<close> relates the key contexts of two
  peers: each has the keys the other uses next, and counters that the other will accept. The
  lemmas show that a message sent by one is read by the other, and that the link holds again
  afterwards, whatever rotations the message causes.
\<close>

section \<open>Headers\<close>

definition ready :: "otrVersion \<Rightarrow> conversation \<Rightarrow> bool" where
  "ready v c \<longleftrightarrow> c_version c = Some v \<and> (v = OtrV3 \<longrightarrow> c_ourInstanceTag c \<noteq> 0)"

fun header_bytes :: "otrVersion \<Rightarrow> uint32 \<Rightarrow> uint32 \<Rightarrow> byte \<Rightarrow> bytes" where
  "header_bytes OtrV2 our their ty = SerializeShort 2 @ [ty]"
| "header_bytes OtrV3 our their ty = SerializeShort 3 @ [ty] @ SerializeWord our @ SerializeWord their"

lemma messageHeader_ready:
  "ready v c \<Longrightarrow> messageHeader ty c =
     Some (Inr (header_bytes v (c_ourInstanceTag c) (c_theirInstanceTag c) ty), c)"
  by (cases v) (simp_all add: ready_def messageHeader_def generateInstanceTag_def AppendWord_def)

lemma wrapMessageHeader_ready:
  "ready v c \<Longrightarrow> wrapMessageHeader ty m c =
     Some (Inr (header_bytes v (c_ourInstanceTag c) (c_theirInstanceTag c) ty @ m), c)"
  by (simp add: wrapMessageHeader_def messageHeader_ready)

lemma ExtractShort_header: "ExtractShort (header_bytes v our their ty @ m) = Some (drop 2 (header_bytes v our their ty) @ m, protocolVersion v)"
  by (cases v) (simp_all add: ExtractShort_def DeserializeShort_def SerializeShort_def)

lemma length_header_bytes [simp]: "length (header_bytes v our their ty) = (if v = OtrV2 then 3 else 11)"
  by (cases v) simp_all

lemma header_bytes_type [simp]: "header_bytes v our their ty ! 2 = ty"
  by (cases v) (simp_all add: nth_append)

text \<open>The receiver \<open>b\<close> takes the sender \<open>a\<close>'s instance tags for valid.\<close>

definition tags_match :: "otrVersion \<Rightarrow> conversation \<Rightarrow> conversation \<Rightarrow> bool" where
  "tags_match v a b \<longleftrightarrow>
     (v = OtrV3 \<longrightarrow>
        minValidInstanceTag \<le> c_ourInstanceTag a \<and> c_theirInstanceTag b \<in> {0, c_ourInstanceTag a}
        \<and> (c_theirInstanceTag a = 0
           \<or> c_theirInstanceTag a = c_ourInstanceTag b \<and> minValidInstanceTag \<le> c_ourInstanceTag b))"

definition learn_tag :: "otrVersion \<Rightarrow> conversation \<Rightarrow> conversation \<Rightarrow> conversation" where
  "learn_tag v a b = (if v = OtrV3 then b\<lparr>c_theirInstanceTag := c_ourInstanceTag a\<rparr> else b)"

lemma learn_tag_fields [simp]:
  "c_version (learn_tag v a b) = c_version b" "c_keys (learn_tag v a b) = c_keys b"
  "c_msgState (learn_tag v a b) = c_msgState b" "c_Rand (learn_tag v a b) = c_Rand b"
  "c_ourInstanceTag (learn_tag v a b) = c_ourInstanceTag b"
  "c_injections (learn_tag v a b) = c_injections b" "c_ake (learn_tag v a b) = c_ake b"
  by (simp_all add: learn_tag_def)

lemma learn_tag_known:
  "c_theirInstanceTag b = c_ourInstanceTag a \<Longrightarrow> learn_tag v a b = b"
  by (simp add: learn_tag_def)

lemma DeserializeWord_prefix [simp]: "DeserializeWord (SerializeWord w) = w"
  using Deserialize_Serialize(2) [of w "[]"] by simp

lemma parseMessageHeader_match:
  assumes "ready v a" "c_version b = Some v" "tags_match v a b"
  shows "parseMessageHeader (header_bytes v (c_ourInstanceTag a) (c_theirInstanceTag a) ty @ m) b =
     Some (Inr (header_bytes v (c_ourInstanceTag a) (c_theirInstanceTag a) ty, m), learn_tag v a b)"
proof (cases v)
  case OtrV2
  then show ?thesis using assms(2) by (simp add: parseMessageHeader_def learn_tag_def)
next
  case OtrV3
  have d3: "drop 3 (header_bytes OtrV3 x y ty @ m) = SerializeWord x @ SerializeWord y @ m"
    and d7: "drop 7 (header_bytes OtrV3 x y ty @ m) = SerializeWord y @ m" for x y
    by simp_all
  have tk: "take 11 (header_bytes OtrV3 x y ty @ m) = header_bytes OtrV3 x y ty"
    and dr: "drop 11 (header_bytes OtrV3 x y ty @ m) = m" for x y by simp_all
  have "verifyInstanceTags (c_ourInstanceTag a) (c_theirInstanceTag a) b = (None, learn_tag v a b)"
    using assms(3) OtrV3
    by (auto simp: tags_match_def verifyInstanceTags_def learn_tag_def Let_def not_less)
  then show ?thesis
    using assms(2) OtrV3
    by (simp add: parseMessageHeader_def Let_def d3 d7 tk dr del: header_bytes.simps) simp
qed

section \<open>Envelopes\<close>

lemma decode_encode: "decode (encode m) = Some (Inr m)"
proof -
  have "removeOTRMsgEnvelope (encode m) = Some (b64encode m)"
    by (simp add: removeOTRMsgEnvelope_def encode_def slice_def msgMarker_def)
  then show ?thesis by (simp add: decode_def b64encode_def b64decode_def b64_Decode_Encode)
qed

section \<open>Link\<close>

text \<open>\<open>a\<close> knows \<open>b\<close>'s current key, with the previous one, or \<open>b\<close>'s previous key.\<close>

definition knows :: "keyManagementContext \<Rightarrow> keyManagementContext \<Rightarrow> bool" where
  "knows a b \<longleftrightarrow>
     (km_theirKeyID a = km_ourKeyID b \<and> theirCurrentDHPubKey a = kp_pub (ourCurrentDHKeys b)
        \<and> theirPreviousDHPubKey a = kp_pub (ourPreviousDHKeys b))
     \<or> (km_theirKeyID a = km_ourKeyID b - 1 \<and> theirCurrentDHPubKey a = kp_pub (ourPreviousDHKeys b))"

definition next_counter :: "uint64 \<Rightarrow> uint64" where
  "next_counter n = (if n = 0 then 1 else n)"

definition counters_ok :: "keyManagementContext \<Rightarrow> keyManagementContext \<Rightarrow> bool" where
  "counters_ok a b \<longleftrightarrow> (\<forall>i j. theirCounterOf j i b < next_counter (ourCounterOf i j a))"

definition linked :: "suite \<Rightarrow> keyManagementContext \<Rightarrow> keyManagementContext \<Rightarrow> bool" where
  "linked S a b \<longleftrightarrow> keys_ok S a \<and> keys_ok S b \<and> 1 < km_ourKeyID a \<and> 1 < km_ourKeyID b
     \<and> knows a b \<and> knows b a \<and> counters_ok a b \<and> counters_ok b a"

lemma linked_sym: "linked S a b \<Longrightarrow> linked S b a"
  by (simp add: linked_def)

section \<open>Sending\<close>

definition same_dh :: "keyManagementContext \<Rightarrow> keyManagementContext \<Rightarrow> bool" where
  "same_dh k k' \<longleftrightarrow> km_ourKeyID k' = km_ourKeyID k \<and> km_theirKeyID k' = km_theirKeyID k
     \<and> ourCurrentDHKeys k' = ourCurrentDHKeys k \<and> ourPreviousDHKeys k' = ourPreviousDHKeys k
     \<and> theirCurrentDHPubKey k' = theirCurrentDHPubKey k \<and> theirPreviousDHPubKey k' = theirPreviousDHPubKey k"

lemma same_dh_keys_ok: "same_dh k k' \<Longrightarrow> keys_ok S k' = keys_ok S k"
  by (simp add: same_dh_def keys_ok_def)

lemma same_dh_knows: "same_dh a a' \<Longrightarrow> same_dh b b' \<Longrightarrow> knows a' b' = knows a b"
  by (simp add: same_dh_def knows_def)

lemma keys_calculate_frame:
  "keys_calculateDHSessionKeys S i j v k = Some (res, k') \<Longrightarrow>
     same_dh k k' \<and> counterHistory k' = counterHistory k \<and> km_oldMACKeys k' = km_oldMACKeys k"
  by (auto simp: keys_calculateDHSessionKeys_def same_dh_def split: sum.splits prod.splits bind_splits)

text \<open>The message a conversation sends, and what sending does to its keys.\<close>

definition sent_msg ::
    "suite \<Rightarrow> otrVersion \<Rightarrow> bytes \<Rightarrow> byte \<Rightarrow> tlv list \<Rightarrow> conversation \<Rightarrow> sessionKeys \<Rightarrow> int \<Rightarrow> dataMsg" where
  "sent_msg S v m fl ts c ks y =
     (let o' = km_ourKeyID (c_keys c) - 1; t = km_theirKeyID (c_keys c);
          ctr = put_be 8 (unat (next_counter (ourCounterOf o' t (c_keys c))))
      in dataMsg_sign S
           \<lparr>dm_flag = fl, dm_senderKeyID = o', dm_recipientKeyID = t, dm_y = y, dm_topHalfCtr = ctr,
            dm_encryptedMsg = plain_encrypt S \<lparr>pm_message = m, pm_tlvs = ts\<rparr> (sendingAESKey ks) ctr,
            dm_authenticator = [], dm_oldMACKeys = km_oldMACKeys (c_keys c),
            dm_serializeUnsignedCache = None\<rparr>
           (sendingMACKey ks)
           (header_bytes v (c_ourInstanceTag c) (c_theirInstanceTag c) msgTypeData) v)"

definition keys_sent :: "keyManagementContext \<Rightarrow> keyManagementContext \<Rightarrow> bool" where
  "keys_sent k k' \<longleftrightarrow> same_dh k k' \<and> km_oldMACKeys k' = []
     \<and> (\<forall>i j. theirCounterOf i j k' = theirCounterOf i j k)
     \<and> (\<forall>i j. ourCounterOf i j k' =
          (if (i, j) = (km_ourKeyID k - 1, km_theirKeyID k)
           then next_counter (ourCounterOf i j k) + 1 else ourCounterOf i j k))"

lemma counter_sent:
  fixes f i cs our their k
  assumes "findCounterFor our their (counterHistory k) = (i, cs)"
  defines "k' \<equiv> k\<lparr>counterHistory := cs[i := (cs ! i)\<lparr>pc_ourCounter := next_counter (pc_ourCounter (cs ! i)) + 1\<rparr>]\<rparr>"
  shows "theirCounterOf i' j' k' = theirCounterOf i' j' k"
    and "ourCounterOf i' j' k' = (if (i', j') = (our, their) then next_counter (ourCounterOf i' j' k) + 1
           else ourCounterOf i' j' k)"
proof -
  let ?c = "(cs ! i)\<lparr>pc_ourCounter := next_counter (pc_ourCounter (cs ! i)) + 1\<rparr>"
  note en = findCounterFor_entry [OF assms(1), of pc_ourCounter] findCounterFor_entry [OF assms(1), of pc_theirCounter]
  have en': "pc_theirCounter (cs ! i) = theirCounterOf our their k" "pc_ourCounter (cs ! i) = ourCounterOf our their k"
    "pc_ourKeyID ?c = our" "pc_theirKeyID ?c = their"
    using en by auto
  show "theirCounterOf i' j' k' = theirCounterOf i' j' k"
    using counterOf_update [OF assms(1), of pc_theirCounter ?c i' j'] en' by (auto simp: k'_def)
  show "ourCounterOf i' j' k' = (if (i', j') = (our, their) then next_counter (ourCounterOf i' j' k) + 1
           else ourCounterOf i' j' k)"
    using counterOf_update [OF assms(1), of pc_ourCounter ?c i' j'] en' by (auto simp: k'_def)
qed

lemma genDataMsgWithFlag_ready:
  assumes r: "ready v c" and enc: "c_msgState c = encrypted"
    and calc: "keys_calculateDHSessionKeys S (km_ourKeyID (c_keys c) - 1) (km_theirKeyID (c_keys c)) v (c_keys c)
      = Some (Inr ks, k1)"
    and y: "kp_pub (ourCurrentDHKeys (c_keys c)) = Some y"
  shows "\<exists>k3. genDataMsgWithFlag S m fl ts c =
      Some (Inr (sent_msg S v m fl ts c ks y, extraKey ks),
            lastMessage m [] (updateMayRetransmitTo noRetransmit (c\<lparr>c_keys := k3\<rparr>)))
    \<and> keys_sent (c_keys c) k3 \<and> macKeyHistory k3 = macKeyHistory k1"
proof -
  let ?o = "km_ourKeyID (c_keys c) - 1" and ?t = "km_theirKeyID (c_keys c)"
  note fr = keys_calculate_frame [OF calc]
  obtain i cs where f: "findCounterFor ?o ?t (counterHistory k1) = (i, cs)" by fastforce
  define n where "n = next_counter (pc_ourCounter (cs ! i))"
  have n: "n = next_counter (ourCounterOf ?o ?t (c_keys c))"
    using findCounterFor_entry(1) [OF f, of pc_ourCounter] fr by (simp add: n_def)
  define k2 where "k2 = k1\<lparr>counterHistory := cs[i := (cs ! i)\<lparr>pc_ourCounter := n + 1\<rparr>]\<rparr>"
  have k2: "same_dh (c_keys c) k2" "km_oldMACKeys k2 = km_oldMACKeys (c_keys c)"
    using fr by (simp_all add: k2_def same_dh_def)
  note cnt = counter_sent [OF f, folded n_def, folded k2_def]
  have hdr: "messageHeader msgTypeData (c\<lparr>c_keys := k2\<rparr>) =
      Some (Inr (header_bytes v (c_ourInstanceTag c) (c_theirInstanceTag c) msgTypeData), c\<lparr>c_keys := k2\<rparr>)"
    using messageHeader_ready [of v "c\<lparr>c_keys := k2\<rparr>"] r by (simp add: ready_def)
  have y2: "kp_pub (ourCurrentDHKeys k2) = Some y" using k2(1) y by (simp add: same_dh_def)
  have v: "c_version c = Some v" using r by (simp add: ready_def)
  have ctr: "(if pc_ourCounter (cs ! i) = 0 then 1 else pc_ourCounter (cs ! i)) = n"
    by (simp add: n_def next_counter_def)
  have "genDataMsgWithFlag S m fl ts c =
      Some (Inr (sent_msg S v m fl ts c ks y, extraKey ks),
            lastMessage m [] (updateMayRetransmitTo noRetransmit (c\<lparr>c_keys := k2\<lparr>km_oldMACKeys := []\<rparr>\<rparr>)))"
    by (simp add: genDataMsgWithFlag_def enc v calc f ctr hdr y2
        revealMACKeys_def sent_msg_def Let_def n [symmetric] k2(2) flip: k2_def)
  moreover have "keys_sent (c_keys c) (k2\<lparr>km_oldMACKeys := []\<rparr>)"
    using k2(1) cnt fr by (auto simp: keys_sent_def same_dh_def)
  moreover have "macKeyHistory (k2\<lparr>km_oldMACKeys := []\<rparr>) = macKeyHistory k1" by (simp add: k2_def)
  ultimately show ?thesis by blast
qed


section \<open>Session keys of linked contexts\<close>

lemma prev_facts:
  fixes w :: uint32
  shows "1 < w \<Longrightarrow> w \<noteq> 0 \<and> w \<noteq> 1 \<and> w - 1 \<noteq> 0 \<and> w - 1 \<noteq> w"
  by auto

lemma linked_sender_keys:
  assumes "linked S a b"
  obtains x gy where
    "pickOurKeys (km_ourKeyID a - 1) a = Inr (Some x, Some (modExp S (dh_g1 S) x))" "0 \<le> x"
    "kp_pub (ourPreviousDHKeys a) = Some (modExp S (dh_g1 S) x)"
    "pickTheirKey (km_theirKeyID a) a = Inr (Some gy)" "theirCurrentDHPubKey a = Some gy"
proof -
  have ids: "1 < km_ourKeyID a" "1 < km_ourKeyID b" "km_theirKeyID a \<in> {km_ourKeyID b, km_ourKeyID b - 1}"
    using assms by (auto simp: linked_def knows_def)
  then have t: "km_theirKeyID a \<noteq> 0" using prev_facts by auto
  have pick: "pickOurKeys (km_ourKeyID a - 1) a = Inr (kp_priv (ourPreviousDHKeys a), kp_pub (ourPreviousDHKeys a))"
    using prev_facts [OF ids(1)] by (simp add: pickOurKeys_def)
  have ok: "keys_ok S a" using assms by (simp add: linked_def)
  from pickOurKeys_ok [OF this pick] obtain x where
    "kp_priv (ourPreviousDHKeys a) = Some x" "0 \<le> x" "kp_pub (ourPreviousDHKeys a) = Some (modExp S (dh_g1 S) x)" by blast
  moreover obtain gy where "theirCurrentDHPubKey a = Some gy" using ok t by (auto simp: keys_ok_def)
  ultimately show ?thesis using that pick t by (simp add: pickTheirKey_def)
qed

lemma linked_receiver_keys:
  assumes "linked S a b"
  obtains y where
    "pickOurKeys (km_theirKeyID a) b = Inr (Some y, theirCurrentDHPubKey a)" "0 \<le> y"
    "theirCurrentDHPubKey a = Some (modExp S (dh_g1 S) y)"
    "pickTheirKey (km_ourKeyID a - 1) b = Inr (kp_pub (ourPreviousDHKeys a))"
proof -
  have ids: "1 < km_ourKeyID a" "1 < km_ourKeyID b" and ok: "keys_ok S a" "keys_ok S b"
    and kn: "knows a b" "knows b a"
    using assms by (auto simp: linked_def)
  have "\<exists>priv. pickOurKeys (km_theirKeyID a) b = Inr (priv, theirCurrentDHPubKey a)"
  proof -
    consider "km_theirKeyID a = km_ourKeyID b" "theirCurrentDHPubKey a = kp_pub (ourCurrentDHKeys b)"
      | "km_theirKeyID a = km_ourKeyID b - 1" "theirCurrentDHPubKey a = kp_pub (ourPreviousDHKeys b)"
      using kn(1) by (auto simp: knows_def)
    then show ?thesis by cases (simp_all add: pickOurKeys_def prev_facts [OF ids(2)])
  qed
  then obtain priv where p: "pickOurKeys (km_theirKeyID a) b = Inr (priv, theirCurrentDHPubKey a)" ..
  from pickOurKeys_ok [OF ok(2) p] obtain y where y: "priv = Some y" "0 \<le> y"
    "theirCurrentDHPubKey a = Some (modExp S (dh_g1 S) y)" by blast
  have "kp_pub (ourPreviousDHKeys a) \<noteq> None"
    using ok(1) ids(1) by (auto simp: keys_ok_def pair_ok_def split: option.splits)
  have "pickTheirKey (km_ourKeyID a - 1) b = Inr (kp_pub (ourPreviousDHKeys a))"
  proof -
    consider "km_theirKeyID b = km_ourKeyID a" "theirPreviousDHPubKey b = kp_pub (ourPreviousDHKeys a)"
      | "km_theirKeyID b = km_ourKeyID a - 1" "theirCurrentDHPubKey b = kp_pub (ourPreviousDHKeys a)"
      using kn(2) by (auto simp: knows_def)
    then show ?thesis
      using \<open>kp_pub (ourPreviousDHKeys a) \<noteq> None\<close>
      by cases (simp_all add: pickTheirKey_def prev_facts [OF ids(1)])
  qed
  with p y show ?thesis using that by simp
qed

lemma same_dh_pick:
  "same_dh b b' \<Longrightarrow> pickOurKeys i b' = pickOurKeys i b" "same_dh b b' \<Longrightarrow> pickTheirKey i b' = pickTheirKey i b"
  by (simp_all add: same_dh_def pickOurKeys_def pickTheirKey_def)

text \<open>The two ends derive the same keys, with the directions exchanged, unless their public values
  happen to be equal.\<close>

lemma linked_session_keys:
  assumes l: "linked S a b" and ne: "kp_pub (ourPreviousDHKeys a) \<noteq> theirCurrentDHPubKey a"
    and b': "same_dh b b'"
  obtains ka kb where
    "keys_calculateDHSessionKeys S (km_ourKeyID a - 1) (km_theirKeyID a) v a =
       Some (Inr ka, a\<lparr>macKeyHistory :=
         addKeys (km_ourKeyID a - 1) (km_theirKeyID a) (receivingMACKey ka) (macKeyHistory a)\<rparr>)"
    "keys_calculateDHSessionKeys S (km_theirKeyID a) (km_ourKeyID a - 1) v b' =
       Some (Inr kb, b'\<lparr>macKeyHistory :=
         addKeys (km_theirKeyID a) (km_ourKeyID a - 1) (receivingMACKey kb) (macKeyHistory b')\<rparr>)"
    "sendingAESKey ka = receivingAESKey kb" "sendingMACKey ka = receivingMACKey kb" "extraKey ka = extraKey kb"
proof -
  obtain x gy where A: "pickOurKeys (km_ourKeyID a - 1) a = Inr (Some x, Some (modExp S (dh_g1 S) x))" "0 \<le> x"
    "kp_pub (ourPreviousDHKeys a) = Some (modExp S (dh_g1 S) x)"
    "pickTheirKey (km_theirKeyID a) a = Inr (Some gy)" "theirCurrentDHPubKey a = Some gy"
    using linked_sender_keys [OF l] .
  obtain y where B: "pickOurKeys (km_theirKeyID a) b = Inr (Some y, theirCurrentDHPubKey a)" "0 \<le> y"
    "theirCurrentDHPubKey a = Some (modExp S (dh_g1 S) y)"
    "pickTheirKey (km_ourKeyID a - 1) b = Inr (kp_pub (ourPreviousDHKeys a))"
    using linked_receiver_keys [OF l] .
  let ?gx = "modExp S (dh_g1 S) x" and ?gy = "modExp S (dh_g1 S) y"
  have gy: "gy = ?gy" "?gx \<noteq> ?gy" using A(3,5) B(3) ne by auto
  obtain ka where ka: "calculateDHSessionKeys S (Some x) (Some ?gx) (Some ?gy) v = Some ka"
    using calculateDHSessionKeys_total by blast
  obtain kb where kb: "calculateDHSessionKeys S (Some y) (Some ?gy) (Some ?gx) v = Some kb"
    using calculateDHSessionKeys_total by blast
  note sym = calculateDHSessionKeys_symmetric [OF A(2) B(2) gy(2) ka kb]
  show ?thesis
    by (rule that [of ka kb])
       (use A B sym ka kb gy(1) same_dh_pick [OF b'] in \<open>simp_all add: keys_calculateDHSessionKeys_def\<close>)
qed


section \<open>Rotation keeps the link\<close>

definition macs_ok :: "keyManagementContext \<Rightarrow> bool" where
  "macs_ok k \<longleftrightarrow> (\<forall>m \<in> set (km_oldMACKeys k). length m = 20)
     \<and> (\<forall>u \<in> set (macKeyHistory k). length (mu_receivingKey u) = 20)"

lemma macs_ok_frame [simp]:
  "macs_ok (k\<lparr>km_ourKeyID := i\<rparr>) = macs_ok k" "macs_ok (k\<lparr>km_theirKeyID := i\<rparr>) = macs_ok k"
  "macs_ok (k\<lparr>ourCurrentDHKeys := p\<rparr>) = macs_ok k" "macs_ok (k\<lparr>ourPreviousDHKeys := p\<rparr>) = macs_ok k"
  "macs_ok (k\<lparr>theirCurrentDHPubKey := q\<rparr>) = macs_ok k" "macs_ok (k\<lparr>theirPreviousDHPubKey := q\<rparr>) = macs_ok k"
  "macs_ok (k\<lparr>counterHistory := cs\<rparr>) = macs_ok k"
  by (simp_all add: macs_ok_def)

lemma macs_ok_forget:
  assumes "macs_ok k" "mset items = filter_mset P (mset (macKeyHistory k))"
  shows "macs_ok (k\<lparr>macKeyHistory := items,
      km_oldMACKeys := km_oldMACKeys k @ map mu_receivingKey (filter Q (macKeyHistory k))\<rparr>)"
proof -
  have "set items \<subseteq> set (macKeyHistory k)"
    using assms(2) by (metis filter_is_subset mset_filter set_mset_mset)
  with assms(1) show ?thesis by (auto simp: macs_ok_def)
qed

lemma rotateOurKeys_current:
  assumes "40 \<le> length r"
  shows "\<exists>r' k'. rotateOurKeys S (km_ourKeyID k) r k = Some (None, r', k')
    \<and> km_ourKeyID k' = km_ourKeyID k + 1 \<and> ourPreviousDHKeys k' = ourCurrentDHKeys k
    \<and> km_theirKeyID k' = km_theirKeyID k \<and> theirCurrentDHPubKey k' = theirCurrentDHPubKey k
    \<and> theirPreviousDHPubKey k' = theirPreviousDHPubKey k \<and> counterHistory k' = counterHistory k
    \<and> (macs_ok k \<longrightarrow> macs_ok k')"
proof -
  obtain items where
    k: "revealMACKeysForOurPreviousKeyID k = Some (k\<lparr>macKeyHistory := items, km_oldMACKeys := km_oldMACKeys k @
        map mu_receivingKey (filter (\<lambda>u. mu_ourKeyID u = km_ourKeyID k - 1) (macKeyHistory k))\<rparr>)" (is "_ = Some ?k")
    and m: "mset items = filter_mset (\<lambda>u. mu_ourKeyID u \<noteq> km_ourKeyID k - 1) (mset (macKeyHistory k))"
    using revealMACKeysForOurPreviousKeyID_spec by blast
  have "macs_ok k \<longrightarrow> macs_ok ?k" by (intro impI macs_ok_forget [OF _ m])
  then show ?thesis
    using assms k by (simp add: rotateOurKeys_def generateNewDHKeyPair_def randSizedMPI_def randMPI_ok)
qed

lemma rotateTheirKey_current:
  "\<exists>k'. rotateTheirKey (km_theirKeyID k) y k = Some k'
    \<and> km_theirKeyID k' = km_theirKeyID k + 1 \<and> theirPreviousDHPubKey k' = theirCurrentDHPubKey k
    \<and> theirCurrentDHPubKey k' = Some y \<and> km_ourKeyID k' = km_ourKeyID k
    \<and> ourCurrentDHKeys k' = ourCurrentDHKeys k \<and> ourPreviousDHKeys k' = ourPreviousDHKeys k
    \<and> counterHistory k' = counterHistory k \<and> (macs_ok k \<longrightarrow> macs_ok k')"
proof -
  obtain items where
    k: "revealMACKeysForTheirPreviousKeyID k = Some (k\<lparr>macKeyHistory := items, km_oldMACKeys := km_oldMACKeys k @
        map mu_receivingKey (filter (\<lambda>u. mu_theirKeyID u = km_theirKeyID k - 1) (macKeyHistory k))\<rparr>)" (is "_ = Some ?k")
    and m: "mset items = filter_mset (\<lambda>u. mu_theirKeyID u \<noteq> km_theirKeyID k - 1) (mset (macKeyHistory k))"
    using revealMACKeysForTheirPreviousKeyID_spec by blast
  have "macs_ok k \<longrightarrow> macs_ok ?k" by (intro impI macs_ok_forget [OF _ m])
  then show ?thesis using k by (simp add: rotateTheirKey_def)
qed

text \<open>Receiving on the current own key rotates it: the sender is left with the receiver's previous
  key.\<close>

lemma rotateOurKeys_knows:
  assumes kn: "knows a b" and id: "1 < km_ourKeyID b" "km_ourKeyID b + 1 \<noteq> 0" and r: "40 \<le> length r"
  shows "\<exists>r' b'. rotateOurKeys S (km_theirKeyID a) r b = Some (None, r', b')
    \<and> 1 < km_ourKeyID b' \<and> knows a b' \<and> km_theirKeyID b' = km_theirKeyID b
    \<and> theirCurrentDHPubKey b' = theirCurrentDHPubKey b \<and> theirPreviousDHPubKey b' = theirPreviousDHPubKey b
    \<and> counterHistory b' = counterHistory b \<and> (macs_ok b \<longrightarrow> macs_ok b')"
proof (cases "km_theirKeyID a = km_ourKeyID b")
  case True
  then have cur: "theirCurrentDHPubKey a = kp_pub (ourCurrentDHKeys b)"
    using kn prev_facts [OF id(1)] by (auto simp: knows_def)
  have "1 < km_ourKeyID b + 1"
    using id word_prev_nonzero [of "km_ourKeyID b + 1"] prev_facts [OF id(1)] by simp
  with True cur rotateOurKeys_current [OF r, of S b] show ?thesis by (auto simp: knows_def)
next
  case False
  with kn id show ?thesis by (simp add: rotateOurKeys_def)
qed

text \<open>Receiving from the sender's known key learns the sender's next one.\<close>

lemma rotateTheirKey_knows:
  assumes kn: "knows b a" and id: "1 < km_ourKeyID a" and y: "kp_pub (ourCurrentDHKeys a) = Some y"
  shows "\<exists>b'. rotateTheirKey (km_ourKeyID a - 1) y b = Some b' \<and> knows b' a
    \<and> km_ourKeyID b' = km_ourKeyID b \<and> ourCurrentDHKeys b' = ourCurrentDHKeys b
    \<and> ourPreviousDHKeys b' = ourPreviousDHKeys b
    \<and> counterHistory b' = counterHistory b \<and> (macs_ok b \<longrightarrow> macs_ok b')"
proof (cases "km_theirKeyID b = km_ourKeyID a - 1")
  case True
  then have "theirCurrentDHPubKey b = kp_pub (ourPreviousDHKeys a)"
    using kn prev_facts [OF id(1)] by (auto simp: knows_def)
  with True y rotateTheirKey_current [of b y] show ?thesis by (auto simp: knows_def)
next
  case False
  with kn y show ?thesis by (auto simp: rotateTheirKey_def)
qed

lemma rotateKeys_linked:
  assumes l: "linked S a b" and b1: "same_dh b b1" and id: "km_ourKeyID b + 1 \<noteq> 0" and r: "40 \<le> length r"
    and dm: "dm_recipientKeyID dm = km_theirKeyID a" "dm_senderKeyID dm = km_ourKeyID a - 1"
      "kp_pub (ourCurrentDHKeys a) = Some (dm_y dm)"
  shows "\<exists>r' b3. rotateKeys S dm r b1 = Some (None, r', b3) \<and> keys_ok S b3 \<and> 1 < km_ourKeyID b3
    \<and> knows a b3 \<and> knows b3 a \<and> counterHistory b3 = counterHistory b1 \<and> (macs_ok b1 \<longrightarrow> macs_ok b3)"
proof -
  have ids: "1 < km_ourKeyID b1" "km_ourKeyID b1 + 1 \<noteq> 0" "1 < km_ourKeyID a" and ok: "keys_ok S b1"
    and kn: "knows a b1" "knows b1 a"
    using l b1 id by (auto simp: linked_def same_dh_def keys_ok_def knows_def)
  obtain r' b2 where b2: "rotateOurKeys S (km_theirKeyID a) r b1 = Some (None, r', b2)"
      "1 < km_ourKeyID b2" "knows a b2" "km_theirKeyID b2 = km_theirKeyID b1"
      "theirCurrentDHPubKey b2 = theirCurrentDHPubKey b1" "theirPreviousDHPubKey b2 = theirPreviousDHPubKey b1"
      "counterHistory b2 = counterHistory b1" "macs_ok b1 \<longrightarrow> macs_ok b2"
    using rotateOurKeys_knows [OF kn(1) ids(1,2) r] by blast
  have "knows b2 a" using kn(2) b2(4-6) by (simp add: knows_def)
  then obtain b3 where b3: "rotateTheirKey (km_ourKeyID a - 1) (dm_y dm) b2 = Some b3" "knows b3 a"
      "km_ourKeyID b3 = km_ourKeyID b2" "ourCurrentDHKeys b3 = ourCurrentDHKeys b2"
      "ourPreviousDHKeys b3 = ourPreviousDHKeys b2" "counterHistory b3 = counterHistory b2"
      "macs_ok b2 \<longrightarrow> macs_ok b3"
    using rotateTheirKey_knows [OF _ ids(3) dm(3)] by blast
  have "rotateKeys S dm r b1 = Some (None, r', b3)" using b2(1) b3(1) dm(1,2) by (simp add: rotateKeys_def)
  moreover have "keys_ok S b3" using rotateKeys_ok [OF ok, of dm r] calculation by simp
  moreover have "knows a b3" using b2(3) b3(3-5) by (simp add: knows_def)
  ultimately show ?thesis using b2 b3 by auto
qed


section \<open>What a message uses up\<close>

text \<open>A key context after a message has at most one more key id and two more MAC keys, its counters have
  moved by at most two, and its key pairs are the old ones or the last one and a new one drawn from the
  random source.\<close>

definition uses :: "suite \<Rightarrow> keyManagementContext \<times> bytes \<Rightarrow> keyManagementContext \<times> bytes \<Rightarrow> bool" where
  "uses S = (\<lambda>(k, r) (k', r').
     (\<forall>i j. unat (ourCounterOf i j k') \<le> unat (ourCounterOf i j k) + 2)
     \<and> unat (km_ourKeyID k') \<le> Suc (unat (km_ourKeyID k))
     \<and> size (mac_keys k') \<le> size (mac_keys k) + 2
     \<and> (ourCurrentDHKeys k' = ourCurrentDHKeys k \<and> ourPreviousDHKeys k' = ourPreviousDHKeys k \<and> r' = r
        \<or> ourPreviousDHKeys k' = ourCurrentDHKeys k \<and> 40 \<le> length r \<and> r' = drop 40 r
          \<and> kp_pub (ourCurrentDHKeys k') = Some (modExp S (dh_g1 S) (big_SetBytes (take 40 r)))))"

lemma rotateOurKeys_pairs:
  assumes "rotateOurKeys S (dm_recipientKeyID m) r k = Some (None, r', k')"
  shows "ourCurrentDHKeys k' = ourCurrentDHKeys k \<and> ourPreviousDHKeys k' = ourPreviousDHKeys k \<and> r' = r
    \<or> ourPreviousDHKeys k' = ourCurrentDHKeys k \<and> 40 \<le> length r \<and> r' = drop 40 r
      \<and> kp_pub (ourCurrentDHKeys k') = Some (modExp S (dh_g1 S) (big_SetBytes (take 40 r)))"
proof (cases "dm_recipientKeyID m = km_ourKeyID k")
  case True
  obtain k1 where k1: "revealMACKeysForOurPreviousKeyID k = Some k1" "ourCurrentDHKeys k1 = ourCurrentDHKeys k"
    using revealMACKeysForOurPreviousKeyID_spec [of k] by force
  then have g: "generateNewDHKeyPair S r k1 = (None, r', k')" using assms True by (simp add: rotateOurKeys_def)
  then have len: "40 \<le> length r" using randMPI_short [of r 40] by (auto simp: generateNewDHKeyPair_def randSizedMPI_def not_less [symmetric])
  show ?thesis using g len k1(2) by (auto simp: generateNewDHKeyPair_def randSizedMPI_def randMPI_ok)
qed (use assms in \<open>simp add: rotateOurKeys_def\<close>)

lemma rotateKeys_uses:
  assumes "rotateKeys S m r k = Some (None, r', k')"
  shows "ourCurrentDHKeys k' = ourCurrentDHKeys k \<and> ourPreviousDHKeys k' = ourPreviousDHKeys k \<and> r' = r
    \<or> ourPreviousDHKeys k' = ourCurrentDHKeys k \<and> 40 \<le> length r \<and> r' = drop 40 r
      \<and> kp_pub (ourCurrentDHKeys k') = Some (modExp S (dh_g1 S) (big_SetBytes (take 40 r)))"
    "unat (km_ourKeyID k') \<le> Suc (unat (km_ourKeyID k))" "size (mac_keys k') = size (mac_keys k)" "counterHistory k' = counterHistory k"
proof -
  obtain k1 where o: "rotateOurKeys S (dm_recipientKeyID m) r k = Some (None, r', k1)"
    and t: "rotateTheirKey (dm_senderKeyID m) (dm_y m) k1 = Some k'"
    using assms by (cases rule: rotateKeys_split) auto
  note fo = rotateOurKeys_macs [OF o] and ft = rotateTheirKey_macs [OF t]
  have "ourCurrentDHKeys k' = ourCurrentDHKeys k1" "ourPreviousDHKeys k' = ourPreviousDHKeys k1"
    using t revealMACKeysForTheirPreviousKeyID_spec [of k1] by (auto simp: rotateTheirKey_def split: if_splits)
  with rotateOurKeys_pairs [OF o] show "ourCurrentDHKeys k' = ourCurrentDHKeys k \<and> ourPreviousDHKeys k' = ourPreviousDHKeys k \<and> r' = r
    \<or> ourPreviousDHKeys k' = ourCurrentDHKeys k \<and> 40 \<le> length r \<and> r' = drop 40 r
      \<and> kp_pub (ourCurrentDHKeys k') = Some (modExp S (dh_g1 S) (big_SetBytes (take 40 r)))" by simp
  have "unat (km_ourKeyID k + 1) \<le> Suc (unat (km_ourKeyID k))" by (simp add: unat_word_ariths)
  then show "unat (km_ourKeyID k') \<le> Suc (unat (km_ourKeyID k))" using fo(5) ft(3) by simp
  have part: "size (filter_mset P (mset xs)) + size (filter_mset (\<lambda>u. \<not> P u) (mset xs)) = length xs" for P and xs :: "macKeyUsage list"
    by (metis multiset_partition size_mset size_union)
  have h: "length (macKeyHistory k1) = size (filter_mset (\<lambda>u. \<not> retires_our m k u) (mset (macKeyHistory k)))"
    "length (macKeyHistory k') = size (filter_mset (\<lambda>u. \<not> retires_their m k1 u) (mset (macKeyHistory k1)))"
    using fo(1) ft(1) by (metis size_mset)+
  then show "size (mac_keys k') = size (mac_keys k)"
    using fo(2) ft(2) part [of "retires_our m k" "macKeyHistory k"] part [of "retires_their m k1" "macKeyHistory k1"]
    by (simp add: mac_keys_def)
  show "counterHistory k' = counterHistory k" using fo(4) ft(4) by simp
qed

lemma keys_calculate_size:
  "keys_calculateDHSessionKeys S i j v k = Some (res, k') \<Longrightarrow> size (mac_keys k') \<le> Suc (size (mac_keys k))"
  using keys_calculate_adds [of S i j v k res k'] by (auto simp: mac_keys_def addKeys_def)

section \<open>Receiving\<close>

lemma checkMessageCounter_frame:
  "checkMessageCounter m k = (e, k') \<Longrightarrow> same_dh k k' \<and> (macs_ok k \<longrightarrow> macs_ok k')"
  by (auto simp: checkMessageCounter_def same_dh_def Let_def split: prod.splits if_splits)

lemma next_counter_nonzero [simp]: "next_counter n \<noteq> 0"
  by (simp add: next_counter_def)

lemma be_nat_counter [simp]: "be_nat (put_be 8 (unat (n :: uint64))) = unat n"
  using unsigned_less [of n, where ?'a = nat] by (simp add: be_nat_put_be)

lemma sent_msg_fields [simp]:
  "dm_senderKeyID (sent_msg S v m fl ts c ks y) = km_ourKeyID (c_keys c) - 1"
  "dm_recipientKeyID (sent_msg S v m fl ts c ks y) = km_theirKeyID (c_keys c)"
  "dm_y (sent_msg S v m fl ts c ks y) = y"
  "dm_topHalfCtr (sent_msg S v m fl ts c ks y) =
     put_be 8 (unat (next_counter (ourCounterOf (km_ourKeyID (c_keys c) - 1) (km_theirKeyID (c_keys c)) (c_keys c))))"
  "dm_encryptedMsg (sent_msg S v m fl ts c ks y) =
     plain_encrypt S \<lparr>pm_message = m, pm_tlvs = ts\<rparr> (sendingAESKey ks) (dm_topHalfCtr (sent_msg S v m fl ts c ks y))"
  "dm_oldMACKeys (sent_msg S v m fl ts c ks y) = km_oldMACKeys (c_keys c)"
  "dm_flag (sent_msg S v m fl ts c ks y) = fl"
  by (simp_all add: sent_msg_def dataMsg_sign_def Let_def)

lemma sent_msg_cache:
  "dm_serializeUnsignedCache (sent_msg S v m fl ts c ks y) = Some (serializeUnsigned (sent_msg S v m fl ts c ks y))"
  by (simp add: sent_msg_def dataMsg_sign_def serializeUnsigned_def unsigned_cache_def Let_def)

lemma sent_msg_checkSign:
  "checkSign S (sent_msg S v m fl ts c ks y) (sendingMACKey ks)
     (header_bytes v (c_ourInstanceTag c) (c_theirInstanceTag c) msgTypeData) v = None"
  by (simp add: sent_msg_def Let_def checkSign_sign)

lemma length_concat_const: "\<forall>x \<in> set xs. length x = n \<Longrightarrow> length (concat xs) = n * length xs"
  by (induction xs) auto

context dh_suite
begin

lemma sent_msg_auth: "length (dm_authenticator (sent_msg S v m fl ts c ks y)) = 20"
  by (simp add: sent_msg_def dataMsg_sign_def Let_def length_hmac_sha1)

lemma public_mpi_ok: "keys_ok S k \<Longrightarrow> 1 < km_ourKeyID k \<Longrightarrow> kp_pub (ourCurrentDHKeys k) = Some y \<Longrightarrow> mpi_ok y"
  by (auto simp: keys_ok_def pair_ok_def modExp_def mpi_ok_public split: option.splits)

lemma sent_msg_ok:
  assumes "mpi_ok y" "macs_ok (c_keys c)" "20 * length (km_oldMACKeys (c_keys c)) < 4294967296"
    and "data_ok (plain_serialize (pad \<lparr>pm_message = m, pm_tlvs = ts\<rparr>))"
  shows "dataMsg_ok (sent_msg S v m fl ts c ks y)"
proof -
  let ?old = "km_oldMACKeys (c_keys c)"
  have "\<forall>k \<in> set ?old. length k = 20" using assms(2) by (simp add: macs_ok_def)
  moreover from this have "length (concat ?old) = 20 * length ?old" by (rule length_concat_const)
  ultimately show ?thesis
    using assms by (simp add: dataMsg_ok_def data_ok_def length_plain_encrypt list_all_iff unat_eq_zero)
qed

lemma sent_msg_deserialize:
  assumes "mpi_ok y" "macs_ok (c_keys c)" "20 * length (km_oldMACKeys (c_keys c)) < 4294967296"
    and "data_ok (plain_serialize (pad \<lparr>pm_message = m, pm_tlvs = ts\<rparr>))"
  shows "dataMsg_deserialize (dataMsg_serialize (sent_msg S v m fl ts c ks y) v) v =
     Some (Inr (sent_msg S v m fl ts c ks y))"
  by (rule dataMsg_roundtrip) (simp_all add: sent_msg_ok [OF assms] sent_msg_auth sent_msg_cache)

lemma receivingMACKey_length:
  "calculateDHSessionKeys S x gx gy v = Some ks \<Longrightarrow> length (receivingMACKey ks) = 20 \<and> length (receivingAESKey ks) = 16"
  by (auto simp: calculateDHSessionKeys_def Let_def h_key_def length_sha1 split: bind_splits prod.splits)

lemma keys_calculate_macs:
  assumes "keys_calculateDHSessionKeys S i j v k = Some (Inr ks, k')"
  shows "length (receivingAESKey ks) = 16" "macs_ok k \<Longrightarrow> macs_ok k'"
proof -
  obtain x gx gy where "calculateDHSessionKeys S x gx gy v = Some ks"
    and k': "k' = k\<lparr>macKeyHistory := addKeys i j (receivingMACKey ks) (macKeyHistory k)\<rparr>"
    using assms by (auto simp: keys_calculateDHSessionKeys_def split: sum.splits prod.splits bind_splits)
  then have l: "length (receivingMACKey ks) = 20" "length (receivingAESKey ks) = 16"
    using receivingMACKey_length by blast+
  then show "length (receivingAESKey ks) = 16" "macs_ok k \<Longrightarrow> macs_ok k'"
    by (auto simp: k' macs_ok_def addKeys_def)
qed

end

lemma uint64_succ: "(n :: uint64) + 1 \<noteq> 0 \<Longrightarrow> n < n + 1"
proof -
  assume *: "n + 1 \<noteq> 0"
  have "unat (n + 1) = Suc (unat n) mod 18446744073709551616" by (simp add: unat_word_ariths)
  moreover have "unat n < 18446744073709551616" using unsigned_less [of n, where ?'a = nat] by simp
  moreover have "unat (n + 1) \<noteq> 0" using * by (simp add: unat_eq_zero)
  ultimately show ?thesis by (cases "Suc (unat n) = 18446744073709551616") (simp_all add: word_less_nat_alt)
qed

text \<open>Counters after a message sent by \<open>a\<close> and read by \<open>b\<close>.\<close>

lemma counters_sent_received:
  assumes "counters_ok a b" "counters_ok b a" "keys_sent a a'"
    and room: "ourCounterOf (km_ourKeyID a - 1) (km_theirKeyID a) a + 1 \<noteq> 0"
    and their: "\<And>i j. theirCounterOf i j b' =
      (if (i, j) = (km_theirKeyID a, km_ourKeyID a - 1)
       then next_counter (ourCounterOf (km_ourKeyID a - 1) (km_theirKeyID a) a) else theirCounterOf i j b)"
    and our: "\<And>i j. ourCounterOf i j b' = ourCounterOf i j b"
  shows "counters_ok a' b'" "counters_ok b' a'"
proof -
  let ?n = "next_counter (ourCounterOf (km_ourKeyID a - 1) (km_theirKeyID a) a)"
  have "?n + 1 \<noteq> 0"
    using room by (simp add: next_counter_def)
  then have n: "?n < next_counter (?n + 1)"
    using uint64_succ [of ?n] by (simp add: next_counter_def)
  show "counters_ok a' b'"
    unfolding counters_ok_def
  proof (intro allI)
    fix i j
    show "theirCounterOf j i b' < next_counter (ourCounterOf i j a')"
      using n assms(1,3) their [of j i] by (auto simp: counters_ok_def keys_sent_def)
  qed
  show "counters_ok b' a'"
    using assms(2,3) our by (simp add: counters_ok_def keys_sent_def)
qed


lemma messageEvent_frame:
  "messageEvent e t (c\<lparr>c_keys := k\<rparr>) = (messageEvent e t c)\<lparr>c_keys := k\<rparr>"
  "c_keys (messageEvent e t c) = c_keys c" "c_Rand (messageEvent e t c) = c_Rand c"
  by (simp_all add: messageEvent_def log_event_def)

lemma processTLVs_padding:
  "tlvType t = tlvTypePadding \<Longrightarrow> processTLVs S [t] x c = Some (Inr [], c)"
  by (simp add: process_tlv_def processPaddingTLV_def tlvTypePadding_def)

lemma pad_text:
  "pm_message (pad \<lparr>pm_message = m, pm_tlvs = []\<rparr>) = m"
  "\<exists>t. pm_tlvs (pad \<lparr>pm_message = m, pm_tlvs = []\<rparr>) = [t] \<and> tlvType t = tlvTypePadding"
  by (simp_all add: pad_def Let_def)

text \<open>What the receiver has when the sender's message has been read.\<close>

definition heard :: "bytes \<Rightarrow> conversation \<Rightarrow> conversation" where
  "heard m b = (if m = [] then messageEvent MessageEventLogHeartbeatReceived [] b else b)"

context dh_suite
begin

lemma processDataMessage_sent:
  assumes l: "linked S (c_keys a) (c_keys b)" and macs: "macs_ok (c_keys a)" "macs_ok (c_keys b)"
    and ne: "kp_pub (ourPreviousDHKeys (c_keys a)) \<noteq> theirCurrentDHPubKey (c_keys a)"
    and room: "ourCounterOf (km_ourKeyID (c_keys a) - 1) (km_theirKeyID (c_keys a)) (c_keys a) + 1 \<noteq> 0"
      "km_ourKeyID (c_keys b) + 1 \<noteq> 0" "40 \<le> length (c_Rand b)"
    and b: "c_version b = Some v" "c_msgState b = encrypted"
    and sent: "keys_sent (c_keys a) ka'"
    and calc: "keys_calculateDHSessionKeys S (km_ourKeyID (c_keys a) - 1) (km_theirKeyID (c_keys a)) v (c_keys a)
      = Some (Inr ks, k1)"
    and y: "kp_pub (ourCurrentDHKeys (c_keys a)) = Some y"
    and m: "0 \<notin> set m" "data_ok (plain_serialize (pad \<lparr>pm_message = m, pm_tlvs = []\<rparr>))"
    and old: "20 * length (km_oldMACKeys (c_keys a)) < 4294967296"
  shows "\<exists>k r. processDataMessageWithRawErrors S
        (header_bytes v (c_ourInstanceTag a) (c_theirInstanceTag a) msgTypeData)
        (dataMsg_serialize (sent_msg S v m fl [] a ks y) v) b =
      Some ((if m = [] then None else Some m, None, None), (heard m b)\<lparr>c_keys := k, c_Rand := r\<rparr>)
    \<and> linked S ka' k \<and> macs_ok k \<and> (\<forall>i j. ourCounterOf i j k = ourCounterOf i j (c_keys b))
    \<and> uses S (c_keys b, c_Rand b) (k, r) \<and> size (mac_keys k) \<le> Suc (size (mac_keys (c_keys b)))"
proof -
  let ?dm = "sent_msg S v m fl [] a ks y" and ?p = "pad \<lparr>pm_message = m, pm_tlvs = []\<rparr>"
  let ?n = "next_counter (ourCounterOf (km_ourKeyID (c_keys a) - 1) (km_theirKeyID (c_keys a)) (c_keys a))"
  have ids: "keys_ok S (c_keys a)" "1 < km_ourKeyID (c_keys a)" "counters_ok (c_keys a) (c_keys b)"
      "counters_ok (c_keys b) (c_keys a)"
    using l by (auto simp: linked_def)
  have des: "dataMsg_deserialize (dataMsg_serialize ?dm v) v = Some (Inr ?dm)"
    using sent_msg_deserialize [OF public_mpi_ok [OF ids(1,2) y] macs(1) old m(2)] .
  obtain e kb1 where chk: "checkMessageCounter ?dm (c_keys b) = (e, kb1)" by fastforce
  note cnt = checkMessageCounter_spec [OF chk, simplified]
  have lt: "theirCounterOf (km_theirKeyID (c_keys a)) (km_ourKeyID (c_keys a) - 1) (c_keys b) < ?n"
    using ids(3) by (simp add: counters_ok_def)
  then have e: "e = None" using cnt(1) by (simp add: not_le [symmetric])
  note fr1 = checkMessageCounter_frame [OF chk]
  obtain ka kb where calcs:
      "keys_calculateDHSessionKeys S (km_ourKeyID (c_keys a) - 1) (km_theirKeyID (c_keys a)) v (c_keys a) =
         Some (Inr ka, (c_keys a)\<lparr>macKeyHistory := addKeys (km_ourKeyID (c_keys a) - 1) (km_theirKeyID (c_keys a))
           (receivingMACKey ka) (macKeyHistory (c_keys a))\<rparr>)"
      "keys_calculateDHSessionKeys S (km_theirKeyID (c_keys a)) (km_ourKeyID (c_keys a) - 1) v kb1 =
         Some (Inr kb, kb1\<lparr>macKeyHistory := addKeys (km_theirKeyID (c_keys a)) (km_ourKeyID (c_keys a) - 1)
           (receivingMACKey kb) (macKeyHistory kb1)\<rparr>)" (is "_ = Some (Inr kb, ?kb2)")
      "sendingAESKey ka = receivingAESKey kb" "sendingMACKey ka = receivingMACKey kb"
    using linked_session_keys [OF l ne conjunct1 [OF fr1], of v] by metis
  then have same: "receivingMACKey kb = sendingMACKey ks" "receivingAESKey kb = sendingAESKey ks" using calc by auto
  note km = keys_calculate_macs [OF calcs(2)]
  have dec: "plain_decrypt S (receivingAESKey kb) (dm_topHalfCtr ?dm) (dm_encryptedMsg ?dm) = Inr ?p"
    using plain_decrypt_encrypt [of "sendingAESKey ks" "\<lparr>pm_message = m, pm_tlvs = []\<rparr>"] km(1) same m(1) by simp
  have dh2: "same_dh (c_keys b) ?kb2" using fr1 by (simp add: same_dh_def)
  obtain r k3 where rot: "rotateKeys S ?dm (c_Rand b) ?kb2 = Some (None, r, k3)" "keys_ok S k3" "1 < km_ourKeyID k3"
      "knows (c_keys a) k3" "knows k3 (c_keys a)" "counterHistory k3 = counterHistory ?kb2" "macs_ok ?kb2 \<longrightarrow> macs_ok k3"
    using rotateKeys_linked [OF l dh2 room(2,3), of ?dm] y by auto
  have sd: "same_dh (c_keys a) ka'" using sent by (simp add: keys_sent_def)
  have kn: "knows ka' k3" "knows k3 ka'"
    using rot(4,5) same_dh_knows [OF sd, of k3 k3] same_dh_knows [OF _ sd, of k3 k3] by (simp_all add: same_dh_def)
  have ctr: "counters_ok ka' k3" "counters_ok k3 ka'"
    by (rule counters_sent_received [OF ids(3,4) sent room(1)]; use cnt(2,3) e rot(6) in simp)+
  have "linked S ka' k3"
    using rot(2,3) kn ctr same_dh_keys_ok [OF sd] ids(1,2) sd by (simp add: linked_def same_dh_def)
  moreover have "macs_ok k3" using rot(7) km(2) fr1 macs(2) by blast
  moreover have "\<forall>i j. ourCounterOf i j k3 = ourCounterOf i j (c_keys b)" using cnt(3) rot(6) by simp
  moreover have "size (mac_keys k3) \<le> Suc (size (mac_keys (c_keys b)))" "unat (km_ourKeyID k3) \<le> Suc (unat (km_ourKeyID (c_keys b)))"
    using rotateKeys_uses(2,3) [OF rot(1)] keys_calculate_size [OF calcs(2)] checkMessageCounter_only [OF chk] by (auto simp: mac_keys_def)
  moreover have "uses S (c_keys b, c_Rand b) (k3, r)"
    using rotateKeys_uses(1) [OF rot(1)] calculation checkMessageCounter_only [OF chk] by (auto simp: uses_def)
  moreover have "processDataMessageWithRawErrors S
        (header_bytes v (c_ourInstanceTag a) (c_theirInstanceTag a) msgTypeData) (dataMsg_serialize ?dm v) b =
      Some ((if m = [] then None else Some m, None, None), (heard m b)\<lparr>c_keys := k3, c_Rand := r\<rparr>)"
  proof -
    obtain t where t: "pm_tlvs ?p = [t]" "tlvType t = tlvTypePadding" using pad_text(2) by blast
    note facts = b chk e des calcs(2) sent_msg_checkSign [of S v m fl "[]" a ks y] same dec rot(1)
    show ?thesis
    proof (cases "m = []")
      case True
      show ?thesis
        using facts t processTLVs_padding [OF t(2)] unfolding True
        by (simp add: processDataMessageWithRawErrors_def pad_text heard_def messageEvent_frame
            del: sent_msg_fields(5) processTLVs.simps)
    next
      case False
      then show ?thesis
        using facts t processTLVs_padding [OF t(2)]
        by (simp add: processDataMessageWithRawErrors_def pad_text heard_def
            del: sent_msg_fields(5) processTLVs.simps)
    qed
  qed
  ultimately show ?thesis by blast
qed

end

end
