(* ===== verification/Channel.thy ===== *)
theory Channel
  imports Delivery
begin

text \<open>
  Two conversations and the wire between them: how a message that \<^verbatim>\<open>Send\<close> encodes is recognised
  and dispatched by \<^verbatim>\<open>Receive\<close> at the other end. \<open>channel\<close> is the relation of two peers in one
  encrypted session; sending, and receiving with the heartbeat it may cause, keep it.
\<close>

section \<open>The wire\<close>

text \<open>The first four characters of an encoded message are those of its version and type, so that
  \<^verbatim>\<open>guessMessageType\<close> sees what kind of message it is.\<close>

lemma put_be_2: "put_be 2 n = [of_nat (n div 256 mod 256), of_nat (n mod 256)]"
  by (simp add: numeral_2_eq_2)

lemma encode_header:
  "encode (header_bytes v our their ty @ m) =
     msgMarker @ b64_Encode [0, if v = OtrV2 then 2 else 3, ty] @
       b64_Encode (drop 3 (header_bytes v our their ty) @ m) @ [46]"
  by (cases v) (simp_all add: encode_def b64encode_def SerializeShort_def put_be_2 Let_def)

lemmas message_types = msgTypeDHCommit_def msgTypeDHKey_def msgTypeRevealSig_def msgTypeSig_def msgTypeData_def

lemma encoded_prefix:
  "msgMarker @ b64_Encode [0, 2, msgTypeDHCommit] = str ''?OTR:AAIC''"
  "msgMarker @ b64_Encode [0, 3, msgTypeDHCommit] = str ''?OTR:AAMC''"
  "msgMarker @ b64_Encode [0, 2, msgTypeDHKey] = str ''?OTR:AAIK''"
  "msgMarker @ b64_Encode [0, 3, msgTypeDHKey] = str ''?OTR:AAMK''"
  "msgMarker @ b64_Encode [0, 2, msgTypeRevealSig] = str ''?OTR:AAIR''"
  "msgMarker @ b64_Encode [0, 3, msgTypeRevealSig] = str ''?OTR:AAMR''"
  "msgMarker @ b64_Encode [0, 2, msgTypeSig] = str ''?OTR:AAIS''"
  "msgMarker @ b64_Encode [0, 3, msgTypeSig] = str ''?OTR:AAMS''"
  "msgMarker @ b64_Encode [0, 2, msgTypeData] = str ''?OTR:AAID''"
  "msgMarker @ b64_Encode [0, 3, msgTypeData] = str ''?OTR:AAMD''"
  by (simp_all add: msgMarker_def b64_char_def str_def message_types Let_def)

lemma guessMessageType_prefix:
  "guessMessageType (str ''?OTR:AAIC'' @ r) = msgGuessDHCommit"
  "guessMessageType (str ''?OTR:AAMC'' @ r) = msgGuessDHCommit"
  "guessMessageType (str ''?OTR:AAIK'' @ r) = msgGuessDHKey"
  "guessMessageType (str ''?OTR:AAMK'' @ r) = msgGuessDHKey"
  "guessMessageType (str ''?OTR:AAIR'' @ r) = msgGuessRevealSig"
  "guessMessageType (str ''?OTR:AAMR'' @ r) = msgGuessRevealSig"
  "guessMessageType (str ''?OTR:AAIS'' @ r) = msgGuessSignature"
  "guessMessageType (str ''?OTR:AAMS'' @ r) = msgGuessSignature"
  "guessMessageType (str ''?OTR:AAID'' @ r) = msgGuessData"
  "guessMessageType (str ''?OTR:AAMD'' @ r) = msgGuessData"
  by (simp_all add: guessMessageType_def HasPrefix_def str_def)

lemma guessMessageType_encode:
  "guessMessageType (encode (header_bytes v our their msgTypeDHCommit @ m)) = msgGuessDHCommit"
  "guessMessageType (encode (header_bytes v our their msgTypeDHKey @ m)) = msgGuessDHKey"
  "guessMessageType (encode (header_bytes v our their msgTypeRevealSig @ m)) = msgGuessRevealSig"
  "guessMessageType (encode (header_bytes v our their msgTypeSig @ m)) = msgGuessSignature"
  "guessMessageType (encode (header_bytes v our their msgTypeData @ m)) = msgGuessData"
  by (cases v; simp only: encode_header encoded_prefix guessMessageType_prefix append.assoc [symmetric]
      otrVersion.distinct if_True if_False refl; simp only: append.assoc guessMessageType_prefix)+


section \<open>Sending over a channel\<close>

text \<open>Two conversations in the same encrypted session, with nothing queued and no fragmentation.\<close>

definition quiet :: "otrVersion \<Rightarrow> conversation \<Rightarrow> bool" where
  "quiet v c \<longleftrightarrow> ready v c \<and> c_msgState c = encrypted \<and> isOTREnabled (c_Policies c)
     \<and> \<not> c_debug c \<and> c_fragmentSize c = 0 \<and> c_injections c = [] \<and> macs_ok (c_keys c)"

definition channel :: "suite \<Rightarrow> otrVersion \<Rightarrow> conversation \<Rightarrow> conversation \<Rightarrow> bool" where
  "channel S v a b \<longleftrightarrow> quiet v a \<and> quiet v b \<and> linked S (c_keys a) (c_keys b)
     \<and> tags_match v a b \<and> tags_match v b a"

text \<open>Room for one more message: the counter and the key id do not wrap, there is randomness for
  a new key pair, and the lengths fit their 32-bit fields.\<close>

definition room_to_send :: "conversation \<Rightarrow> bool" where
  "room_to_send a \<longleftrightarrow> (\<forall>i j. ourCounterOf i j (c_keys a) + 1 \<noteq> 0)
     \<and> 20 * length (km_oldMACKeys (c_keys a)) < 4294967296"

definition room_to_receive :: "conversation \<Rightarrow> bool" where
  "room_to_receive b \<longleftrightarrow> (\<forall>i j. ourCounterOf i j (c_keys b) + 1 \<noteq> 0)
     \<and> km_ourKeyID (c_keys b) + 1 \<noteq> 0 \<and> 40 \<le> length (c_Rand b)"

definition sendable :: "bytes \<Rightarrow> bool" where
  "sendable m \<longleftrightarrow> 0 \<notin> set m \<and> length m < 4294966784"

lemma sendable_data_ok:
  assumes "sendable m"
  shows "data_ok (plain_serialize (pad \<lparr>pm_message = m, pm_tlvs = []\<rparr>))"
proof -
  let ?n = "length m + 4 + 1"
  have "length (plain_serialize (pad \<lparr>pm_message = m, pm_tlvs = []\<rparr>)) = ?n + (256 - ?n mod 256)"
    by (simp add: plain_serialize_def pad_def Let_def tlv_serialize_alt unat_of_nat)
  moreover have "?n + (256 - ?n mod 256) < 4294967296" using assms unfolding sendable_def by linarith
  ultimately show ?thesis by (simp only: data_ok_def)
qed

lemma linked_sent:
  assumes l: "linked S a b" and s: "keys_sent a a'" and r: "\<forall>i j. ourCounterOf i j a + 1 \<noteq> 0"
  shows "linked S a' b"
proof -
  have sd: "same_dh a a'" using s by (simp add: keys_sent_def)
  have "n < next_counter (n' + 1)" if "n < n'" "n' + 1 \<noteq> 0" for n n' :: uint64
    using that uint64_succ [of n'] by (simp add: next_counter_def)
  then have step: "n < next_counter (next_counter n' + 1)" if "n < next_counter n'" "n' + 1 \<noteq> 0" for n n' :: uint64
    using that by (auto simp: next_counter_def split: if_splits)
  have "counters_ok a' b"
    using l s r step by (simp add: counters_ok_def linked_def keys_sent_def)
  moreover have "counters_ok b a'" using l s by (simp add: counters_ok_def linked_def keys_sent_def)
  moreover have "knows a' b" "knows b a'"
    using l same_dh_knows [OF sd, of b b] same_dh_knows [OF _ sd, of b b] by (simp_all add: linked_def same_dh_def)
  ultimately show ?thesis
    using l sd same_dh_keys_ok [OF sd] by (simp add: linked_def same_dh_def)
qed

text \<open>A context that has sent one message, or none.\<close>

definition sent_at_most_one :: "keyManagementContext \<Rightarrow> keyManagementContext \<Rightarrow> bool" where
  "sent_at_most_one k k' \<longleftrightarrow> k' = k \<or> keys_sent k k' \<and> size (mac_keys k') \<le> Suc (size (mac_keys k))"

lemma sent_counter: "keys_sent k k' \<Longrightarrow> unat (ourCounterOf i j k') \<le> unat (ourCounterOf i j k) + 2"
proof -
  have "unat (next_counter n + 1) \<le> unat n + 2" for n
    by (auto simp: next_counter_def unat_word_ariths intro: order_trans [OF mod_less_eq_dividend])
  then show "keys_sent k k' \<Longrightarrow> unat (ourCounterOf i j k') \<le> unat (ourCounterOf i j k) + 2" by (simp add: keys_sent_def)
qed

lemma sent_uses: "sent_at_most_one k k' \<Longrightarrow> uses S (k, r) (k', r)"
  using sent_counter [of k k'] by (auto simp: sent_at_most_one_def uses_def keys_sent_def same_dh_def)

lemma received_uses:
  assumes "uses S (k, r) (k1, r1)" "\<forall>i j. ourCounterOf i j k1 = ourCounterOf i j k" "size (mac_keys k1) \<le> Suc (size (mac_keys k))"
    "sent_at_most_one k1 k'"
  shows "uses S (k, r) (k', r1)"
proof (cases "k' = k1")
  case False
  then have "keys_sent k1 k'" "size (mac_keys k') \<le> size (mac_keys k) + 2" using assms(3,4) by (auto simp: sent_at_most_one_def)
  then show ?thesis using assms(1,2) sent_counter [of k1 k'] by (simp add: uses_def keys_sent_def same_dh_def)
qed (use assms(1) in simp)

lemma linked_calculate:
  assumes "linked S a b"
  obtains ks k1 y where
    "keys_calculateDHSessionKeys S (km_ourKeyID a - 1) (km_theirKeyID a) v a = Some (Inr ks, k1)"
    "kp_pub (ourCurrentDHKeys a) = Some y"
proof -
  obtain x gy where A: "pickOurKeys (km_ourKeyID a - 1) a = Inr (Some x, Some (modExp S (dh_g1 S) x))"
    "pickTheirKey (km_theirKeyID a) a = Inr (Some gy)"
    using linked_sender_keys [OF assms] by metis
  obtain ks where ks: "calculateDHSessionKeys S (Some x) (Some (modExp S (dh_g1 S) x)) (Some gy) v = Some ks"
    using calculateDHSessionKeys_total by blast
  have "pair_ok S (ourCurrentDHKeys a)" using assms by (auto simp: linked_def keys_ok_def)
  then obtain y where "kp_pub (ourCurrentDHKeys a) = Some y" by (auto simp: pair_ok_def split: option.splits)
  with A ks show ?thesis using that by (simp add: keys_calculateDHSessionKeys_def)
qed


definition after_send :: "bytes \<Rightarrow> keyManagementContext \<Rightarrow> conversation \<Rightarrow> conversation" where
  "after_send m k c = updateLastSent (lastMessage m [] (updateMayRetransmitTo noRetransmit (c\<lparr>c_keys := k\<rparr>)))"

lemma after_send_fields [simp]:
  "c_version (after_send m k c) = c_version c" "c_keys (after_send m k c) = k"
  "c_msgState (after_send m k c) = c_msgState c" "c_Rand (after_send m k c) = c_Rand c"
  "c_ourInstanceTag (after_send m k c) = c_ourInstanceTag c" "c_theirInstanceTag (after_send m k c) = c_theirInstanceTag c"
  "c_injections (after_send m k c) = c_injections c" "c_fragmentSize (after_send m k c) = c_fragmentSize c"
  "c_Policies (after_send m k c) = c_Policies c" "c_debug (after_send m k c) = c_debug c"
  by (simp_all add: after_send_def updateLastSent_def time_Now_def lastMessage_def updateMayRetransmitTo_def)

lemma fragEncode_whole: "c_fragmentSize c = 0 \<Longrightarrow> fragEncode m c = Some [encode m]"
  by (cases "c_version c") (simp_all add: fragEncode_def c_fragment_def fragment_def Let_def)

definition wire_msg :: "otrVersion \<Rightarrow> conversation \<Rightarrow> dataMsg \<Rightarrow> bytes" where
  "wire_msg v c dm =
     header_bytes v (c_ourInstanceTag c) (c_theirInstanceTag c) msgTypeData @ dataMsg_serialize dm v"

lemma wrap_dataMsg_ready: "ready v c \<Longrightarrow> wrap_dataMsg dm c = Some (Inr (wire_msg v c dm), c)"
  by (simp add: wrap_dataMsg_def ready_def wire_msg_def wrapMessageHeader_ready)

lemma wire_msg_cong:
  "c_ourInstanceTag c' = c_ourInstanceTag c \<Longrightarrow> c_theirInstanceTag c' = c_theirInstanceTag c \<Longrightarrow>
   wire_msg v c' = wire_msg v c"
  by (simp add: wire_msg_def fun_eq_iff)

context dh_suite
begin

text \<open>A data message made by a conversation that is linked to some peer.\<close>

lemma genDataMsg_linked:
  assumes "quiet v a" and l: "linked S (c_keys a) kb"
  shows "\<exists>ks k1 y k3 c'.
      keys_calculateDHSessionKeys S (km_ourKeyID (c_keys a) - 1) (km_theirKeyID (c_keys a)) v (c_keys a) = Some (Inr ks, k1)
    \<and> kp_pub (ourCurrentDHKeys (c_keys a)) = Some y \<and> keys_sent (c_keys a) k3 \<and> macs_ok k3
    \<and> genDataMsgWithFlag S m fl ts a = Some (Inr (sent_msg S v m fl ts a ks y, extraKey ks), c')
    \<and> wrap_dataMsg (sent_msg S v m fl ts a ks y) c' = Some (Inr (wire_msg v a (sent_msg S v m fl ts a ks y)), c')
    \<and> updateLastSent c' = after_send m k3 a \<and> sent_at_most_one (c_keys a) k3
    \<and> c' = lastMessage m [] (updateMayRetransmitTo noRetransmit (a\<lparr>c_keys := k3\<rparr>))"
proof -
  obtain ks k1 y where calc:
      "keys_calculateDHSessionKeys S (km_ourKeyID (c_keys a) - 1) (km_theirKeyID (c_keys a)) v (c_keys a) = Some (Inr ks, k1)"
      "kp_pub (ourCurrentDHKeys (c_keys a)) = Some y"
    by (rule linked_calculate [OF l])
  have q: "ready v a" "c_msgState a = encrypted" using assms(1) by (simp_all add: quiet_def)
  obtain k3 where gen: "genDataMsgWithFlag S m fl ts a = Some (Inr (sent_msg S v m fl ts a ks y, extraKey ks),
      lastMessage m [] (updateMayRetransmitTo noRetransmit (a\<lparr>c_keys := k3\<rparr>)))" (is "_ = Some (_, ?c)")
    and s: "keys_sent (c_keys a) k3" and h: "macKeyHistory k3 = macKeyHistory k1"
    using genDataMsgWithFlag_ready [OF q calc] by blast
  have "macs_ok k1" using keys_calculate_macs(2) [OF calc(1)] assms(1) by (simp add: quiet_def)
  then have macs: "macs_ok k3" using s h by (simp add: macs_ok_def keys_sent_def)
  have "ready v ?c" using q(1) by (simp add: ready_def lastMessage_def updateMayRetransmitTo_def)
  moreover have "wire_msg v ?c = wire_msg v a"
    by (rule wire_msg_cong) (simp_all add: lastMessage_def updateMayRetransmitTo_def)
  ultimately have "wrap_dataMsg (sent_msg S v m fl ts a ks y) ?c = Some (Inr (wire_msg v a (sent_msg S v m fl ts a ks y)), ?c)"
    by (simp add: wrap_dataMsg_ready)
  moreover have "updateLastSent ?c = after_send m k3 a" by (simp add: after_send_def)
  moreover have "sent_at_most_one (c_keys a) k3"
    using s h keys_calculate_size [OF calc(1)] keys_calculate_frame [OF calc(1)] by (auto simp: sent_at_most_one_def mac_keys_def keys_sent_def)
  ultimately show ?thesis using calc gen s macs by blast
qed

end

lemma after_send_quiet:
  assumes "quiet v a" "macs_ok k"
  shows "quiet v (after_send m k a)"
  using assms by (simp add: quiet_def ready_def)


section \<open>Receiving over a channel\<close>

text \<open>The fields a peer's view of the conversation depends on.\<close>

definition same_peer :: "conversation \<Rightarrow> conversation \<Rightarrow> bool" where
  "same_peer c c' \<longleftrightarrow> c_ourInstanceTag c' = c_ourInstanceTag c \<and> c_theirInstanceTag c' = c_theirInstanceTag c"

lemma tick_quiet: "quiet v (c\<lparr>c_tick := n\<rparr>) = quiet v c"
  by (simp add: quiet_def ready_def)

lemma messageEvent_fields [simp]:
  "c_version (messageEvent e t c) = c_version c" "c_keys (messageEvent e t c) = c_keys c"
  "c_msgState (messageEvent e t c) = c_msgState c" "c_Rand (messageEvent e t c) = c_Rand c"
  "c_ourInstanceTag (messageEvent e t c) = c_ourInstanceTag c"
  "c_theirInstanceTag (messageEvent e t c) = c_theirInstanceTag c"
  "c_injections (messageEvent e t c) = c_injections c" "c_fragmentSize (messageEvent e t c) = c_fragmentSize c"
  "c_Policies (messageEvent e t c) = c_Policies c" "c_debug (messageEvent e t c) = c_debug c"
  by (simp_all add: messageEvent_def log_event_def)

lemma wire_msg_nonempty [simp]: "wire_msg v c dm \<noteq> []"
  by (cases v) (simp_all add: wire_msg_def SerializeShort_def put_be_2)

context dh_suite
begin

lemma maybeHeartbeat_linked:
  assumes q: "quiet v c" and l: "linked S (c_keys c) k" and r: "\<forall>i j. ourCounterOf i j (c_keys c) + 1 \<noteq> 0"
  shows "\<exists>reply c'. maybeHeartbeat S (plain, None, None) c = Some ((plain, reply, None), c')
    \<and> quiet v c' \<and> linked S (c_keys c') k \<and> same_peer c c' \<and> (reply = [] \<or> hd reply \<noteq> [])
    \<and> sent_at_most_one (c_keys c) (c_keys c') \<and> c_Rand c' = c_Rand c"
proof -
  let ?c0 = "c\<lparr>c_tick := c_tick c + 1\<rparr>" and ?t = "c_clock c (c_tick c)"
  have none: "\<exists>reply c'. maybeHeartbeat S (plain, None, None) c = Some ((plain, reply, None), c')
      \<and> quiet v c' \<and> linked S (c_keys c') k \<and> same_peer c c' \<and> (reply = [] \<or> hd reply \<noteq> [])
      \<and> sent_at_most_one (c_keys c) (c_keys c') \<and> c_Rand c' = c_Rand c"
    if "plain = None \<or> \<not> c_lastSent c < ?t - heartbeatInterval"
    using that q l
    by (cases "plain = None")
       (simp_all add: maybeHeartbeat_def potentialHeartbeat_def time_Now_def
         tick_quiet same_peer_def sent_at_most_one_def)
  show ?thesis
  proof (cases "plain = None \<or> \<not> c_lastSent c < ?t - heartbeatInterval")
    case False
    have q0: "quiet v ?c0" and l0: "linked S (c_keys ?c0) k" using q l by (simp_all add: tick_quiet)
    obtain ks y k3 c' where s: "keys_sent (c_keys ?c0) k3" "macs_ok k3"
      and gen: "genDataMsgWithFlag S [] messageFlagIgnoreUnreadable [] ?c0 =
          Some (Inr (sent_msg S v [] messageFlagIgnoreUnreadable [] ?c0 ks y, extraKey ks), c')"
      and wrap: "wrap_dataMsg (sent_msg S v [] messageFlagIgnoreUnreadable [] ?c0 ks y) c' =
          Some (Inr (wire_msg v ?c0 (sent_msg S v [] messageFlagIgnoreUnreadable [] ?c0 ks y)), c')" (is "_ = Some (Inr ?w, _)")
      and upd: "updateLastSent c' = after_send [] k3 ?c0" and one: "sent_at_most_one (c_keys ?c0) k3"
      using genDataMsg_linked [OF q0 l0, of "[]" messageFlagIgnoreUnreadable "[]"] by blast
    let ?c' = "messageEvent MessageEventLogHeartbeatSent [] (after_send [] k3 ?c0)"
    have "maybeHeartbeat S (plain, None, None) c = Some ((plain, [?w], None), ?c')"
      using False gen wrap upd
      by (simp add: maybeHeartbeat_def potentialHeartbeat_def time_Now_def)
    moreover have "quiet v ?c'"
      using after_send_quiet [OF q0 s(2), of "[]"] by (simp add: quiet_def ready_def)
    moreover have "linked S (c_keys ?c') k" using linked_sent [OF l, of k3] s r by simp
    moreover have "same_peer c ?c'" "sent_at_most_one (c_keys c) (c_keys ?c')" "c_Rand ?c' = c_Rand c"
      using one by (simp_all add: same_peer_def)
    ultimately show ?thesis by fastforce
  qed (use none in blast)
qed

end


lemma checkVersion_header:
  "c_version b = Some v \<Longrightarrow> checkVersion (header_bytes v our their ty @ m) b = (None, b)"
  by (simp add: checkVersion_def ExtractShort_header commitToVersionFrom_def)

lemma encodeAndCombine_whole: "c_fragmentSize c = 0 \<Longrightarrow> encodeAndCombine ms c = Some (map encode ms)"
  by (induction ms) (simp_all add: fragEncode_whole)

lemma finish_receive_quiet:
  assumes "quiet v c" "reply = [] \<or> hd reply \<noteq> []"
  shows "finish_receive True ((plain, reply, None), c) =
    Some ((plain, map encode reply, None), c\<lparr>c_fragmentationContext := forgetFragment, c_injections := []\<rparr>)"
  using assms by (auto simp: finish_receive_def toSendEncoded_def withInjectionsPlain_def withInjects_def
      encodeAndCombine_whole quiet_def Let_def)

lemma tags_match_learn:
  assumes "tags_match v a b" "tags_match v b a" "same_peer a a'" "same_peer (learn_tag v a b) b'"
  shows "tags_match v a' b'" "tags_match v b' a'"
  using assms by (auto simp: tags_match_def same_peer_def learn_tag_def)

lemma quiet_frame [simp]:
  "quiet v (c\<lparr>c_fragmentationContext := f\<rparr>) = quiet v c"
  "macs_ok k \<Longrightarrow> quiet v c \<Longrightarrow> quiet v (c\<lparr>c_keys := k, c_Rand := r\<rparr>)"
  "quiet v c \<Longrightarrow> quiet v (learn_tag w a c)" "quiet v (heard m c) = quiet v c"
  by (simp_all add: quiet_def ready_def learn_tag_def heard_def)

lemma heard_tags [simp]: "same_peer c ((heard m c)\<lparr>c_keys := k, c_Rand := r\<rparr>)"
  by (simp add: same_peer_def heard_def)

lemma encode_no_comma: "44 \<notin> set (encode m)"
  using b64_Encode_alphabet [of 44 m] by (auto simp: encode_def b64encode_def msgMarker_def str_def)

context dh_suite
begin

lemma receiveDataMessage_linked:
  assumes raw: "processDataMessageWithRawErrors S hdr body b =
        Some ((plain, None, None), (heard m b)\<lparr>c_keys := k, c_Rand := r\<rparr>)"
    and q: "quiet v b" and k: "linked S ka k" "macs_ok k" "\<forall>i j. ourCounterOf i j k + 1 \<noteq> 0"
  shows "\<exists>reply b'. receiveDataMessage S hdr body b = Some ((plain, reply, None), b')
    \<and> quiet v b' \<and> linked S ka (c_keys b') \<and> same_peer b b' \<and> (reply = [] \<or> hd reply \<noteq> [])
    \<and> sent_at_most_one k (c_keys b') \<and> c_Rand b' = r"
proof -
  let ?c = "(heard m b)\<lparr>c_keys := k, c_Rand := r\<rparr>"
  have "quiet v ?c" using q k(2) by simp
  then obtain reply b' where hb: "maybeHeartbeat S (plain, None, None) ?c = Some ((plain, reply, None), b')"
      "quiet v b'" "linked S (c_keys b') ka" "same_peer ?c b'" "reply = [] \<or> hd reply \<noteq> []"
      "sent_at_most_one k (c_keys b')" "c_Rand b' = r"
    using maybeHeartbeat_linked [of v ?c ka plain] linked_sym [OF k(1)] k(3) by auto
  have "processDataMessage S hdr body b = Some ((plain, None, None), ?c)"
    using raw by (simp add: processDataMessage_def)
  then have "receiveDataMessage S hdr body b = Some ((plain, reply, None), b')"
    using hb(1) by (simp add: receiveDataMessage_def)
  moreover have "same_peer b b'" using hb(4) heard_tags [of b m] by (simp add: same_peer_def)
  ultimately show ?thesis using hb linked_sym by blast
qed

text \<open>The receiving half: a data message made by one side of a channel, with the keys it then has.\<close>

lemma receive_sent:
  assumes ch: "channel S v a b" and m: "sendable m"
    and ne: "kp_pub (ourPreviousDHKeys (c_keys a)) \<noteq> theirCurrentDHPubKey (c_keys a)"
    and room: "room_to_send a" "room_to_receive b" and sent: "keys_sent (c_keys a) k3"
    and calc: "keys_calculateDHSessionKeys S (km_ourKeyID (c_keys a) - 1) (km_theirKeyID (c_keys a)) v (c_keys a) = Some (Inr ks, k1)"
      "kp_pub (ourCurrentDHKeys (c_keys a)) = Some y"
  shows "\<exists>b' reply. c_Receive S (Suc n) (encode (wire_msg v a (sent_msg S v m messageFlagNormal [] a ks y))) b
      = Finished (Some ((if m = [] then None else Some m, reply, None), b'))
    \<and> quiet v b' \<and> linked S k3 (c_keys b') \<and> same_peer (learn_tag v a b) b' \<and> uses S (c_keys b, c_Rand b) (c_keys b', c_Rand b')"
proof -
  have q: "quiet v a" "quiet v b" and l: "linked S (c_keys a) (c_keys b)" and tags: "tags_match v a b"
    using ch by (auto simp: channel_def)
  let ?dm = "sent_msg S v m messageFlagNormal [] a ks y" and ?b0 = "learn_tag v a b"
  let ?hdr = "header_bytes v (c_ourInstanceTag a) (c_theirInstanceTag a) msgTypeData"
  have q0: "quiet v ?b0" using q(2) by simp
  obtain k r where raw: "processDataMessageWithRawErrors S ?hdr (dataMsg_serialize ?dm v) ?b0 =
        Some ((if m = [] then None else Some m, None, None), (heard m ?b0)\<lparr>c_keys := k, c_Rand := r\<rparr>)"
      and k: "linked S k3 k" "macs_ok k" "\<forall>i j. ourCounterOf i j k = ourCounterOf i j (c_keys b)"
        "uses S (c_keys b, c_Rand b) (k, r)" "size (mac_keys k) \<le> Suc (size (mac_keys (c_keys b)))"
    using processDataMessage_sent [OF _ _ _ ne _ _ _ _ _ sent calc, of ?b0 m messageFlagNormal] l q q0 m room
    by (auto simp: quiet_def ready_def sendable_data_ok sendable_def room_to_send_def room_to_receive_def)
  obtain reply b1 where rcv: "receiveDataMessage S ?hdr (dataMsg_serialize ?dm v) ?b0 =
        Some ((if m = [] then None else Some m, reply, None), b1)" "quiet v b1" "linked S k3 (c_keys b1)"
      "same_peer ?b0 b1" "reply = [] \<or> hd reply \<noteq> []" "sent_at_most_one k (c_keys b1)" "c_Rand b1 = r"
    using receiveDataMessage_linked [OF raw q0 k(1,2)] k(3) room(2) by (auto simp: room_to_receive_def)
  let ?b' = "b1\<lparr>c_fragmentationContext := forgetFragment, c_injections := []\<rparr>"
  have "parseMessageHeader (wire_msg v a ?dm) b = Some (Inr (?hdr, dataMsg_serialize ?dm v), ?b0)"
    using parseMessageHeader_match [OF _ _ tags] q by (simp add: wire_msg_def quiet_def ready_def)
  then have "receiveEncoded S (encode (wire_msg v a ?dm)) b = Some ((if m = [] then None else Some m, reply, None), b1)"
    using q(2) rcv(1) checkVersion_header [of b v]
    by (simp add: receiveEncoded_def decode_encode receiveDecoded_def quiet_def ready_def wire_msg_def)
  then have "c_Receive S (Suc n) (encode (wire_msg v a ?dm)) b =
      Finished (Some ((if m = [] then None else Some m, map encode reply, None), ?b'))"
    using q(2) guessMessageType_encode(5) [of v _ _ "dataMsg_serialize ?dm v"] finish_receive_quiet [OF rcv(2,5)]
    by (simp add: c_Receive_def quiet_def wire_msg_def)
  moreover have "uses S (c_keys b, c_Rand b) (c_keys ?b', c_Rand ?b')"
    using received_uses [OF k(4,3,5)] rcv(6,7) by simp
  moreover have "quiet v ?b'" "linked S k3 (c_keys ?b')" "same_peer ?b0 ?b'"
    using rcv(2-4) by (simp_all add: same_peer_def quiet_def ready_def)
  ultimately show ?thesis by blast
qed

lemma channel_again:
  assumes "channel S v a b" "quiet v a'" "same_peer a a'" "quiet v b'" "linked S (c_keys a') (c_keys b')" "same_peer (learn_tag v a b) b'"
  shows "channel S v a' b'"
  using assms tags_match_learn [of v a b a' b'] by (simp add: channel_def)

text \<open>A text sent by \<open>a\<close> arrives at \<open>b\<close> unchanged, and the two are still in one session.\<close>

lemma channel_delivers:
  assumes ch: "channel S v a b" and m: "sendable m"
    and ne: "kp_pub (ourPreviousDHKeys (c_keys a)) \<noteq> theirCurrentDHPubKey (c_keys a)"
    and room: "room_to_send a" "room_to_receive b"
  shows "\<exists>w a' b' reply. c_Send S m tr a = Some (([w], None), a')
    \<and> c_Receive S (Suc n) w b = Finished (Some ((if m = [] then None else Some m, reply, None), b'))
    \<and> channel S v a' b' \<and> uses S (c_keys a, c_Rand a) (c_keys a', c_Rand a') \<and> uses S (c_keys b, c_Rand b) (c_keys b', c_Rand b')
    \<and> same_peer a a' \<and> guessMessageType w = msgGuessData \<and> 44 \<notin> set w
    \<and> (\<exists>ks y. kp_pub (ourCurrentDHKeys (c_keys a)) = Some y
          \<and> w = encode (wire_msg v a (sent_msg S v m messageFlagNormal [] a ks y)))"
proof -
  have q: "quiet v a" and l: "linked S (c_keys a) (c_keys b)" using ch by (auto simp: channel_def)
  let ?D = "sent_msg S v m messageFlagNormal [] a"
  obtain ks k1 y k3 c' where calc:
      "keys_calculateDHSessionKeys S (km_ourKeyID (c_keys a) - 1) (km_theirKeyID (c_keys a)) v (c_keys a) = Some (Inr ks, k1)"
      "kp_pub (ourCurrentDHKeys (c_keys a)) = Some y" and s: "keys_sent (c_keys a) k3" "macs_ok k3"
    and gen: "genDataMsgWithFlag S m messageFlagNormal [] a = Some (Inr (?D ks y, extraKey ks), c')"
    and wrap: "wrap_dataMsg (?D ks y) c' = Some (Inr (wire_msg v a (?D ks y)), c')"
    and upd: "updateLastSent c' = after_send m k3 a" and one: "sent_at_most_one (c_keys a) k3"
    using genDataMsg_linked [OF q l, of m messageFlagNormal "[]"] by blast
  let ?dm = "?D ks y" and ?a' = "(after_send m k3 a)\<lparr>c_injections := []\<rparr>"
  have send: "c_Send S m tr a = Some (([encode (wire_msg v a ?dm)], None), ?a')"
    using q gen wrap upd
    by (simp add: c_Send_def quiet_def sendMessageOnEncrypted_def createSerializedDataMessage_def
        fragEncode_whole withInjections_def withInjects_def)
  obtain b' reply where rcv: "c_Receive S (Suc n) (encode (wire_msg v a ?dm)) b = Finished (Some ((if m = [] then None else Some m, reply, None), b'))"
    "quiet v b'" "linked S k3 (c_keys b')" "same_peer (learn_tag v a b) b'" "uses S (c_keys b, c_Rand b) (c_keys b', c_Rand b')"
    using receive_sent [OF ch m ne room s(1) calc] by blast
  have a': "quiet v ?a'" "same_peer a ?a'" "uses S (c_keys a, c_Rand a) (c_keys ?a', c_Rand ?a')"
    using after_send_quiet [OF q s(2), of m] sent_uses [OF one] by (simp_all add: same_peer_def quiet_def ready_def)
  have "channel S v ?a' b'" using channel_again [OF ch a'(1,2) rcv(2)] rcv(3,4) by simp
  moreover have "guessMessageType (encode (wire_msg v a ?dm)) = msgGuessData"
    using guessMessageType_encode(5) by (simp add: wire_msg_def)
  ultimately show ?thesis using send rcv(1,5) a'(2,3) encode_no_comma calc(2) by blast
qed

end


end
