(* ===== verification/Handshake.thy ===== *)
theory Handshake
  imports Channel
begin

text \<open>
  The key exchange of two honest peers: the four messages, step by step, through \<^verbatim>\<open>processAKE\<close>, and
  what the two conversations share at its end. The DSA primitives are parameters of the model;
  \<open>key_pair_ok\<close> says that a key pair's signatures verify and that signing ends within a given
  amount of randomness.
\<close>

section \<open>Signatures\<close>

definition dsa_law :: "suite \<Rightarrow> nat \<Rightarrow> int \<Rightarrow> int \<Rightarrow> int \<Rightarrow> int \<Rightarrow> int \<Rightarrow> bool" where
  "dsa_law S n p q g x y \<longleftrightarrow>
     (\<forall>h rnd. n \<le> length rnd \<longrightarrow>
        (\<exists>r s rnd'. dsa_Sign S p q g x h rnd = (Inr (r, s), rnd') \<and> length rnd \<le> length rnd' + n
          \<and> 0 \<le> r \<and> 0 \<le> s \<and> length (big_Bytes r) \<le> 20 \<and> length (big_Bytes s) \<le> 20
          \<and> dsa_Verify S p q g y h r s))"

definition key_pair_ok :: "suite \<Rightarrow> nat \<Rightarrow> DSAPrivateKey \<Rightarrow> bool" where
  "key_pair_ok S n sk \<longleftrightarrow>
     (let pub = sk_DSAPublicKey sk in
      pub_ok pub \<and> length (DSAPublicKey_serialize pub) < 2147483648
      \<and> sk_P sk = pk_P pub \<and> sk_Q sk = pk_Q pub \<and> sk_G sk = pk_G pub \<and> sk_X sk \<noteq> None
      \<and> dsa_law S n (the (pk_P pub)) (the (pk_Q pub)) (the (pk_G pub)) (the (sk_X sk)) (the (pk_Y pub)))"

lemma key_Sign_ok:
  assumes "key_pair_ok S n sk" "n \<le> length rnd"
  shows "\<exists>sg rnd'. key_Sign S sk rnd h = Some (Inr sg, rnd') \<and> length sg = 40 \<and> length rnd \<le> length rnd' + n
    \<and> key_Verify S ((sk_DSAPublicKey sk)\<lparr>pk_loc := l\<rparr>) h sg = Some ([], True)"
proof -
  let ?pub = "sk_DSAPublicKey sk"
  obtain p q g y x where k: "pk_P ?pub = Some p" "pk_Q ?pub = Some q" "pk_G ?pub = Some g" "pk_Y ?pub = Some y"
      "sk_X sk = Some x" "sk_P sk = Some p" "sk_Q sk = Some q" "sk_G sk = Some g"
    and law: "dsa_law S n p q g x y"
    using assms(1) by (auto simp: key_pair_ok_def Let_def pub_ok_def split: option.splits)
  obtain r s rnd' where sign: "dsa_Sign S p q g x h rnd = (Inr (r, s), rnd')" "length rnd \<le> length rnd' + n"
      "0 \<le> r" "0 \<le> s" "length (big_Bytes r) \<le> 20" "length (big_Bytes s) \<le> 20" "dsa_Verify S p q g y h r s"
    using law assms(2) unfolding dsa_law_def by blast
  obtain sg where sg: "sig_bytes r s = Some sg" "length sg = 40"
      "big_SetBytes (take 20 sg) = r" "big_SetBytes (take 20 (drop 20 sg)) = s"
    using sig_bytes_split [OF sign(3-6)] by blast
  show ?thesis
    using k sign sg by (simp add: key_Sign_def key_Verify_def)
qed

section \<open>Encrypted signatures\<close>

text \<open>The plaintext inside an encrypted signature: the sender's public key, its key id and its
  signature on the hash of both public values.\<close>

lemma fixedSize_full: "length v = n \<Longrightarrow> fixedSize n v = v"
  by (simp add: fixedSize_def)

context dh_suite
begin

lemma generateEncryptedSignature_ok:
  assumes key: "c_ourCurrentKey c = Some sk" "key_pair_ok S n sk" "n \<le> length (c_Rand c)"
    and a: "c_ake c = Some a" "ake_ourPublicValue a = Some our" "ake_theirPublicValue a = Some their"
    and v: "c_version c = Some v" and K: "length (ak_c K) = 16"
  shows "\<exists>enc sg rnd. generateEncryptedSignature S K c = Some (Inr (AppendData [] enc), c\<lparr>c_Rand := rnd\<rparr>)
    \<and> decrypt S (ak_c K) enc =
        Inr (DSAPublicKey_serialize (sk_DSAPublicKey sk) @ SerializeWord (km_ourKeyID (ake_keys a)) @ sg)
    \<and> length enc = length (DSAPublicKey_serialize (sk_DSAPublicKey sk)) + 44
    \<and> length (c_Rand c) \<le> length rnd + n
    \<and> key_Verify S ((sk_DSAPublicKey sk)\<lparr>pk_loc := l\<rparr>)
        (sumHMAC S (ak_m1 K) (appendAll our their (sk_DSAPublicKey sk) (km_ourKeyID (ake_keys a))) v) sg
        = Some ([], True)"
proof -
  let ?pub = "sk_DSAPublicKey sk" and ?id = "km_ourKeyID (ake_keys a)"
  let ?mb = "sumHMAC S (ak_m1 K) (appendAll our their ?pub ?id) v"
  obtain sg rnd where sg: "key_Sign S sk (c_Rand c) ?mb = Some (Inr sg, rnd)" "length sg = 40"
      "length (c_Rand c) \<le> length rnd + n" "key_Verify S (?pub\<lparr>pk_loc := l\<rparr>) ?mb sg = Some ([], True)"
    using key_Sign_ok [OF key(2,3)] by blast
  let ?x = "DSAPublicKey_serialize ?pub @ SerializeWord ?id @ sg"
  obtain enc where enc: "encrypt S (ak_c K) ?x = Some (Inr enc)" "length enc = length ?x"
    using encrypt_returns [of ?x "ak_c K"] sg(2) K by auto
  have "calcXb S K ?mb c = Some (Inr enc, c\<lparr>c_Rand := rnd\<rparr>)"
    using key(1) a v sg(1) enc(1)
    by (simp add: calcXb_def AppendWord_def fixedSize_full K encrypt_ignoring_error_def)
  then have "generateEncryptedSignature S K c = Some (Inr (AppendData [] enc), c\<lparr>c_Rand := rnd\<rparr>)"
    using key(1) a v by (simp add: generateEncryptedSignature_def)
  moreover have "length enc = length (DSAPublicKey_serialize ?pub) + 44" using enc(2) sg(2) by simp
  ultimately show ?thesis using sg(3,4) decrypt_encrypt [OF enc(1)] by blast
qed

lemma processEncryptedSig_ok:
  assumes dec: "decrypt S (ak_c K) enc = Inr (DSAPublicKey_serialize pub @ SerializeWord kid @ sg)"
    and K: "length (ak_c K) = 16" and pub: "pub_ok pub"
    and c: "c_version c = Some v" "c_ake c = Some a" "ake_ourPublicValue a = Some our" "ake_theirPublicValue a = Some their"
    and ver: "key_Verify S (pub\<lparr>pk_loc := c_alloc c\<rparr>) (sumHMAC S (ak_m1 K) (appendAll their our pub kid) v) sg = Some ([], True)"
  shows "processEncryptedSig S enc (take 20 (sumHMAC S (ak_m2 K) (AppendData [] enc) v)) K c =
    Some (Inr (), upd_ake (\<lambda>a. a\<lparr>ake_keys := (ake_keys a)\<lparr>km_theirKeyID := kid\<rparr>\<rparr>)
      (c\<lparr>c_theirKey := Some (pub\<lparr>pk_loc := c_alloc c\<rparr>), c_alloc := c_alloc c + 1\<rparr>))"
proof -
  have "parseTheirKey (DSAPublicKey_serialize pub @ SerializeWord kid @ sg) c =
      Some (Inr (sg, kid), c\<lparr>c_theirKey := Some (pub\<lparr>pk_loc := c_alloc c\<rparr>), c_alloc := c_alloc c + 1\<rparr>)"
    by (simp add: parseTheirKey_def ParsePublicKey_serialize [OF pub] word.dec_enc)
  moreover have "appendAll their our (pub\<lparr>pk_loc := l\<rparr>) kid = appendAll their our pub kid" for l
    by (simp add: appendAll_def)
  ultimately show ?thesis
    using dec c ver
    by (simp add: processEncryptedSig_def verifyEncryptedSignatureMAC_def fixedSize_full K
        expectedMessageHMAC_def checkedSignatureVerification_def)
qed

end


section \<open>The messages of an honest exchange\<close>

text \<open>What does not change during the exchange.\<close>

definition steady :: "otrVersion \<Rightarrow> DSAPrivateKey \<Rightarrow> conversation \<Rightarrow> bool" where
  "steady v sk c \<longleftrightarrow> ready v c \<and> c_ourCurrentKey c = Some sk \<and> isOTREnabled (c_Policies c) \<and> \<not> c_debug c
     \<and> c_fragmentSize c = 0 \<and> c_injections c = [] \<and> resend_m (c_resend c) = []"

lemma upd_ake_simps [simp]:
  "c_ake (upd_ake f c) = map_option f (c_ake c)" "c_version (upd_ake f c) = c_version c"
  "c_Rand (upd_ake f c) = c_Rand c" "c_ourCurrentKey (upd_ake f c) = c_ourCurrentKey c"
  "c_ourInstanceTag (upd_ake f c) = c_ourInstanceTag c" "c_theirInstanceTag (upd_ake f c) = c_theirInstanceTag c"
  "c_Policies (upd_ake f c) = c_Policies c" "c_debug (upd_ake f c) = c_debug c"
  "c_fragmentSize (upd_ake f c) = c_fragmentSize c" "c_injections (upd_ake f c) = c_injections c"
  "c_resend (upd_ake f c) = c_resend c" "c_alloc (upd_ake f c) = c_alloc c" "c_ssid (upd_ake f c) = c_ssid c"
  "c_keys (upd_ake f c) = c_keys c" "c_msgState (upd_ake f c) = c_msgState c" "c_theirKey (upd_ake f c) = c_theirKey c"
  by (simp_all add: upd_ake_def)

lemma steady_upd_ake [simp]: "steady v sk (upd_ake f c) = steady v sk c"
  by (simp add: steady_def ready_def)

lemma upd_ake_Some: "c_ake c = Some a \<Longrightarrow> upd_ake f c = c\<lparr>c_ake := Some (f a)\<rparr>"
  by (simp add: upd_ake_def)

text \<open>The initiator's secret exponent, its public value and the key that hides it, as they are read
  from the random source.\<close>

definition exponent_of :: "bytes \<Rightarrow> int" where
  "exponent_of rnd = big_SetBytes (take 40 rnd)"

lemma exponent_of_nonneg [simp]: "0 \<le> exponent_of rnd"
  by (simp add: exponent_of_def)

definition started :: "suite \<Rightarrow> bytes \<Rightarrow> bytes \<Rightarrow> ake_ctx" where
  "started S rnd enc = nil_ake\<lparr>ake_secretExponent := Some (exponent_of rnd),
     ake_ourPublicValue := Some (modExp S (dh_g1 S) (exponent_of rnd)), ake_r := take 16 (drop 40 rnd),
     ake_encryptedGx := enc, ake_state := authStateAwaitingDHKey\<rparr>"

context dh_suite
begin

lemma length_AppendMPI_public: "length (AppendMPI [] (modExp S b x)) \<le> 196"
proof -
  have "length (big_Bytes (modExp S b x)) \<le> 192" unfolding modExp_def by (rule length_public)
  then show ?thesis by (simp add: AppendMPI_def AppendData_def)
qed

lemma sendDHCommit_ok:
  fixes c v
  defines "gx \<equiv> modExp S (dh_g1 S) (exponent_of (c_Rand c))"
  assumes c: "ready v c" and r: "56 \<le> length (c_Rand c)" and big: "16 \<le> length (AppendMPI [] gx)"
  shows "\<exists>enc. sendDHCommit S c =
      Some (Inr (header_bytes v (c_ourInstanceTag c) (c_theirInstanceTag c) msgTypeDHCommit
              @ dhCommit_serialize \<lparr>dc_encryptedGx = enc, dc_yhashedGx = v_hash2 S v (AppendMPI [] gx)\<rparr>),
            c\<lparr>c_Rand := drop 56 (c_Rand c), c_ake := Some (started S (c_Rand c) enc)\<rparr>)
    \<and> decrypt S (take 16 (drop 40 (c_Rand c))) enc = Inr (AppendMPI [] gx) \<and> length enc \<le> 196"
proof -
  let ?k = "take 16 (drop 40 (c_Rand c))"
  have k: "length ?k = 16" using r by simp
  obtain enc where enc: "encrypt S ?k (AppendMPI [] gx) = Some (Inr enc)" "length enc = length (AppendMPI [] gx)"
    using encrypt_returns [OF big k] by blast
  let ?c2 = "c\<lparr>c_Rand := drop 56 (c_Rand c), c_ake := Some ((started S (c_Rand c) enc)\<lparr>ake_state := authStateNone\<rparr>)\<rparr>"
  let ?body = "dhCommit_serialize \<lparr>dc_encryptedGx = enc, dc_yhashedGx = v_hash2 S v (AppendMPI [] gx)\<rparr>"
  have r40: "randMPI 40 (c_Rand c) = (Inr (exponent_of (c_Rand c)), drop 40 (c_Rand c))"
    using r by (simp add: randMPI_ok exponent_of_def)
  have r16: "randomInto 16 (drop 40 (c_Rand c)) = (Inr ?k, drop 56 (c_Rand c))"
    using r by (simp add: randomInto_def ReadFull_def)
  have "dhCommitMessage S (c\<lparr>c_ake := None\<rparr>) = Some (Inr ?body, ?c2)"
    using c enc(1)
    by (simp add: dhCommitMessage_def initAKE_def upd_ake_def setSecretExponent_def r40 r16
        encrypt_ignoring_error_def serializeDHCommit_def gx_def [symmetric] started_def nil_ake_def nil_keys_def ready_def)
  moreover have "wrapMessageHeader msgTypeDHCommit ?body ?c2 =
      Some (Inr (header_bytes v (c_ourInstanceTag c) (c_theirInstanceTag c) msgTypeDHCommit @ ?body), ?c2)"
    using wrapMessageHeader_ready [of v ?c2] c by (simp add: ready_def)
  ultimately have "sendDHCommit S c =
      Some (Inr (header_bytes v (c_ourInstanceTag c) (c_theirInstanceTag c) msgTypeDHCommit @ ?body),
            c\<lparr>c_Rand := drop 56 (c_Rand c), c_ake := Some (started S (c_Rand c) enc)\<rparr>)"
    by (simp add: sendDHCommit_def store_state_def upd_ake_def started_def)
  with decrypt_encrypt [OF enc(1)] enc(2) length_AppendMPI_public [of "dh_g1 S"] show ?thesis
    unfolding gx_def by auto
qed

end


text \<open>The responder's answer to the commit message. A responder that is waiting for a signature
  starts over in the same way as one that has no exchange going on.\<close>

definition takes_commit :: "conversation \<Rightarrow> bool" where
  "takes_commit c \<longleftrightarrow>
     (case c_ake c of
        None \<Rightarrow> True
      | Some a \<Rightarrow> ake_state a = authStateNone \<or> (\<exists>m. ake_state a = authStateAwaitingSig m))"

definition answered :: "suite \<Rightarrow> bytes \<Rightarrow> dhCommit \<Rightarrow> int \<Rightarrow> ake_ctx" where
  "answered S rnd dc t = nil_ake\<lparr>ake_secretExponent := Some (exponent_of rnd),
     ake_ourPublicValue := Some (modExp S (dh_g1 S) (exponent_of rnd)),
     ake_encryptedGx := dc_encryptedGx dc, ake_xhashedGx := dc_yhashedGx dc,
     ake_state := authStateAwaitingRevealSig, ake_lastStateChange := t\<rparr>"

lemma c_ake_same: "c_ake c = x \<Longrightarrow> c\<lparr>c_ake := x\<rparr> = c"
  by (cases c) simp

lemma ensureAKE_same: "\<exists>a. ensureAKE c = c\<lparr>c_ake := Some a\<rparr> \<and> (c_ake c = None \<longrightarrow> a = nil_ake) \<and> (\<forall>a'. c_ake c = Some a' \<longrightarrow> a = a')"
  by (cases "c_ake c") (auto simp: ensureAKE_def initAKE_def c_ake_same)

lemma or_keep_simps [simp]:
  "or_keep s None k = None" "or_keep s (Some (Inl e, c)) k = Some ((s, None, Some e), c)"
  "or_keep s (Some (Inr x, c)) k = k x c"
  by (simp_all add: or_keep_def)

context dh_suite
begin

lemma processAKE_DHCommit_ok:
  fixes c v
  defines "gy \<equiv> modExp S (dh_g1 S) (exponent_of (c_Rand c))"
  assumes c: "ready v c" "takes_commit c" and r: "40 \<le> length (c_Rand c)"
    and dc: "data_ok (dc_encryptedGx dc)" "data_ok (dc_yhashedGx dc)"
  shows "processAKE S msgTypeDHCommit (dhCommit_serialize dc) c =
    Some (([header_bytes v (c_ourInstanceTag c) (c_theirInstanceTag c) msgTypeDHKey @ dhKey_serialize \<lparr>dk_gy = gy\<rparr>], None),
      c\<lparr>c_Rand := drop 40 (c_Rand c), c_ake := Some (answered S (c_Rand c) dc (c_clock c (c_tick c))), c_tick := c_tick c + 1\<rparr>)"
proof -
  let ?ake = "nil_ake\<lparr>ake_secretExponent := Some (exponent_of (c_Rand c)), ake_ourPublicValue := Some gy\<rparr>"
  let ?hdr = "header_bytes v (c_ourInstanceTag c) (c_theirInstanceTag c) msgTypeDHKey"
  have r40: "randMPI 40 (c_Rand c) = (Inr (exponent_of (c_Rand c)), drop 40 (c_Rand c))"
    using r by (simp add: randMPI_ok exponent_of_def)
  have none: "receiveDHCommit_None S (dhCommit_serialize dc) c0 =
      Some ((authStateAwaitingRevealSig, Some (?hdr @ dhKey_serialize \<lparr>dk_gy = gy\<rparr>), None),
        c\<lparr>c_Rand := drop 40 (c_Rand c), c_ake := Some (?ake\<lparr>ake_encryptedGx := dc_encryptedGx dc,
            ake_xhashedGx := dc_yhashedGx dc\<rparr>)\<rparr>)"
    if c0: "c0 = c\<lparr>c_ake := x\<rparr>" for c0 x
  proof -
    let ?c1 = "c\<lparr>c_Rand := drop 40 (c_Rand c), c_ake := Some ?ake\<rparr>"
    have "dhKeyMessage S (upd_ake (ake_wipe True) c0) = Some (Inr (dhKey_serialize \<lparr>dk_gy = gy\<rparr>), ?c1)"
      by (simp add: dhKeyMessage_def initAKE_def upd_ake_def setSecretExponent_def r40 serializeDHKey_def
          gy_def c0)
    moreover have "wrapMessageHeader msgTypeDHKey m ?c1 = Some (Inr (?hdr @ m), ?c1)" for m
      using wrapMessageHeader_ready [of v ?c1] c by (simp add: ready_def)
    ultimately show ?thesis
      by (simp add: receiveDHCommit_None_def processDHCommit_def dhCommit_roundtrip [OF dc] upd_ake_def)
  qed
  obtain a0 where a0: "ensureAKE c = c\<lparr>c_ake := Some a0\<rparr>"
      "ake_state a0 = authStateNone \<or> (\<exists>m. ake_state a0 = authStateAwaitingSig m)"
    using c(2) ensureAKE_same [of c] by (cases "c_ake c") (auto simp: takes_commit_def nil_ake_def)
  then have "receiveDHCommitMessage S (ake_state a0) (dhCommit_serialize dc) (ensureAKE c) =
      receiveDHCommit_None S (dhCommit_serialize dc) (ensureAKE c)"
    by (auto simp: receiveDHCommitMessage_def)
  then show ?thesis
    using none [OF a0(1)] a0(1)
    by (simp add: processAKE_def store_state_def upd_ake_def time_Now_def answered_def gy_def)
qed

end


text \<open>The three results of the key derivation.\<close>

definition ssid_of :: "suite \<Rightarrow> int \<Rightarrow> otrVersion \<Rightarrow> bytes" where
  "ssid_of S s v = fst (calculateAKEKeys S s v)"

definition reveal_key :: "suite \<Rightarrow> int \<Rightarrow> otrVersion \<Rightarrow> akeKeys" where
  "reveal_key S s v = fst (snd (calculateAKEKeys S s v))"

definition sig_key :: "suite \<Rightarrow> int \<Rightarrow> otrVersion \<Rightarrow> akeKeys" where
  "sig_key S s v = snd (snd (calculateAKEKeys S s v))"

lemma calcAKEKeys_alt:
  "calcAKEKeys S s v c =
     upd_ake (\<lambda>a. a\<lparr>ake_revealKey := reveal_key S s v, ake_sigKey := sig_key S s v\<rparr>) (c\<lparr>c_ssid := ssid_of S s v\<rparr>)"
  by (simp add: calcAKEKeys_def ssid_of_def reveal_key_def sig_key_def split: prod.split)

text \<open>The initiator after it has revealed its key: \<open>gy\<close> is the responder's public value.\<close>

definition revealed :: "suite \<Rightarrow> otrVersion \<Rightarrow> ake_ctx \<Rightarrow> int \<Rightarrow> int \<Rightarrow> bytes \<Rightarrow> int \<Rightarrow> ake_ctx" where
  "revealed S v a0 x gy msg t =
     (let s = modExp S gy x in
      a0\<lparr>ake_theirPublicValue := Some gy, ake_revealKey := reveal_key S s v, ake_sigKey := sig_key S s v,
         ake_keys := setOurCurrentDHKeys x (modExp S (dh_g1 S) x)
           (setTheirCurrentDHPubKey gy (nil_keys\<lparr>km_ourKeyID := 1\<rparr>)),
         ake_state := authStateAwaitingSig msg, ake_lastStateChange := t\<rparr>)"

context dh_suite
begin

lemma ake_key_lengths: "length (ak_c (reveal_key S s v)) = 16" "length (ak_c (sig_key S s v)) = 16"
  by (simp_all add: reveal_key_def sig_key_def calculateAKEKeys_def Let_def h_key_def length_sha256)

lemma processAKE_DHKey_ok:
  fixes c v x gy
  defines "gx \<equiv> modExp S (dh_g1 S) x" and "s \<equiv> modExp S gy x"
  assumes c: "ready v c" "c_ourCurrentKey c = Some sk" "key_pair_ok S n sk" "n \<le> length (c_Rand c)"
    and a: "c_ake c = Some a0" "ake_secretExponent a0 = Some x" "ake_ourPublicValue a0 = Some gx"
      "ake_theirPublicValue a0 = None" "ake_keys a0 = nil_keys" "ake_state a0 = authStateAwaitingDHKey"
      "length (ake_r a0) = 16"
    and gy: "mpi_ok gy" "isGroupElement S gy"
  shows "\<exists>msg out enc sg rnd. processAKE S msgTypeDHKey (dhKey_serialize \<lparr>dk_gy = gy\<rparr>) c = Some (([msg], None),
        c\<lparr>c_ssid := ssid_of S s v, c_ake := Some (revealed S v a0 x gy msg (c_clock c (c_tick c))),
          c_Rand := rnd, c_sentRevealSig := True, c_tick := c_tick c + 1\<rparr>)
    \<and> msg = header_bytes v (c_ourInstanceTag c) (c_theirInstanceTag c) msgTypeRevealSig @ out
    \<and> revealSig_deserialize out v = Inr \<lparr>rs_r = ake_r a0, rs_encryptedSig = enc,
         rs_macSig = take 20 (sumHMAC S (ak_m2 (reveal_key S s v)) (AppendData [] enc) v)\<rparr>
    \<and> decrypt S (ak_c (reveal_key S s v)) enc =
         Inr (DSAPublicKey_serialize (sk_DSAPublicKey sk) @ SerializeWord 1 @ sg)
    \<and> length (c_Rand c) \<le> length rnd + n
    \<and> key_Verify S ((sk_DSAPublicKey sk)\<lparr>pk_loc := l\<rparr>)
         (sumHMAC S (ak_m1 (reveal_key S s v)) (appendAll gx gy (sk_DSAPublicKey sk) 1) v) sg = Some ([], True)"
proof -
  let ?K = "reveal_key S s v"
  let ?a1 = "a0\<lparr>ake_theirPublicValue := Some gy\<rparr>"
  let ?a2 = "?a1\<lparr>ake_revealKey := ?K, ake_sigKey := sig_key S s v, ake_keys := nil_keys\<lparr>km_ourKeyID := 1\<rparr>\<rparr>"
  let ?c2 = "c\<lparr>c_ssid := ssid_of S s v, c_ake := Some ?a2\<rparr>"
  have pre: "c_ourCurrentKey ?c2 = Some sk" "n \<le> length (c_Rand ?c2)" "c_version ?c2 = Some v"
    using c by (simp_all add: ready_def)
  obtain enc sg rnd where gen: "generateEncryptedSignature S ?K ?c2 = Some (Inr (AppendData [] enc), ?c2\<lparr>c_Rand := rnd\<rparr>)"
      "decrypt S (ak_c ?K) enc = Inr (DSAPublicKey_serialize (sk_DSAPublicKey sk) @ SerializeWord 1 @ sg)"
      "length enc = length (DSAPublicKey_serialize (sk_DSAPublicKey sk)) + 44" "length (c_Rand c) \<le> length rnd + n"
      "key_Verify S ((sk_DSAPublicKey sk)\<lparr>pk_loc := l\<rparr>)
         (sumHMAC S (ak_m1 ?K) (appendAll gx gy (sk_DSAPublicKey sk) 1) v) sg = Some ([], True)"
    using generateEncryptedSignature_ok [OF pre(1) c(3) pre(2) _ _ _ pre(3) ake_key_lengths(1), of ?a2 gx gy s v l] a
    by auto
  let ?c3 = "?c2\<lparr>c_Rand := rnd\<rparr>"
  let ?mac = "sumHMAC S (ak_m2 ?K) (AppendData [] enc) v"
  have "data_ok enc" using gen(3) c(3) by (simp add: data_ok_def key_pair_ok_def Let_def)
  moreover have "20 \<le> length ?mac" by (simp add: sumHMAC_def length_hmac_sha256)
  ultimately obtain out where out:
      "revealSig_serialize \<lparr>rs_r = ake_r a0, rs_encryptedSig = AppendData [] enc, rs_macSig = ?mac\<rparr> v = Some out"
      "revealSig_deserialize out v = Inr \<lparr>rs_r = ake_r a0, rs_encryptedSig = enc, rs_macSig = take 20 ?mac\<rparr>"
    using revealSig_roundtrip [OF a(7)] by blast
  have dhk: "processDHKey S (dhKey_serialize \<lparr>dk_gy = gy\<rparr>) c = Some (Inr False, c\<lparr>c_ake := Some ?a1\<rparr>)"
    using dhKey_roundtrip [of "\<lparr>dk_gy = gy\<rparr>"] gy a by (simp add: processDHKey_def upd_ake_def)
  have rev: "revealSigMessage S (c\<lparr>c_ake := Some ?a1\<rparr>) = Some (Inr out, ?c3)"
    using a gen(1) out(1) c(1) s_def
    by (simp add: revealSigMessage_def calcDHSharedSecret_def calcAKEKeys_alt incr_ourKeyID_def upd_ake_def
        nil_keys_def ready_def)
  let ?msg = "header_bytes v (c_ourInstanceTag c) (c_theirInstanceTag c) msgTypeRevealSig @ out"
  have wrap: "wrapMessageHeader msgTypeRevealSig out ?c3 = Some (Inr ?msg, ?c3)"
    using wrapMessageHeader_ready [of v ?c3] c by (simp add: ready_def)
  have "ensureAKE c = c" using a(1) by (simp add: ensureAKE_def)
  then have "processAKE S msgTypeDHKey (dhKey_serialize \<lparr>dk_gy = gy\<rparr>) c = Some (([?msg], None),
      c\<lparr>c_ssid := ssid_of S s v, c_ake := Some (revealed S v a0 x gy ?msg (c_clock c (c_tick c))),
        c_Rand := rnd, c_sentRevealSig := True, c_tick := c_tick c + 1\<rparr>)"
    using a dhk rev wrap
    by (simp add: processAKE_def receiveDHKeyMessage_def setDHKeys_def store_state_def upd_ake_def time_Now_def
        msgTypeDHCommit_def msgTypeDHKey_def revealed_def Let_def s_def gx_def)
  with gen out show ?thesis by blast
qed

end


section \<open>The end of the exchange\<close>

text \<open>The key context both sides start the session with: our key of the exchange as the previous
  one, a new key drawn from \<open>rnd\<close> as the current one, and the peer's key of the exchange.\<close>

definition first_keys :: "suite \<Rightarrow> int \<Rightarrow> int \<Rightarrow> bytes \<Rightarrow> keyManagementContext" where
  "first_keys S x their rnd =
     nil_keys\<lparr>km_ourKeyID := 2, km_theirKeyID := 1,
       ourCurrentDHKeys := \<lparr>kp_pub = Some (modExp S (dh_g1 S) (exponent_of rnd)), kp_priv = Some (exponent_of rnd)\<rparr>,
       ourPreviousDHKeys := \<lparr>kp_pub = Some (modExp S (dh_g1 S) x), kp_priv = Some x\<rparr>,
       theirCurrentDHPubKey := Some their\<rparr>"

lemma first_keys_linked:
  assumes "0 \<le> x" "0 \<le> y"
  shows "linked S (first_keys S x (modExp S (dh_g1 S) y) r) (first_keys S y (modExp S (dh_g1 S) x) r')"
  using assms
  by (simp add: linked_def first_keys_def keys_ok_def pair_ok_def knows_def counters_ok_def nil_keys_def
      counterOf_def next_counter_def)

lemma first_keys_macs [simp]: "macs_ok (first_keys S x g r)"
  by (simp add: first_keys_def macs_ok_def nil_keys_def)

lemma signal_fields [simp]:
  "c_keys (signalSecurityEventIf b e c) = c_keys c" "c_msgState (signalSecurityEventIf b e c) = c_msgState c"
  "c_ake (signalSecurityEventIf b e c) = c_ake c" "c_ssid (signalSecurityEventIf b e c) = c_ssid c"
  "c_theirKey (signalSecurityEventIf b e c) = c_theirKey c" "c_resend (signalSecurityEventIf b e c) = c_resend c"
  "c_ourInstanceTag (signalSecurityEventIf b e c) = c_ourInstanceTag c"
  "c_theirInstanceTag (signalSecurityEventIf b e c) = c_theirInstanceTag c"
  "steady v sk (signalSecurityEventIf b e c) = steady v sk c"
  "same_peer c' (signalSecurityEventIf b e c) = same_peer c' c"
  by (simp_all add: signalSecurityEventIf_def securityEvent_def log_event_def steady_def ready_def same_peer_def)

text \<open>The state in which a conversation leaves the exchange.\<close>

definition in_session ::
    "suite \<Rightarrow> otrVersion \<Rightarrow> DSAPrivateKey \<Rightarrow> int \<Rightarrow> int \<Rightarrow> bytes \<Rightarrow> DSAPublicKey \<Rightarrow> conversation \<Rightarrow> bool" where
  "in_session S v sk x their rnd theirKey c \<longleftrightarrow>
     steady v sk c \<and> c_msgState c = encrypted \<and> c_keys c = first_keys S x their rnd
     \<and> c_ssid c = ssid_of S (modExp S their x) v
     \<and> (\<exists>l. c_theirKey c = Some (theirKey\<lparr>pk_loc := l\<rparr>))"

lemma akeHasFinished_ok:
  assumes c: "steady v sk c" "c_ake c = Some a" "40 \<le> length (c_Rand c)"
    and k: "ake_keys a = setOurCurrentDHKeys x (modExp S (dh_g1 S) x) (setTheirCurrentDHPubKey their
        (nil_keys\<lparr>km_ourKeyID := 1, km_theirKeyID := 1\<rparr>))"
    and s: "c_ssid c = ssid_of S (modExp S their x) v" "c_theirKey c = Some (tk\<lparr>pk_loc := l\<rparr>)"
  shows "\<exists>c' a'. akeHasFinished S c = Some (None, c') \<and> in_session S v sk x their (c_Rand c) tk c'
    \<and> c_ake c' = Some a' \<and> same_peer c c'"
proof -
  let ?c1 = "c\<lparr>c_keys := ake_keys a, c_ake := Some (ake_wipe False a), c_tick := c_tick c + 1,
      c_lastMessageStateChange := c_clock c (c_tick c), c_msgState := encrypted\<rparr>"
  let ?c4 = "if IsSame (sk_DSAPublicKey sk) (c_theirKey c) then messageEvent MessageEventMessageReflected [] ?c1 else ?c1"
  let ?c5 = "?c4\<lparr>c_Rand := drop 40 (c_Rand c), c_keys := first_keys S x their (c_Rand c)\<rparr>"
  let ?c' = "signalSecurityEventIf (c_msgState c \<noteq> encrypted) GoneSecure
      (signalSecurityEventIf (c_msgState c = encrypted) StillSecure ?c5)"
  have "generateNewDHKeyPair S (c_Rand c) (ake_keys a) = (None, drop 40 (c_Rand c), first_keys S x their (c_Rand c))"
    using c(3) by (simp add: generateNewDHKeyPair_def randSizedMPI_def randMPI_ok k first_keys_def nil_keys_def
        exponent_of_def setOurCurrentDHKeys_def setTheirCurrentDHPubKey_def)
  then have "akeHasFinished S c = Some (None, ?c')"
    using c(1,2) by (simp add: akeHasFinished_def upd_ake_def time_Now_def steady_def c_generateNewDHKeyPair_def Let_def)
  moreover have "in_session S v sk x their (c_Rand c) tk ?c'"
  proof -
    have "steady v sk ?c5" using c(1) by (simp add: steady_def ready_def messageEvent_def log_event_def)
    then show ?thesis using s by (simp add: in_session_def messageEvent_def log_event_def) blast
  qed
  moreover have "c_ake ?c' = Some (ake_wipe False a)" by (simp add: messageEvent_def log_event_def)
  moreover have "same_peer c ?c'" by (simp add: same_peer_def)
  ultimately show ?thesis by blast
qed

lemma maybeRetransmit_none: "resend_m (c_resend c) = [] \<Longrightarrow> maybeRetransmit S c = Some (Inr [], c)"
  by (simp add: maybeRetransmit_def shouldRetransmit_def)


context dh_suite
begin

text \<open>The responder reads the reveal-signature message.\<close>

lemma processRevealSig_ok:
  fixes c v y gx
  defines "gy \<equiv> modExp S (dh_g1 S) y" and "s \<equiv> modExp S gx y"
  assumes c: "c_version c = Some v" "c_ake c = Some a0" "ake_secretExponent a0 = Some y" "ake_ourPublicValue a0 = Some gy"
    and gx: "decrypt S r (ake_encryptedGx a0) = Inr (AppendMPI [] gx)" "ake_xhashedGx a0 = v_hash2 S v (AppendMPI [] gx)"
      "mpi_ok gx" "isGroupElement S gx"
    and m: "revealSig_deserialize out v = Inr \<lparr>rs_r = r, rs_encryptedSig = enc,
         rs_macSig = take 20 (sumHMAC S (ak_m2 (reveal_key S s v)) (AppendData [] enc) v)\<rparr>"
    and sg: "decrypt S (ak_c (reveal_key S s v)) enc = Inr (DSAPublicKey_serialize pub @ SerializeWord 1 @ sg)" "pub_ok pub"
      "key_Verify S (pub\<lparr>pk_loc := c_alloc c\<rparr>) (sumHMAC S (ak_m1 (reveal_key S s v)) (appendAll gx gy pub 1) v) sg
         = Some ([], True)"
  shows "processRevealSig S out c = Some (Inr (),
      c\<lparr>c_ssid := ssid_of S s v, c_theirKey := Some (pub\<lparr>pk_loc := c_alloc c\<rparr>), c_alloc := c_alloc c + 1,
        c_ake := Some (a0\<lparr>ake_theirPublicValue := Some gx, ake_revealKey := reveal_key S s v, ake_sigKey := sig_key S s v,
          ake_keys := (ake_keys a0)\<lparr>km_theirKeyID := 1\<rparr>\<rparr>)\<rparr>)"
proof -
  let ?a2 = "a0\<lparr>ake_theirPublicValue := Some gx, ake_revealKey := reveal_key S s v, ake_sigKey := sig_key S s v\<rparr>"
  let ?c2 = "c\<lparr>c_ssid := ssid_of S s v, c_ake := Some ?a2\<rparr>"
  have "processEncryptedSig S enc (take 20 (sumHMAC S (ak_m2 (reveal_key S s v)) (AppendData [] enc) v)) (reveal_key S s v) ?c2 =
      Some (Inr (), upd_ake (\<lambda>a. a\<lparr>ake_keys := (ake_keys a)\<lparr>km_theirKeyID := 1\<rparr>\<rparr>)
        (?c2\<lparr>c_theirKey := Some (pub\<lparr>pk_loc := c_alloc ?c2\<rparr>), c_alloc := c_alloc ?c2 + 1\<rparr>))"
    by (rule processEncryptedSig_ok [where a = ?a2 and our = gy and their = gx, OF sg(1) ake_key_lengths(1) sg(2)])
       (use c sg(3) in simp_all)
  moreover have "extractGx S (AppendMPI [] gx) = (Some gx, None)"
    using gx(3,4) mpi.dec_enc_exact by (simp add: extractGx_def)
  ultimately show ?thesis
    using c gx(1,2) m
    by (simp add: processRevealSig_def checkDecryptedGx_def calcDHSharedSecret_def calcAKEKeys_alt wrap_error_def
        upd_ake_def s_def [symmetric])
qed

text \<open>Its answer, the signature message.\<close>

lemma sigMessage_ok:
  assumes c: "c_version c = Some v" "c_ourCurrentKey c = Some sk" "key_pair_ok S n sk" "n \<le> length (c_Rand c)"
    and a: "c_ake c = Some a" "ake_ourPublicValue a = Some our" "ake_theirPublicValue a = Some their"
      "km_ourKeyID (ake_keys a) = 0" "ake_sigKey a = sig_key S s v"
  shows "\<exists>out enc sg rnd. sigMessage S c =
      Some (Inr out, c\<lparr>c_Rand := rnd, c_ake := Some (a\<lparr>ake_keys := (ake_keys a)\<lparr>km_ourKeyID := 1\<rparr>\<rparr>)\<rparr>)
    \<and> sig_deserialize out = Inr \<lparr>sg_encryptedSig = enc,
         sg_macSig = take 20 (sumHMAC S (ak_m2 (sig_key S s v)) (AppendData [] enc) v)\<rparr>
    \<and> decrypt S (ak_c (sig_key S s v)) enc = Inr (DSAPublicKey_serialize (sk_DSAPublicKey sk) @ SerializeWord 1 @ sg)
    \<and> length (c_Rand c) \<le> length rnd + n
    \<and> key_Verify S ((sk_DSAPublicKey sk)\<lparr>pk_loc := l\<rparr>)
         (sumHMAC S (ak_m1 (sig_key S s v)) (appendAll our their (sk_DSAPublicKey sk) 1) v) sg = Some ([], True)"
proof -
  let ?K = "sig_key S s v" and ?a = "a\<lparr>ake_keys := (ake_keys a)\<lparr>km_ourKeyID := 1\<rparr>\<rparr>"
  let ?c1 = "c\<lparr>c_ake := Some ?a\<rparr>"
  have pre: "c_ourCurrentKey ?c1 = Some sk" "n \<le> length (c_Rand ?c1)" "c_version ?c1 = Some v" using c by simp_all
  obtain enc sg rnd where gen: "generateEncryptedSignature S ?K ?c1 = Some (Inr (AppendData [] enc), ?c1\<lparr>c_Rand := rnd\<rparr>)"
      "decrypt S (ak_c ?K) enc = Inr (DSAPublicKey_serialize (sk_DSAPublicKey sk) @ SerializeWord 1 @ sg)"
      "length enc = length (DSAPublicKey_serialize (sk_DSAPublicKey sk)) + 44" "length (c_Rand c) \<le> length rnd + n"
      "key_Verify S ((sk_DSAPublicKey sk)\<lparr>pk_loc := l\<rparr>)
         (sumHMAC S (ak_m1 ?K) (appendAll our their (sk_DSAPublicKey sk) 1) v) sg = Some ([], True)"
    using generateEncryptedSignature_ok [OF pre(1) c(3) pre(2) _ _ _ pre(3) ake_key_lengths(2), of ?a our their s v l] a
    by auto
  let ?mac = "sumHMAC S (ak_m2 ?K) (AppendData [] enc) v"
  have "data_ok enc" using gen(3) c(3) by (simp add: data_ok_def key_pair_ok_def Let_def)
  moreover have "20 \<le> length ?mac" by (simp add: sumHMAC_def length_hmac_sha256)
  ultimately obtain out where out: "sig_serialize \<lparr>sg_encryptedSig = AppendData [] enc, sg_macSig = ?mac\<rparr> v = Some out"
      "sig_deserialize out = Inr \<lparr>sg_encryptedSig = enc, sg_macSig = take 20 ?mac\<rparr>"
    using sig_roundtrip by blast
  have "sigMessage S c = Some (Inr out, c\<lparr>c_Rand := rnd, c_ake := Some ?a\<rparr>)"
    using a c(1) gen(1) out(1) by (simp add: sigMessage_def incr_ourKeyID_def upd_ake_def)
  with gen out show ?thesis by blast
qed

end


lemma in_session_frame:
  "in_session S v sk x their rnd tk c \<Longrightarrow> in_session S v sk x their rnd tk (c\<lparr>c_tick := n, c_ake := ak\<rparr>)"
  by (simp add: in_session_def steady_def ready_def)

lemma in_session_resend: "in_session S v sk x their rnd tk c \<Longrightarrow> resend_m (c_resend c) = []"
  by (simp add: in_session_def steady_def)

text \<open>The end of \<^verbatim>\<open>processAKE\<close> on the last two messages.\<close>

lemma finish_processAKE:
  assumes "in_session S v sk x their rnd tk c" "c_ake c = Some a'" "same_peer c0 c"
  shows "maybeRetransmit S (store_state st c) = Some (Inr [], store_state st c)"
    and "\<exists>c''. upd_ake f ((store_state st c)\<lparr>c_tick := n\<rparr>) = c'' \<and> in_session S v sk x their rnd tk c'' \<and> same_peer c0 c''"
  using assms in_session_resend [OF assms(1)]
  by (simp_all add: maybeRetransmit_none store_state_def in_session_def upd_ake_def steady_def ready_def same_peer_def)

context dh_suite
begin

lemma processAKE_RevealSig_ok:
  fixes c v y gx
  defines "gy \<equiv> modExp S (dh_g1 S) y" and "s \<equiv> modExp S gx y"
  assumes c: "steady v sk c" "key_pair_ok S n sk" "n + 40 \<le> length (c_Rand c)"
    and a: "c_ake c = Some a0" "ake_secretExponent a0 = Some y" "ake_ourPublicValue a0 = Some gy"
      "ake_keys a0 = nil_keys" "ake_state a0 = authStateAwaitingRevealSig"
    and gx: "decrypt S r (ake_encryptedGx a0) = Inr (AppendMPI [] gx)" "ake_xhashedGx a0 = v_hash2 S v (AppendMPI [] gx)"
      "mpi_ok gx" "isGroupElement S gx"
    and m: "revealSig_deserialize out v = Inr \<lparr>rs_r = r, rs_encryptedSig = enc,
         rs_macSig = take 20 (sumHMAC S (ak_m2 (reveal_key S s v)) (AppendData [] enc) v)\<rparr>"
    and sg: "decrypt S (ak_c (reveal_key S s v)) enc = Inr (DSAPublicKey_serialize pub @ SerializeWord 1 @ sg)" "pub_ok pub"
      "key_Verify S (pub\<lparr>pk_loc := c_alloc c\<rparr>) (sumHMAC S (ak_m1 (reveal_key S s v)) (appendAll gx gy pub 1) v) sg
         = Some ([], True)"
  shows "\<exists>out' enc' sg' rnd c'. processAKE S msgTypeRevealSig out c =
        Some (([header_bytes v (c_ourInstanceTag c) (c_theirInstanceTag c) msgTypeSig @ out'], None), c')
    \<and> sig_deserialize out' = Inr \<lparr>sg_encryptedSig = enc',
         sg_macSig = take 20 (sumHMAC S (ak_m2 (sig_key S s v)) (AppendData [] enc') v)\<rparr>
    \<and> decrypt S (ak_c (sig_key S s v)) enc' = Inr (DSAPublicKey_serialize (sk_DSAPublicKey sk) @ SerializeWord 1 @ sg')
    \<and> key_Verify S ((sk_DSAPublicKey sk)\<lparr>pk_loc := l\<rparr>)
         (sumHMAC S (ak_m1 (sig_key S s v)) (appendAll gy gx (sk_DSAPublicKey sk) 1) v) sg' = Some ([], True)
    \<and> in_session S v sk y gx rnd pub c' \<and> same_peer c c'"
proof -
  have ver: "c_version c = Some v" "c_ourCurrentKey c = Some sk" using c(1) by (simp_all add: steady_def ready_def)
  let ?a1 = "a0\<lparr>ake_theirPublicValue := Some gx, ake_revealKey := reveal_key S s v, ake_sigKey := sig_key S s v,
      ake_keys := nil_keys\<lparr>km_theirKeyID := 1\<rparr>\<rparr>"
  let ?c1 = "c\<lparr>c_ssid := ssid_of S s v, c_theirKey := Some (pub\<lparr>pk_loc := c_alloc c\<rparr>), c_alloc := c_alloc c + 1, c_ake := Some ?a1\<rparr>"
  have rs: "processRevealSig S out c = Some (Inr (), ?c1)"
    using processRevealSig_ok [OF ver(1) a(1-3) [unfolded gy_def] gx m [unfolded s_def]] sg a(4)
    by (simp add: s_def gy_def)
  obtain out' enc' sg' rnd where sig: "sigMessage S ?c1 =
      Some (Inr out', ?c1\<lparr>c_Rand := rnd, c_ake := Some (?a1\<lparr>ake_keys := (ake_keys ?a1)\<lparr>km_ourKeyID := 1\<rparr>\<rparr>)\<rparr>)" (is "_ = Some (_, ?c2)")
      "sig_deserialize out' = Inr \<lparr>sg_encryptedSig = enc',
         sg_macSig = take 20 (sumHMAC S (ak_m2 (sig_key S s v)) (AppendData [] enc') v)\<rparr>"
      "decrypt S (ak_c (sig_key S s v)) enc' = Inr (DSAPublicKey_serialize (sk_DSAPublicKey sk) @ SerializeWord 1 @ sg')"
      "length (c_Rand ?c1) \<le> length rnd + n"
      "key_Verify S ((sk_DSAPublicKey sk)\<lparr>pk_loc := l\<rparr>)
         (sumHMAC S (ak_m1 (sig_key S s v)) (appendAll gy gx (sk_DSAPublicKey sk) 1) v) sg' = Some ([], True)"
    using sigMessage_ok [of ?c1 v sk n ?a1 gy gx s l] ver c(2,3) a by (auto simp: nil_keys_def)
  let ?msg = "header_bytes v (c_ourInstanceTag c) (c_theirInstanceTag c) msgTypeSig @ out'"
  have wrap: "wrapMessageHeader msgTypeSig out' ?c2 = Some (Inr ?msg, ?c2)"
    using wrapMessageHeader_ready [of v ?c2] c(1) by (simp add: steady_def ready_def)
  let ?a3 = "?a1\<lparr>ake_keys := setOurCurrentDHKeys y gy (setTheirCurrentDHPubKey gx (nil_keys\<lparr>km_ourKeyID := 1, km_theirKeyID := 1\<rparr>))\<rparr>"
  let ?c3 = "?c2\<lparr>c_ake := Some ?a3, c_sentRevealSig := False\<rparr>"
  have st3: "steady v sk ?c3" "40 \<le> length (c_Rand ?c3)" using c sig(4) by (simp_all add: steady_def ready_def)
  obtain c4 a4 where fin: "akeHasFinished S ?c3 = Some (None, c4)" "in_session S v sk y gx rnd pub c4"
      "c_ake c4 = Some a4" "same_peer ?c3 c4"
    using akeHasFinished_ok [where S = S and a = ?a3 and x = y and their = gx and tk = pub and l = "c_alloc c", OF st3(1) _ st3(2)] by (auto simp: gy_def s_def)
  have "receiveRevealSigMessage S authStateAwaitingRevealSig out c = Some ((authStateNone, Some ?msg, None), c4)"
    using rs sig(1) wrap fin(1) a
    by (simp add: receiveRevealSigMessage_def setDHKeys_def upd_ake_def setOurCurrentDHKeys_def
        setTheirCurrentDHPubKey_def nil_keys_def)
  moreover have "ensureAKE c = c" using a(1) by (simp add: ensureAKE_def)
  ultimately have "\<exists>c'. processAKE S msgTypeRevealSig out c = Some (([?msg], None), c')
      \<and> in_session S v sk y gx rnd pub c' \<and> same_peer c c'"
    using a fin finish_processAKE [OF fin(2,3), of c]
    by (simp add: processAKE_def message_types time_Now_def same_peer_def)
  with sig(2,3,5) show ?thesis by blast
qed

lemma processAKE_Sig_ok:
  fixes c v x gy
  defines "gx \<equiv> modExp S (dh_g1 S) x" and "s \<equiv> modExp S gy x"
  assumes c: "steady v sk c" "40 \<le> length (c_Rand c)" "c_ssid c = ssid_of S s v"
    and a: "c_ake c = Some (revealed S v a0 x gy msg t)" "ake_ourPublicValue a0 = Some gx"
    and m: "sig_deserialize out = Inr \<lparr>sg_encryptedSig = enc,
         sg_macSig = take 20 (sumHMAC S (ak_m2 (sig_key S s v)) (AppendData [] enc) v)\<rparr>"
    and sg: "decrypt S (ak_c (sig_key S s v)) enc = Inr (DSAPublicKey_serialize pub @ SerializeWord 1 @ sg)" "pub_ok pub"
      "key_Verify S (pub\<lparr>pk_loc := c_alloc c\<rparr>) (sumHMAC S (ak_m1 (sig_key S s v)) (appendAll gy gx pub 1) v) sg
         = Some ([], True)"
  shows "\<exists>c'. processAKE S msgTypeSig out c = Some (([], None), c')
    \<and> in_session S v sk x gy (c_Rand c) pub c' \<and> same_peer c c'"
proof -
  let ?a = "revealed S v a0 x gy msg t"
  have ver: "c_version c = Some v" using c(1) by (simp add: steady_def ready_def)
  have pub: "ake_ourPublicValue ?a = Some gx" "ake_theirPublicValue ?a = Some gy" "ake_sigKey ?a = sig_key S s v"
      "ake_state ?a = authStateAwaitingSig msg"
    using a(2) by (simp_all add: revealed_def Let_def s_def)
  let ?c1 = "c\<lparr>c_theirKey := Some (pub\<lparr>pk_loc := c_alloc c\<rparr>), c_alloc := c_alloc c + 1,
      c_ake := Some (?a\<lparr>ake_keys := (ake_keys ?a)\<lparr>km_theirKeyID := 1\<rparr>\<rparr>)\<rparr>"
  have "processSig S out c = Some (Inr (), ?c1)"
    using processEncryptedSig_ok [OF sg(1) ake_key_lengths(2) sg(2) ver a(1) pub(1,2) sg(3)] a(1) m pub(3)
    by (simp add: processSig_def wrap_error_def upd_ake_def)
  moreover
  let ?a2 = "?a\<lparr>ake_keys := setTheirCurrentDHPubKey gy ((ake_keys ?a)\<lparr>km_theirKeyID := 1\<rparr>)\<rparr>"
  let ?c2 = "?c1\<lparr>c_ake := Some ?a2\<rparr>"
  have "steady v sk ?c2" using c(1) by (simp add: steady_def ready_def)
  then obtain c4 a4 where fin: "akeHasFinished S ?c2 = Some (None, c4)" "in_session S v sk x gy (c_Rand c) pub c4"
      "c_ake c4 = Some a4" "same_peer ?c2 c4"
    using akeHasFinished_ok [of v sk ?c2, where S = S and a = ?a2 and x = x and their = gy and tk = pub and l = "c_alloc c"] c(2,3)
    by (auto simp: s_def revealed_def Let_def setOurCurrentDHKeys_def setTheirCurrentDHPubKey_def nil_keys_def)
  ultimately have "receiveSigMessage S (ake_state ?a) out c = Some ((authStateNone, None, None), c4)"
    using pub by (simp add: receiveSigMessage_def upd_ake_def)
  moreover have "ensureAKE c = c" using a(1) by (simp add: ensureAKE_def)
  ultimately show ?thesis
    using a(1) fin finish_processAKE [OF fin(2,3), of c]
    by (simp add: processAKE_def message_types time_Now_def same_peer_def)
qed

end


section \<open>The exchange over the wire\<close>

definition ake_type :: "byte \<Rightarrow> bool" where
  "ake_type ty \<longleftrightarrow> ty \<in> {msgTypeDHCommit, msgTypeDHKey, msgTypeRevealSig, msgTypeSig}"

lemma steady_simps [simp]:
  "steady v sk (learn_tag w a c) = steady v sk c" "steady v sk (c\<lparr>c_fragmentationContext := f, c_injections := []\<rparr>) = (steady v sk (c\<lparr>c_injections := []\<rparr>))"
  by (simp_all add: steady_def ready_def learn_tag_def)

lemma steady_fields:
  "steady v sk c \<Longrightarrow> ready v c" "steady v sk c \<Longrightarrow> c_ourCurrentKey c = Some sk" "steady v sk c \<Longrightarrow> c_version c = Some v"
  by (simp_all add: steady_def ready_def)

text \<open>The state in which \<^verbatim>\<open>Receive\<close> leaves a conversation whose handler left it in \<open>c\<close>.\<close>

definition settled :: "conversation \<Rightarrow> conversation" where
  "settled c = c\<lparr>c_fragmentationContext := forgetFragment, c_injections := []\<rparr>"

lemma settled_fields [simp]:
  "c_ake (settled c) = c_ake c" "c_Rand (settled c) = c_Rand c" "c_alloc (settled c) = c_alloc c"
  "c_ssid (settled c) = c_ssid c" "c_keys (settled c) = c_keys c" "c_theirKey (settled c) = c_theirKey c"
  "c_ourInstanceTag (settled c) = c_ourInstanceTag c" "c_theirInstanceTag (settled c) = c_theirInstanceTag c"
  "same_peer c' (settled c) = same_peer c' c" "same_peer (settled c) c' = same_peer c c'"
  by (simp_all add: settled_def same_peer_def)

lemma steady_settled [simp]: "steady v sk c \<Longrightarrow> steady v sk (settled c)"
  by (simp add: settled_def steady_def ready_def)

lemma in_session_settled: "in_session S v sk x their rnd tk c \<Longrightarrow> in_session S v sk x their rnd tk (settled c)"
  by (simp add: in_session_def steady_def ready_def settled_def)

lemma receive_ake:
  assumes a: "ready v a" and b: "steady v sk b" and t: "tags_match v a b" "ake_type ty"
    and p: "processAKE S ty body (learn_tag v a b) = Some ((ms, None), b')" "steady v sk b'" "ms = [] \<or> hd ms \<noteq> []"
  shows "c_Receive S (Suc k) (encode (header_bytes v (c_ourInstanceTag a) (c_theirInstanceTag a) ty @ body)) b =
    Finished (Some ((None, map encode ms, None), settled b'))"
proof -
  let ?hdr = "header_bytes v (c_ourInstanceTag a) (c_theirInstanceTag a) ty"
  have "guessMessageType (encode (?hdr @ body)) \<in> {msgGuessDHCommit, msgGuessDHKey, msgGuessRevealSig, msgGuessSignature}"
    using t(2) guessMessageType_encode(1-4) by (auto simp: ake_type_def)
  moreover have "receiveEncoded S (encode (?hdr @ body)) b = Some ((None, ms, None), b')"
    using steady_fields [OF b] p(1) parseMessageHeader_match [OF a _ t(1)] checkVersion_header [of b v] t(2)
    by (auto simp: receiveEncoded_def decode_encode receiveDecoded_def receiveAKEMessage_def potentialAuthError_def
        ake_type_def message_types)
  moreover have "finish_receive True ((None, ms, None), b') = Some ((None, map encode ms, None), settled b')"
    using p(2,3) by (auto simp: finish_receive_def toSendEncoded_def withInjectionsPlain_def withInjects_def
        encodeAndCombine_whole steady_def settled_def Let_def)
  ultimately show ?thesis using b by (auto simp: c_Receive_def steady_def)
qed

lemma in_session_quiet: "in_session S v sk x their rnd tk c \<Longrightarrow> quiet v c"
  by (simp add: in_session_def steady_def quiet_def)

lemma header_nonempty [simp]: "header_bytes v our their ty \<noteq> []"
  by (cases v) (simp_all add: SerializeShort_def put_be_2)


lemma ake_types [simp]:
  "ake_type msgTypeDHCommit" "ake_type msgTypeDHKey" "ake_type msgTypeRevealSig" "ake_type msgTypeSig"
  by (simp_all add: ake_type_def)

lemma receive_ake_reply:
  assumes "ready v a" "steady v sk b" "tags_match v a b" "ake_type ty"
    and "processAKE S ty body (learn_tag v a b) = Some (([header_bytes v o' t ty' @ body'], None), b')" "steady v sk b'"
  shows "c_Receive S (Suc k) (encode (header_bytes v (c_ourInstanceTag a) (c_theirInstanceTag a) ty @ body)) b =
    Finished (Some ((None, [encode (header_bytes v o' t ty' @ body')], None), settled b'))"
  using receive_ake [OF assms] by simp

lemma steady_frame [simp]:
  "steady v sk (c\<lparr>c_Rand := r\<rparr>) = steady v sk c" "steady v sk (c\<lparr>c_ake := ak\<rparr>) = steady v sk c"
  "steady v sk (c\<lparr>c_tick := n\<rparr>) = steady v sk c" "steady v sk (c\<lparr>c_ssid := s\<rparr>) = steady v sk c"
  "steady v sk (c\<lparr>c_sentRevealSig := b\<rparr>) = steady v sk c" "steady v sk (c\<lparr>c_theirKey := k\<rparr>) = steady v sk c"
  by (simp_all add: steady_def ready_def)

text \<open>Two peers that can run an exchange: \<open>a\<close> starts it.\<close>

definition can_run :: "suite \<Rightarrow> otrVersion \<Rightarrow> nat \<Rightarrow> DSAPrivateKey \<Rightarrow> DSAPrivateKey \<Rightarrow> conversation \<Rightarrow> conversation \<Rightarrow> bool" where
  "can_run S v n ska skb a b \<longleftrightarrow>
     steady v ska a \<and> steady v skb b \<and> key_pair_ok S n ska \<and> key_pair_ok S n skb
     \<and> tags_match v a b \<and> tags_match v b a \<and> takes_commit b
     \<and> n + 96 \<le> length (c_Rand a) \<and> n + 80 \<le> length (c_Rand b)
     \<and> isGroupElement S (modExp S (dh_g1 S) (exponent_of (c_Rand a)))
     \<and> isGroupElement S (modExp S (dh_g1 S) (exponent_of (c_Rand b)))
     \<and> 16 \<le> length (AppendMPI [] (modExp S (dh_g1 S) (exponent_of (c_Rand a))))"

text \<open>Agreement of the two ends of an exchange.\<close>

definition agreed :: "suite \<Rightarrow> otrVersion \<Rightarrow> DSAPrivateKey \<Rightarrow> DSAPrivateKey \<Rightarrow> conversation \<Rightarrow> conversation \<Rightarrow> bool" where
  "agreed S v ska skb a b \<longleftrightarrow> channel S v a b \<and> c_ssid a = c_ssid b
     \<and> (\<exists>l. c_theirKey a = Some ((sk_DSAPublicKey skb)\<lparr>pk_loc := l\<rparr>))
     \<and> (\<exists>l. c_theirKey b = Some ((sk_DSAPublicKey ska)\<lparr>pk_loc := l\<rparr>))"

lemma in_session_agreed:
  assumes "in_session S v ska x (modExp S (dh_g1 S) y) ra (sk_DSAPublicKey skb) a"
    "in_session S v skb y (modExp S (dh_g1 S) x) rb (sk_DSAPublicKey ska) b"
    "0 \<le> x" "0 \<le> y" "tags_match v a b" "tags_match v b a"
  shows "agreed S v ska skb a b"
proof -
  have "modExp S (modExp S (dh_g1 S) y) x = modExp S (modExp S (dh_g1 S) x) y"
    unfolding modExp_def using assms(4,3) by (rule exp_comm)
  then show ?thesis
    using assms in_session_quiet [OF assms(1)] in_session_quiet [OF assms(2)] first_keys_linked [OF assms(3,4), of S ra rb]
    by (auto simp: agreed_def channel_def in_session_def)
qed

lemma learn_tag_same: "same_peer (learn_tag v a b) b1 \<Longrightarrow> c_ourInstanceTag a' = c_ourInstanceTag a \<Longrightarrow> learn_tag v a' b1 = b1"
  by (cases "v = OtrV3") (simp_all add: same_peer_def learn_tag_def)

lemma learn_tag_takes [simp]: "takes_commit (learn_tag v a b) = takes_commit b"
  by (simp add: takes_commit_def learn_tag_def)

lemma learn_tag_more [simp]:
  "c_theirInstanceTag (learn_tag v a b) = (if v = OtrV3 then c_ourInstanceTag a else c_theirInstanceTag b)"
  "c_alloc (learn_tag v a b) = c_alloc b" "c_ourCurrentKey (learn_tag v a b) = c_ourCurrentKey b"
  "c_ssid (learn_tag v a b) = c_ssid b" "ready v (learn_tag w a b) = ready v b"
  by (simp_all add: learn_tag_def ready_def)

context dh_suite
begin

lemma wire_DHCommit:
  assumes a: "ready v a" and b: "steady v sk b" "takes_commit b" "40 \<le> length (c_Rand b)" and t: "tags_match v a b"
    and dc: "data_ok (dc_encryptedGx dc)" "data_ok (dc_yhashedGx dc)"
  shows "\<exists>b' t. c_Receive S (Suc k)
        (encode (header_bytes v (c_ourInstanceTag a) (c_theirInstanceTag a) msgTypeDHCommit @ dhCommit_serialize dc)) b =
      Finished (Some ((None, [encode (header_bytes v (c_ourInstanceTag b') (c_theirInstanceTag b') msgTypeDHKey
        @ dhKey_serialize \<lparr>dk_gy = modExp S (dh_g1 S) (exponent_of (c_Rand b))\<rparr>)], None), b'))
    \<and> steady v sk b' \<and> same_peer (learn_tag v a b) b' \<and> c_alloc b' = c_alloc b \<and> c_Rand b' = drop 40 (c_Rand b)
    \<and> c_ake b' = Some (answered S (c_Rand b) dc t)"
proof -
  let ?b0 = "learn_tag v a b"
  let ?b1 = "?b0\<lparr>c_Rand := drop 40 (c_Rand b), c_ake := Some (answered S (c_Rand b) dc (c_clock ?b0 (c_tick ?b0))), c_tick := c_tick ?b0 + 1\<rparr>"
  have sb1: "steady v sk ?b1" using b(1) by simp
  have "processAKE S msgTypeDHCommit (dhCommit_serialize dc) ?b0 = Some (([header_bytes v (c_ourInstanceTag ?b1)
      (c_theirInstanceTag ?b1) msgTypeDHKey @ dhKey_serialize \<lparr>dk_gy = modExp S (dh_g1 S) (exponent_of (c_Rand b))\<rparr>], None), ?b1)"
    using processAKE_DHCommit_ok [of v ?b0 dc] dc b steady_fields(1) [OF b(1)] by simp
  from receive_ake_reply [OF a b(1) t ake_types(1) this sb1, of k] sb1 show ?thesis
    by (intro exI [of _ "settled ?b1"] exI [of _ "c_clock ?b0 (c_tick ?b0)"]) (simp add: same_peer_def)
qed

lemma wire_DHKey:
  fixes a v x gy
  defines "gx \<equiv> modExp S (dh_g1 S) x" and "s \<equiv> modExp S gy x"
  assumes b: "ready v b" and a: "steady v sk a" "key_pair_ok S n sk" "n \<le> length (c_Rand a)" and t: "tags_match v b a"
    and ak: "c_ake a = Some a0" "ake_secretExponent a0 = Some x" "ake_ourPublicValue a0 = Some gx"
      "ake_theirPublicValue a0 = None" "ake_keys a0 = nil_keys" "ake_state a0 = authStateAwaitingDHKey"
      "length (ake_r a0) = 16"
    and gy: "mpi_ok gy" "isGroupElement S gy"
  shows "\<exists>a' msg t out enc sg. c_Receive S (Suc k)
        (encode (header_bytes v (c_ourInstanceTag b) (c_theirInstanceTag b) msgTypeDHKey @ dhKey_serialize \<lparr>dk_gy = gy\<rparr>)) a =
      Finished (Some ((None, [encode (header_bytes v (c_ourInstanceTag a') (c_theirInstanceTag a') msgTypeRevealSig @ out)], None), a'))
    \<and> steady v sk a' \<and> same_peer (learn_tag v b a) a' \<and> c_alloc a' = c_alloc a \<and> length (c_Rand a) \<le> length (c_Rand a') + n
    \<and> c_ake a' = Some (revealed S v a0 x gy msg t) \<and> c_ssid a' = ssid_of S s v
    \<and> revealSig_deserialize out v = Inr \<lparr>rs_r = ake_r a0, rs_encryptedSig = enc,
         rs_macSig = take 20 (sumHMAC S (ak_m2 (reveal_key S s v)) (AppendData [] enc) v)\<rparr>
    \<and> decrypt S (ak_c (reveal_key S s v)) enc = Inr (DSAPublicKey_serialize (sk_DSAPublicKey sk) @ SerializeWord 1 @ sg)
    \<and> key_Verify S ((sk_DSAPublicKey sk)\<lparr>pk_loc := l\<rparr>)
         (sumHMAC S (ak_m1 (reveal_key S s v)) (appendAll gx gy (sk_DSAPublicKey sk) 1) v) sg = Some ([], True)"
proof -
  let ?a0 = "learn_tag v b a"
  let ?hdr = "header_bytes v (c_ourInstanceTag ?a0) (c_theirInstanceTag ?a0) msgTypeRevealSig"
  let ?a2 = "\<lambda>rnd msg. ?a0\<lparr>c_ssid := ssid_of S s v, c_ake := Some (revealed S v a0 x gy msg (c_clock ?a0 (c_tick ?a0))),
      c_Rand := rnd, c_sentRevealSig := True, c_tick := c_tick ?a0 + 1\<rparr>"
  have pre: "ready v ?a0" "c_ourCurrentKey ?a0 = Some sk" "n \<le> length (c_Rand ?a0)" "c_ake ?a0 = Some a0"
    using a ak steady_fields [OF a(1)] by simp_all
  obtain out enc sg rnd where p: "processAKE S msgTypeDHKey (dhKey_serialize \<lparr>dk_gy = gy\<rparr>) ?a0 =
        Some (([?hdr @ out], None), ?a2 rnd (?hdr @ out))"
    and len: "length (c_Rand a) \<le> length rnd + n"
    and res: "revealSig_deserialize out v = Inr \<lparr>rs_r = ake_r a0, rs_encryptedSig = enc,
         rs_macSig = take 20 (sumHMAC S (ak_m2 (reveal_key S s v)) (AppendData [] enc) v)\<rparr>"
      "decrypt S (ak_c (reveal_key S s v)) enc = Inr (DSAPublicKey_serialize (sk_DSAPublicKey sk) @ SerializeWord 1 @ sg)"
      "key_Verify S ((sk_DSAPublicKey sk)\<lparr>pk_loc := l\<rparr>)
         (sumHMAC S (ak_m1 (reveal_key S s v)) (appendAll gx gy (sk_DSAPublicKey sk) 1) v) sg = Some ([], True)"
    using processAKE_DHKey_ok [OF pre(1,2) a(2) pre(3,4) ak(2-7) [unfolded gx_def] gy, of l, folded gx_def s_def]
    unfolding learn_tag_fields by blast
  have "steady v sk (?a2 rnd (?hdr @ out))" using a(1) by simp
  with receive_ake_reply [OF b a(1) t ake_types(2) p, of k] res len show ?thesis
    by (intro exI [of _ "settled (?a2 rnd (?hdr @ out))"] exI [of _ "?hdr @ out"]) (auto simp: same_peer_def)
qed

end


lemma in_session_steady: "in_session S v sk x their rnd tk c \<Longrightarrow> steady v sk c"
  by (simp add: in_session_def)

context dh_suite
begin

lemma wire_RevealSig:
  fixes b v y gx
  defines "gy \<equiv> modExp S (dh_g1 S) y" and "s \<equiv> modExp S gx y"
  assumes a: "ready v a" and b: "steady v sk b" "key_pair_ok S n sk" "n + 40 \<le> length (c_Rand b)" and t: "tags_match v a b"
    and ak: "c_ake b = Some b0" "ake_secretExponent b0 = Some y" "ake_ourPublicValue b0 = Some gy"
      "ake_keys b0 = nil_keys" "ake_state b0 = authStateAwaitingRevealSig"
    and gx: "decrypt S r (ake_encryptedGx b0) = Inr (AppendMPI [] gx)" "ake_xhashedGx b0 = v_hash2 S v (AppendMPI [] gx)"
      "mpi_ok gx" "isGroupElement S gx"
    and m: "revealSig_deserialize out v = Inr \<lparr>rs_r = r, rs_encryptedSig = enc,
         rs_macSig = take 20 (sumHMAC S (ak_m2 (reveal_key S s v)) (AppendData [] enc) v)\<rparr>"
    and sg: "decrypt S (ak_c (reveal_key S s v)) enc = Inr (DSAPublicKey_serialize pub @ SerializeWord 1 @ sg)" "pub_ok pub"
      "key_Verify S (pub\<lparr>pk_loc := c_alloc b\<rparr>) (sumHMAC S (ak_m1 (reveal_key S s v)) (appendAll gx gy pub 1) v) sg
         = Some ([], True)"
  shows "\<exists>b' out' enc' sg' rnd. c_Receive S (Suc k)
        (encode (header_bytes v (c_ourInstanceTag a) (c_theirInstanceTag a) msgTypeRevealSig @ out)) b =
      Finished (Some ((None, [encode (header_bytes v (c_ourInstanceTag b') (c_theirInstanceTag b') msgTypeSig @ out')], None), b'))
    \<and> in_session S v sk y gx rnd pub b' \<and> same_peer (learn_tag v a b) b'
    \<and> sig_deserialize out' = Inr \<lparr>sg_encryptedSig = enc',
         sg_macSig = take 20 (sumHMAC S (ak_m2 (sig_key S s v)) (AppendData [] enc') v)\<rparr>
    \<and> decrypt S (ak_c (sig_key S s v)) enc' = Inr (DSAPublicKey_serialize (sk_DSAPublicKey sk) @ SerializeWord 1 @ sg')
    \<and> key_Verify S ((sk_DSAPublicKey sk)\<lparr>pk_loc := l\<rparr>)
         (sumHMAC S (ak_m1 (sig_key S s v)) (appendAll gy gx (sk_DSAPublicKey sk) 1) v) sg' = Some ([], True)"
proof -
  let ?b0 = "learn_tag v a b"
  have pre: "steady v sk ?b0" "n + 40 \<le> length (c_Rand ?b0)" "c_ake ?b0 = Some b0" using b ak(1) by simp_all
  have ver: "key_Verify S (pub\<lparr>pk_loc := c_alloc ?b0\<rparr>) (sumHMAC S (ak_m1 (reveal_key S s v)) (appendAll gx gy pub 1) v) sg
      = Some ([], True)" using sg(3) by simp
  obtain out' enc' sg' rnd b' where p: "processAKE S msgTypeRevealSig out ?b0 =
        Some (([header_bytes v (c_ourInstanceTag ?b0) (c_theirInstanceTag ?b0) msgTypeSig @ out'], None), b')"
    and res: "sig_deserialize out' = Inr \<lparr>sg_encryptedSig = enc',
         sg_macSig = take 20 (sumHMAC S (ak_m2 (sig_key S s v)) (AppendData [] enc') v)\<rparr>"
      "decrypt S (ak_c (sig_key S s v)) enc' = Inr (DSAPublicKey_serialize (sk_DSAPublicKey sk) @ SerializeWord 1 @ sg')"
      "key_Verify S ((sk_DSAPublicKey sk)\<lparr>pk_loc := l\<rparr>)
         (sumHMAC S (ak_m1 (sig_key S s v)) (appendAll gy gx (sk_DSAPublicKey sk) 1) v) sg' = Some ([], True)"
    and s': "in_session S v sk y gx rnd pub b'" "same_peer ?b0 b'"
    using processAKE_RevealSig_ok [OF pre(1) b(2) pre(2,3) ak(2-5) [unfolded gy_def] gx m [unfolded s_def]
        sg(1,2) [unfolded s_def] ver [unfolded gy_def s_def], of l, folded gy_def s_def]
    by blast
  from receive_ake_reply [OF a b(1) t ake_types(3) p in_session_steady [OF s'(1)], of k] s' res in_session_settled [OF s'(1)]
  show ?thesis by (intro exI [of _ "settled b'"]) (auto simp: same_peer_def)
qed

lemma wire_Sig:
  fixes a v x gy
  defines "gx \<equiv> modExp S (dh_g1 S) x" and "s \<equiv> modExp S gy x"
  assumes b: "ready v b" and a: "steady v sk a" "40 \<le> length (c_Rand a)" "c_ssid a = ssid_of S s v" and t: "tags_match v b a"
    and ak: "c_ake a = Some (revealed S v a0 x gy msg tm)" "ake_ourPublicValue a0 = Some gx"
    and m: "sig_deserialize out = Inr \<lparr>sg_encryptedSig = enc,
         sg_macSig = take 20 (sumHMAC S (ak_m2 (sig_key S s v)) (AppendData [] enc) v)\<rparr>"
    and sg: "decrypt S (ak_c (sig_key S s v)) enc = Inr (DSAPublicKey_serialize pub @ SerializeWord 1 @ sg)" "pub_ok pub"
      "key_Verify S (pub\<lparr>pk_loc := c_alloc a\<rparr>) (sumHMAC S (ak_m1 (sig_key S s v)) (appendAll gy gx pub 1) v) sg
         = Some ([], True)"
  shows "\<exists>a'. c_Receive S (Suc k)
        (encode (header_bytes v (c_ourInstanceTag b) (c_theirInstanceTag b) msgTypeSig @ out)) a =
      Finished (Some ((None, [], None), a'))
    \<and> in_session S v sk x gy (c_Rand a) pub a' \<and> same_peer (learn_tag v b a) a'"
proof -
  let ?a0 = "learn_tag v b a"
  have pre: "steady v sk ?a0" "40 \<le> length (c_Rand ?a0)" "c_ssid ?a0 = ssid_of S s v" "c_ake ?a0 = Some (revealed S v a0 x gy msg tm)"
    using a ak(1) by simp_all
  have ver: "key_Verify S (pub\<lparr>pk_loc := c_alloc ?a0\<rparr>) (sumHMAC S (ak_m1 (sig_key S s v)) (appendAll gy gx pub 1) v) sg
      = Some ([], True)" using sg(3) by simp
  obtain a' where p: "processAKE S msgTypeSig out ?a0 = Some (([], None), a')"
    and s': "in_session S v sk x gy (c_Rand a) pub a'" "same_peer ?a0 a'"
    using processAKE_Sig_ok [OF pre(1,2) pre(3) [unfolded s_def] pre(4) ak(2) [unfolded gx_def] m [unfolded s_def]
        sg(1,2) [unfolded s_def] ver [unfolded gx_def s_def]]
    by auto
  from receive_ake [OF b a(1) t ake_types(4) p in_session_steady [OF s'(1)], of k] s' in_session_settled [OF s'(1)]
  show ?thesis by (intro exI [of _ "settled a'"]) simp
qed

end


context dh_suite
begin

theorem key_exchange:
  assumes run: "can_run S v n ska skb a b"
  shows "\<exists>m1 m2 m3 m4 a1 a2 a3 b1 b2. sendDHCommit S a = Some (Inr m1, a1)
    \<and> c_Receive S (Suc k) (encode m1) b = Finished (Some ((None, [m2], None), b1))
    \<and> c_Receive S (Suc k) m2 a1 = Finished (Some ((None, [m3], None), a2))
    \<and> c_Receive S (Suc k) m3 b1 = Finished (Some ((None, [m4], None), b2))
    \<and> c_Receive S (Suc k) m4 a2 = Finished (Some ((None, [], None), a3))
    \<and> agreed S v ska skb a3 b2 \<and> c_Rand b1 = drop 40 (c_Rand b)"
proof -
  let ?x = "exponent_of (c_Rand a)" and ?y = "exponent_of (c_Rand b)"
  let ?gx = "modExp S (dh_g1 S) ?x" and ?gy = "modExp S (dh_g1 S) ?y"
  note r = run [unfolded can_run_def]
  have sa: "steady v ska a" and sb: "steady v skb b" and kp: "key_pair_ok S n ska" "key_pair_ok S n skb"
    and tags: "tags_match v a b" "tags_match v b a" and tk: "takes_commit b"
    and len: "n + 96 \<le> length (c_Rand a)" "n + 80 \<le> length (c_Rand b)"
    and grp: "isGroupElement S ?gx" "isGroupElement S ?gy" and big: "16 \<le> length (AppendMPI [] ?gx)"
    using r by auto
  have pubs: "mpi_ok ?gx" "mpi_ok ?gy" by (simp_all add: modExp_def mpi_ok_public)
  have pk: "pub_ok (sk_DSAPublicKey ska)" "pub_ok (sk_DSAPublicKey skb)" using kp by (simp_all add: key_pair_ok_def Let_def)
  have s: "modExp S ?gx ?y = modExp S ?gy ?x" unfolding modExp_def using exp_comm [of ?x ?y] by simp
  obtain enc where m1: "sendDHCommit S a =
      Some (Inr (header_bytes v (c_ourInstanceTag a) (c_theirInstanceTag a) msgTypeDHCommit
              @ dhCommit_serialize \<lparr>dc_encryptedGx = enc, dc_yhashedGx = v_hash2 S v (AppendMPI [] ?gx)\<rparr>),
            a\<lparr>c_Rand := drop 56 (c_Rand a), c_ake := Some (started S (c_Rand a) enc)\<rparr>)"
    and enc: "decrypt S (take 16 (drop 40 (c_Rand a))) enc = Inr (AppendMPI [] ?gx)" "length enc \<le> 196"
    using sendDHCommit_ok [OF steady_fields(1) [OF sa] _ big] len by auto
  define dc where "dc = \<lparr>dc_encryptedGx = enc, dc_yhashedGx = v_hash2 S v (AppendMPI [] ?gx)\<rparr>"
  define a1 where "a1 = a\<lparr>c_Rand := drop 56 (c_Rand a), c_ake := Some (started S (c_Rand a) enc)\<rparr>"
  have dc: "data_ok (dc_encryptedGx dc)" "data_ok (dc_yhashedGx dc)"
    using enc(2) by (simp_all add: dc_def data_ok_def length_sha256)
  have sa1: "steady v ska a1" and r1: "n + 40 \<le> length (c_Rand a1)" and sp1: "same_peer a a1" "c_alloc a1 = c_alloc a"
    and ak1: "c_ake a1 = Some (started S (c_Rand a) enc)"
    using sa len by (simp_all add: a1_def same_peer_def)
  obtain b1 t where w2: "c_Receive S (Suc k) (encode (header_bytes v (c_ourInstanceTag a) (c_theirInstanceTag a)
            msgTypeDHCommit @ dhCommit_serialize dc)) b
        = Finished (Some ((None, [encode (header_bytes v (c_ourInstanceTag b1) (c_theirInstanceTag b1) msgTypeDHKey
            @ dhKey_serialize \<lparr>dk_gy = ?gy\<rparr>)], None), b1))"
    and b1: "steady v skb b1" "same_peer (learn_tag v a b) b1" "c_alloc b1 = c_alloc b" "c_Rand b1 = drop 40 (c_Rand b)"
      "c_ake b1 = Some (answered S (c_Rand b) dc t)"
    using wire_DHCommit [OF steady_fields(1) [OF sa] sb tk _ tags(1) dc, of k] len by auto
  have tg1: "tags_match v b1 a1"
    using tags b1(2) sp1 by (auto simp: tags_match_def same_peer_def learn_tag_def split: if_splits)
  obtain a2 msg tm out encs sg where w3: "c_Receive S (Suc k) (encode (header_bytes v (c_ourInstanceTag b1) (c_theirInstanceTag b1)
            msgTypeDHKey @ dhKey_serialize \<lparr>dk_gy = ?gy\<rparr>)) a1
        = Finished (Some ((None, [encode (header_bytes v (c_ourInstanceTag a2) (c_theirInstanceTag a2) msgTypeRevealSig @ out)], None), a2))"
    and a2: "steady v ska a2" "same_peer (learn_tag v b1 a1) a2" "c_alloc a2 = c_alloc a1" "length (c_Rand a1) \<le> length (c_Rand a2) + n"
      "c_ake a2 = Some (revealed S v (started S (c_Rand a) enc) ?x ?gy msg tm)" "c_ssid a2 = ssid_of S (modExp S ?gy ?x) v"
    and rs: "revealSig_deserialize out v = Inr \<lparr>rs_r = ake_r (started S (c_Rand a) enc), rs_encryptedSig = encs,
         rs_macSig = take 20 (sumHMAC S (ak_m2 (reveal_key S (modExp S ?gy ?x) v)) (AppendData [] encs) v)\<rparr>"
      "decrypt S (ak_c (reveal_key S (modExp S ?gy ?x) v)) encs = Inr (DSAPublicKey_serialize (sk_DSAPublicKey ska) @ SerializeWord 1 @ sg)"
      "key_Verify S ((sk_DSAPublicKey ska)\<lparr>pk_loc := c_alloc b1\<rparr>)
         (sumHMAC S (ak_m1 (reveal_key S (modExp S ?gy ?x) v)) (appendAll ?gx ?gy (sk_DSAPublicKey ska) 1) v) sg = Some ([], True)"
    using wire_DHKey [OF steady_fields(1) [OF b1(1)] sa1 kp(1) _ tg1 ak1 _ _ _ _ _ _ pubs(2) grp(2), of ?x k "c_alloc b1"] r1 len
    by (auto simp: started_def nil_ake_def)
  have tg2: "tags_match v a2 b1"
    using tags b1(2) a2(2) sp1 by (auto simp: tags_match_def same_peer_def learn_tag_def split: if_splits)
  note rs' = rs [folded s]
  have rb1: "n + 40 \<le> length (c_Rand b1)" using len b1(4) by simp
  let ?b0 = "answered S (c_Rand b) dc t"
  have b0: "ake_secretExponent ?b0 = Some ?y" "ake_ourPublicValue ?b0 = Some ?gy" "ake_keys ?b0 = nil_keys"
    "ake_state ?b0 = authStateAwaitingRevealSig"
    "decrypt S (ake_r (started S (c_Rand a) enc)) (ake_encryptedGx ?b0) = Inr (AppendMPI [] ?gx)"
    "ake_xhashedGx ?b0 = v_hash2 S v (AppendMPI [] ?gx)"
    using enc(1) by (simp_all add: answered_def started_def dc_def nil_ake_def)
  obtain b2 out' enc' sg' rnd where w4: "c_Receive S (Suc k) (encode (header_bytes v (c_ourInstanceTag a2) (c_theirInstanceTag a2)
            msgTypeRevealSig @ out)) b1
        = Finished (Some ((None, [encode (header_bytes v (c_ourInstanceTag b2) (c_theirInstanceTag b2) msgTypeSig @ out')], None), b2))"
    and b2: "in_session S v skb ?y ?gx rnd (sk_DSAPublicKey ska) b2" "same_peer (learn_tag v a2 b1) b2"
    and ss: "sig_deserialize out' = Inr \<lparr>sg_encryptedSig = enc',
         sg_macSig = take 20 (sumHMAC S (ak_m2 (sig_key S (modExp S ?gx ?y) v)) (AppendData [] enc') v)\<rparr>"
      "decrypt S (ak_c (sig_key S (modExp S ?gx ?y) v)) enc' = Inr (DSAPublicKey_serialize (sk_DSAPublicKey skb) @ SerializeWord 1 @ sg')"
      "key_Verify S ((sk_DSAPublicKey skb)\<lparr>pk_loc := c_alloc a2\<rparr>)
         (sumHMAC S (ak_m1 (sig_key S (modExp S ?gx ?y) v)) (appendAll ?gy ?gx (sk_DSAPublicKey skb) 1) v) sg' = Some ([], True)"
    using wire_RevealSig [OF steady_fields(1) [OF a2(1)] b1(1) kp(2) rb1 tg2 b1(5) b0(1,2,3,4) b0(5) b0(6) pubs(1) grp(1)
        rs'(1,2) pk(1) rs'(3), of k "c_alloc a2"] by auto
  have tg3: "tags_match v b2 a2"
    using tags b1(2) a2(2) b2(2) sp1 by (auto simp: tags_match_def same_peer_def learn_tag_def split: if_splits)
  have sb2: "steady v skb b2" using b2(1) by (simp add: in_session_def)
  note ss' = ss [unfolded s]
  have ra2: "40 \<le> length (c_Rand a2)" using r1 a2(4) by linarith
  obtain a3 where w5: "c_Receive S (Suc k) (encode (header_bytes v (c_ourInstanceTag b2) (c_theirInstanceTag b2) msgTypeSig @ out')) a2
        = Finished (Some ((None, [], None), a3))"
    and a3: "in_session S v ska ?x ?gy (c_Rand a2) (sk_DSAPublicKey skb) a3" "same_peer (learn_tag v b2 a2) a3"
    using wire_Sig [OF steady_fields(1) [OF sb2] a2(1) ra2 a2(6) tg3 a2(5) _ ss'(1,2) pk(2) ss'(3), of k]
    by (auto simp: started_def)
  have tg4: "tags_match v a3 b2" "tags_match v b2 a3"
    using tags b1(2) a2(2) b2(2) a3(2) sp1 by (auto simp: tags_match_def same_peer_def learn_tag_def split: if_splits)
  have "agreed S v ska skb a3 b2"
    by (rule in_session_agreed [OF a3(1) b2(1) _ _ tg4]) simp_all
  then show ?thesis using m1 w2 w3 w4 w5 b1(4) unfolding dc_def a1_def by blast
qed

end

end
