(* ===== verification/Reassembly.thy ===== *)
theory Reassembly
  imports Channel Key_Rotation
begin

text \<open>
  Messages that travel in fragments: what the receiver makes of the fragments \<^verbatim>\<open>fragment\<close>
  produces (\<^verbatim>\<open>fragmentation.go\<close>, the prefixes of \<^verbatim>\<open>otrv2.go\<close> and \<^verbatim>\<open>otrv3.go\<close>, the fragment branch of
  \<^verbatim>\<open>receive.go\<close>), and the delivery of a text over an encrypted channel with a size limit.
\<close>

section \<open>One fragment\<close>

text \<open>The prefix of a fragment splits into the part with the instance tags, which \<open>parseFragmentPrefix\<close>
  checks and removes, and the numbers of the body.\<close>

fun tag_prefix :: "otrVersion \<Rightarrow> uint32 \<Rightarrow> uint32 \<Rightarrow> bytes" where
  "tag_prefix OtrV2 our their = otrv2FragmentationPrefix"
| "tag_prefix OtrV3 our their =
     otrv3FragmentationPrefix @ fmt_num 16 8 (unat our) @ [124] @ fmt_num 16 8 (unat their) @ [44]"

lemma fragment_is_body:
  "fragmentPrefix v i n our their @ chunk data f i @ [44] = tag_prefix v our their @ fragment_body data f n i"
  by (cases v) (simp_all add: fragment_body_def)

lemma length_hex8 [simp]: "length (fmt_num 16 8 (unat (w :: uint32))) = 8"
  using unat_uint32_less [of w] by (intro length_fmt_num) simp_all

lemma parseItag_fmt: "parseItag (fmt_num 16 8 (unat w)) = Some w"
proof -
  have "unat w < 2 ^ 63" using unat_uint32_less [of w] by (rule less_trans) simp
  then show ?thesis by (simp add: parseItag_def ParseInt_fmt)
qed

lemma hex_no_sep: "44 \<notin> set (fmt_num 16 8 n)" "124 \<notin> set (fmt_num 16 8 n)"
  using set_fmt_num [of 16 44 8 n] set_fmt_num [of 16 124 8 n] by auto

lemma v_parseFragmentPrefix_match:
  assumes "tags_match v a b"
  shows "v_parseFragmentPrefix v (tag_prefix v (c_ourInstanceTag a) (c_theirInstanceTag a) @ body) b =
    ((body, False, True), learn_tag v a b)"
proof (cases v)
  case OtrV2
  then show ?thesis by (simp add: learn_tag_def otrv2FragmentationPrefix_def)
next
  case OtrV3
  let ?o = "fmt_num 16 8 (unat (c_ourInstanceTag a))" and ?t = "fmt_num 16 8 (unat (c_theirInstanceTag a))"
  have d: "tag_prefix OtrV3 (c_ourInstanceTag a) (c_theirInstanceTag a) @ body
      = (str ''?OTR'' @ 124 # ?o @ 124 # ?t @ [44]) @ body" (is "?d = ?p @ body")
    by (simp add: otrv3FragmentationPrefix_def str_def)
  have len: "length ?p = 23" by simp
  then have tk: "take 23 (?p @ body) = ?p" "drop 23 (?p @ body) = body" "\<not> length (?p @ body) < 23" by simp_all
  have "split_byte 44 ?p = [str ''?OTR'' @ 124 # ?o @ 124 # ?t, []]"
    using split_byte_first [of 44 "str ''?OTR'' @ 124 # ?o @ 124 # ?t" "[]"] hex_no_sep by (simp add: str_def)
  moreover have "split_byte 124 (str ''?OTR'' @ 124 # ?o @ 124 # ?t) = [str ''?OTR'', ?o, ?t]"
    using hex_no_sep by (simp add: split_byte_first split_byte_none str_def)
  ultimately have it: "split_byte 124 (hd (split_byte 44 ?p)) = [str ''?OTR'', ?o, ?t]" by simp
  have "verifyInstanceTags (c_ourInstanceTag a) (c_theirInstanceTag a) b = (None, learn_tag v a b)"
    using assms OtrV3 by (auto simp: tags_match_def verifyInstanceTags_def learn_tag_def Let_def not_less)
  then show ?thesis unfolding OtrV3 d v_parseFragmentPrefix.simps tk Let_def it
    by (simp add: parseItag_fmt)
qed

lemma guess_fragment: "guessMessageType (tag_prefix v our their @ body) = msgGuessFragment"
  by (cases v) (simp_all add: guessMessageType_def HasPrefix_def otrv2FragmentationPrefix_def otrv3FragmentationPrefix_def str_def)

lemma receiveFragment_match:
  assumes "c_version b = Some v" "tags_match v a b" "44 \<notin> set data" "i < n" "n < 2 ^ 63"
  shows "receiveFragment ctx (tag_prefix v (c_ourInstanceTag a) (c_theirInstanceTag a) @ fragment_body data f n i) b =
    Some ((fragment_step (chunk data f i, of_nat (Suc i), of_nat n) ctx, None), learn_tag v a b)"
  using assms v_parseFragmentPrefix_match [OF assms(2)] parseFragment_fragment_body [OF assms(3-5), of f]
  by (simp add: receiveFragment_def parseFragmentPrefix_def resolveVersionFromFragment_def commitToVersionFrom_def)

section \<open>A sequence of fragments\<close>

text \<open>Receiving messages that all leave the receiver with nothing to show, nothing to send and no error.\<close>

fun receive_quietly :: "suite \<Rightarrow> nat \<Rightarrow> bytes list \<Rightarrow> conversation \<Rightarrow> conversation option" where
  "receive_quietly S fuel [] c = Some c"
| "receive_quietly S fuel (m # ms) c =
     (case c_Receive S fuel m c of
        Finished (Some ((None, [], None), c')) \<Rightarrow> receive_quietly S fuel ms c'
      | _ \<Rightarrow> None)"

lemma receive_quietly_append:
  "receive_quietly S fuel (ms @ ms') c =
     (case receive_quietly S fuel ms c of None \<Rightarrow> None | Some c' \<Rightarrow> receive_quietly S fuel ms' c')"
  by (induction ms arbitrary: c) (auto split: run.split option.split list.split)

definition partial_ctx :: "bytes \<Rightarrow> nat \<Rightarrow> nat \<Rightarrow> nat \<Rightarrow> fragmentationContext" where
  "partial_ctx data f n k = \<lparr>frag = take (k * f) data, currentIndex = of_nat k, currentLen = of_nat n\<rparr>"

lemma fragment_step_partial:
  assumes "k < n" "n < 65536" "0 < k \<longrightarrow> ctx = partial_ctx data f n k"
  shows "fragment_step (chunk data f k, of_nat (Suc k), of_nat n) ctx = partial_ctx data f n (Suc k)"
  unfolding partial_ctx_def using assms by (intro reassemble_step) (auto simp: partial_ctx_def)

lemma partial_finished: "k \<le> n \<Longrightarrow> 0 < k \<Longrightarrow> n < 65536 \<Longrightarrow> fragmentsFinished (partial_ctx data f n k) = (k = n)"
proof -
  assume *: "k \<le> n" "0 < k" "n < 65536"
  then have "unat (of_nat k :: uint16) = k" "unat (of_nat n :: uint16) = n" by (simp_all only: unat_of_nat16)
  then show ?thesis using * by (auto simp: fragmentsFinished_def partial_ctx_def word_less_nat_alt word_unat_eq_iff)
qed

lemma learn_tag_twice:
  "tags_match v a b \<Longrightarrow> tags_match v a ((learn_tag v a b)\<lparr>c_fragmentationContext := x\<rparr>)"
  "learn_tag v a ((learn_tag v a b)\<lparr>c_fragmentationContext := x\<rparr>) = (learn_tag v a b)\<lparr>c_fragmentationContext := x\<rparr>"
  by (simp_all add: tags_match_def learn_tag_def)

definition nth_fragment :: "otrVersion \<Rightarrow> conversation \<Rightarrow> bytes \<Rightarrow> nat \<Rightarrow> nat \<Rightarrow> nat \<Rightarrow> bytes" where
  "nth_fragment v a data f n i = tag_prefix v (c_ourInstanceTag a) (c_theirInstanceTag a) @ fragment_body data f n i"

definition reassembling :: "otrVersion \<Rightarrow> conversation \<Rightarrow> conversation \<Rightarrow> fragmentationContext \<Rightarrow> conversation" where
  "reassembling v a b ctx = (learn_tag v a b)\<lparr>c_fragmentationContext := ctx\<rparr>"

lemma receive_one_fragment:
  assumes b: "c_version b = Some v" "tags_match v a b" "isOTREnabled (c_Policies b)" "44 \<notin> set data" "i < n" "n < 65536"
    and ctx: "0 < i \<longrightarrow> c_fragmentationContext b = partial_ctx data f n i"
  shows "c_Receive S (Suc k) (nth_fragment v a data f n i) b =
    (let c2 = reassembling v a b (partial_ctx data f n (Suc i)) in
     if Suc i = n then map_run (map_option withInjectionsPlain) (receiveUnit S k (take (n * f) data) False c2)
     else Finished (finish_receive False ((None, [], None), c2)))"
proof -
  have n: "n < 2 ^ 63" using b(6) by simp
  have s: "fragment_step (chunk data f i, of_nat (Suc i), of_nat n) (c_fragmentationContext b) = partial_ctx data f n (Suc i)"
    using b(5,6) ctx by (rule fragment_step_partial)
  have fin: "fragmentsFinished (partial_ctx data f n (Suc i)) = (Suc i = n)"
    using partial_finished [of "Suc i" n] b(5,6) by simp
  have fr: "frag (partial_ctx data f n k) = take (k * f) data" for k by (simp add: partial_ctx_def)
  show ?thesis
    unfolding c_Receive_def receiveUnit.simps nth_fragment_def guess_fragment
      receiveFragment_match [OF b(1,2,4,5) n] s
    using b(3) fin fr by (simp add: Let_def reassembling_def del: mult_Suc)
qed

lemma finish_receive_nothing:
  "c_injections c = [] \<Longrightarrow> finish_receive False ((None, [], None), c) = Some ((None, [], None), c)"
  by (simp add: finish_receive_def toSendEncoded_def withInjectionsPlain_def withInjects_def)

lemma reassembling_again:
  "c_injections b = [] \<Longrightarrow> c_injections (reassembling v a b x) = []"
  "reassembling v a (reassembling v a b x) y = reassembling v a b y"
  by (simp_all add: reassembling_def learn_tag_def)

lemma receive_fragments_before:
  assumes b: "c_version b = Some v" "tags_match v a b" "isOTREnabled (c_Policies b)" "44 \<notin> set data" "n < 65536"
    "c_injections b = []"
  shows "0 < k \<Longrightarrow> k < n \<Longrightarrow> receive_quietly S (Suc fuel) (map (nth_fragment v a data f n) [0 ..< k]) b
    = Some (reassembling v a b (partial_ctx data f n k))"
proof (induction k)
  case (Suc k)
  let ?c = "if k = 0 then b else reassembling v a b (partial_ctx data f n k)"
  have before: "receive_quietly S (Suc fuel) (map (nth_fragment v a data f n) [0 ..< k]) b = Some ?c"
    using Suc by (cases "k = 0") simp_all
  have c: "c_version ?c = Some v" "tags_match v a ?c" "isOTREnabled (c_Policies ?c)" "0 < k \<longrightarrow> c_fragmentationContext ?c = partial_ctx data f n k"
    "c_injections ?c = []" "reassembling v a ?c x = reassembling v a b x" for x
    using b learn_tag_twice by (auto simp: reassembling_def learn_tag_def)
  have "c_Receive S (Suc fuel) (nth_fragment v a data f n k) ?c
      = Finished (Some ((None, [], None), reassembling v a b (partial_ctx data f n (Suc k))))"
    using receive_one_fragment [OF c(1-3) b(4) _ b(5) c(4), of S fuel] Suc.prems(2)
      finish_receive_nothing [OF reassembling_again(1) [OF b(6)]] by (simp add: Let_def c(6))
  with before show ?case by (simp add: receive_quietly_append)
qed simp


lemma receive_fragments_last:
  assumes b: "c_version b = Some v" "tags_match v a b" "isOTREnabled (c_Policies b)" "44 \<notin> set data" "0 < n" "n < 65536"
    "c_injections b = []" "length data \<le> n * f"
  shows "\<exists>b'. receive_quietly S (Suc fuel) (map (nth_fragment v a data f n) [0 ..< n - 1]) b = Some b'
    \<and> c_Receive S (Suc k) (nth_fragment v a data f n (n - 1)) b' =
        map_run (map_option withInjectionsPlain) (receiveUnit S k data False (reassembling v a b (partial_ctx data f n n)))"
proof -
  let ?b = "if n = 1 then b else reassembling v a b (partial_ctx data f n (n - 1))"
  have "receive_quietly S (Suc fuel) (map (nth_fragment v a data f n) [0 ..< n - 1]) b = Some ?b"
    using receive_fragments_before [OF b(1-4,6,7), of "n - 1" S fuel f] b(5) by (cases "n = 1") simp_all
  moreover have c: "c_version ?b = Some v" "tags_match v a ?b" "isOTREnabled (c_Policies ?b)"
    "0 < n - 1 \<longrightarrow> c_fragmentationContext ?b = partial_ctx data f n (n - 1)"
    "reassembling v a ?b x = reassembling v a b x" for x
    using b learn_tag_twice by (auto simp: reassembling_def learn_tag_def)
  have "c_Receive S (Suc k) (nth_fragment v a data f n (n - 1)) ?b =
      map_run (map_option withInjectionsPlain) (receiveUnit S k data False (reassembling v a b (partial_ctx data f n n)))"
    using receive_one_fragment [OF c(1-3) b(4) _ b(6) c(4), of S k] b(5,8) by (auto simp: Let_def reassembling_again(2))
  ultimately show ?thesis by blast
qed

lemma reassemble_fragments:
  assumes "fragment v (c_ourInstanceTag a) (c_theirInstanceTag a) data fraglen = Some fs"
    "(case v of OtrV2 \<Rightarrow> 18 | OtrV3 \<Rightarrow> 36) < unat fraglen" "unat fraglen < length data"
    "length data + unat fraglen < 65536" "44 \<notin> set data"
    and b: "c_version b = Some v" "tags_match v a b" "isOTREnabled (c_Policies b)" "c_injections b = []"
  shows "\<exists>b' b''. receive_quietly S (Suc fuel) (butlast fs) b = Some b'
    \<and> c_Receive S (Suc k) (last fs) b' = map_run (map_option withInjectionsPlain) (receiveUnit S k data False b'')
    \<and> (\<exists>ctx. b'' = (learn_tag v a b)\<lparr>c_fragmentationContext := ctx\<rparr>)"
proof -
  let ?f = "unat (realFraglen v (c_ourInstanceTag a) (c_theirInstanceTag a) fraglen)"
  let ?n = "length data div ?f + 1"
  note f = length_realFraglen [OF assms(2), of "c_ourInstanceTag a" "c_theirInstanceTag a"]
  have pos: "0 < ?f" and sum: "length data + ?f < 65536" and nz: "fraglen \<noteq> 0" using f assms(2,4) by auto
  have "length data div ?f \<le> length data" by simp
  then have n: "?n < 65536" using assms(2,4) f by linarith
  have "fs = map (nth_fragment v a data ?f ?n) [0 ..< ?n]"
    using fragment_chunks [OF assms(3) pos sum nz] assms(1)
    by (simp only: fragment_is_body option.inject nth_fragment_def [abs_def])
  then have fs: "butlast fs = map (nth_fragment v a data ?f ?n) [0 ..< ?n - 1]" "last fs = nth_fragment v a data ?f ?n (?n - 1)"
    by simp_all
  have len: "length data \<le> ?n * ?f" using dividend_less_div_times [OF pos, of "length data"] by simp
  have n0: "0 < ?n" by simp
  show ?thesis
    unfolding fs using receive_fragments_last [OF b(1-3) assms(5) n0 n b(4) len, of S fuel k]
    unfolding reassembling_def by blast
qed

section \<open>Sending with a size limit\<close>

text \<open>The limit has no influence on what is sent, only on how it is cut.\<close>

definition with_limit :: "uint16 \<Rightarrow> conversation \<Rightarrow> conversation" where
  "with_limit f c = c\<lparr>c_fragmentSize := f\<rparr>"

lemma with_limit_fields [simp]:
  "c_version (with_limit f c) = c_version c" "c_keys (with_limit f c) = c_keys c" "c_msgState (with_limit f c) = c_msgState c"
  "c_Rand (with_limit f c) = c_Rand c" "c_ourInstanceTag (with_limit f c) = c_ourInstanceTag c"
  "c_theirInstanceTag (with_limit f c) = c_theirInstanceTag c" "c_Policies (with_limit f c) = c_Policies c"
  "c_debug (with_limit f c) = c_debug c" "c_injections (with_limit f c) = c_injections c"
  "c_fragmentSize (with_limit f c) = f" "c_resend (with_limit f c) = c_resend c"
  by (simp_all add: with_limit_def)

lemma with_limit_upd:
  "(with_limit f c)\<lparr>c_keys := k\<rparr> = with_limit f (c\<lparr>c_keys := k\<rparr>)"
  "(with_limit f c)\<lparr>c_resend := r\<rparr> = with_limit f (c\<lparr>c_resend := r\<rparr>)"
  "(with_limit f c)\<lparr>c_Rand := b\<rparr> = with_limit f (c\<lparr>c_Rand := b\<rparr>)"
  "(with_limit f c)\<lparr>c_ourInstanceTag := t\<rparr> = with_limit f (c\<lparr>c_ourInstanceTag := t\<rparr>)"
  "(with_limit f c)\<lparr>c_injections := i\<rparr> = with_limit f (c\<lparr>c_injections := i\<rparr>)"
  "updateLastSent (with_limit f c) = with_limit f (updateLastSent c)"
  by (simp_all add: with_limit_def updateLastSent_def time_Now_def)

lemma generateInstanceTag_limit:
  "generateInstanceTag (with_limit f c) = apsnd (with_limit f) (generateInstanceTag c)"
  by (simp add: generateInstanceTag_def with_limit_upd split: prod.split sum.split)

lemma messageHeader_limit:
  "messageHeader t (with_limit f c) = map_option (apsnd (with_limit f)) (messageHeader t c)"
  by (simp add: messageHeader_def generateInstanceTag_limit split: option.split otrVersion.split prod.split)

lemma genDataMsgWithFlag_limit:
  "genDataMsgWithFlag S m fl ts (with_limit f c) = map_option (apsnd (with_limit f)) (genDataMsgWithFlag S m fl ts c)"
proof (cases "c_version c")
  case (Some v)
  show ?thesis
  proof (cases "keys_calculateDHSessionKeys S (km_ourKeyID (c_keys c) - 1) (km_theirKeyID (c_keys c)) v (c_keys c)")
    case calc: (Some r)
    then show ?thesis
      using Some
      by (auto simp: genDataMsgWithFlag_def with_limit_upd Let_def messageHeader_limit andThen_def lastMessage_def
          updateMayRetransmitTo_def map_option_case bind_eq_Some_conv revealMACKeys_def
          split: prod.split sum.split option.split Option.bind_split)
  qed (simp add: genDataMsgWithFlag_def Some Let_def)
qed (simp add: genDataMsgWithFlag_def)

lemma wrap_dataMsg_limit:
  "wrap_dataMsg dm (with_limit f c) = map_option (apsnd (with_limit f)) (wrap_dataMsg dm c)"
  by (auto simp: wrap_dataMsg_def wrapMessageHeader_def messageHeader_limit andThen_def map_option_case
      split: option.split sum.split Option.bind_split)

lemma c_fragment_upd [simp]:
  "c_fragment w f (c\<lparr>c_injections := i\<rparr>) = c_fragment w f c" "c_fragment w f (with_limit g c) = c_fragment w f c"
  by (simp_all add: c_fragment_def with_limit_def split: option.split)

text \<open>\<^const>\<open>c_Send\<close> in an encrypted conversation without a limit, step by step.\<close>

lemma c_Send_encrypted_steps:
  assumes st: "c_msgState a = encrypted" "isOTREnabled (c_Policies a)" "\<not> c_debug a" "c_fragmentSize a = 0"
    and s: "c_Send S m tr a = Some (([w], None), a')"
  obtains dm x c1 res c2 where "genDataMsgWithFlag S m messageFlagNormal [] a = Some (Inr (dm, x), c1)"
    "wrap_dataMsg dm c1 = Some (Inr res, c2)" "w = encode res"
    "a' = (updateLastSent c2)\<lparr>c_injections := []\<rparr>" "c_injections (updateLastSent c2) = []"
proof -
  obtain r c where cr: "createSerializedDataMessage S m messageFlagNormal [] a = Some (r, c)"
    using st s by (auto simp: c_Send_def sendMessageOnEncrypted_def bind_eq_Some_conv)
  from s cr st obtain ms x where r: "r = Inr (ms, x)" "[w] = ms @ c_injections c" "a' = c\<lparr>c_injections := []\<rparr>"
    by (auto simp: c_Send_def sendMessageOnEncrypted_def withInjections_def withInjects_def split: sum.splits prod.splits)
  from cr r(1) obtain dm c1 res c2 where g: "genDataMsgWithFlag S m messageFlagNormal [] a = Some (Inr (dm, x), c1)"
      "wrap_dataMsg dm c1 = Some (Inr res, c2)" "c = updateLastSent c2" "fragEncode res c = Some ms"
    by (auto simp: createSerializedDataMessage_def andThen_eq_Inr Let_def bind_eq_Some_conv)
  have lim: "with_limit 0 a = a" using st(4) by (simp add: with_limit_def)
  then have "with_limit 0 c1 = c1" using genDataMsgWithFlag_limit [of S m messageFlagNormal "[]" 0 a] g(1) by simp
  then have "with_limit 0 c2 = c2" using wrap_dataMsg_limit [of dm 0 c1] g(2) by simp
  then have "c_fragmentSize c = 0" unfolding g(3) by (metis with_limit_fields(10) with_limit_upd(6))
  then have "ms = [encode res]" using g(4) by (simp add: fragEncode_whole)
  with r(2) have "w = encode res" "c_injections c = []" by simp_all
  with g r(3) show thesis by (intro that [of dm x c1 res c2]) simp_all
qed


lemma c_Send_limit:
  assumes st: "c_msgState a = encrypted" "isOTREnabled (c_Policies a)" "\<not> c_debug a" "c_fragmentSize a = 0"
    and s: "c_Send S m tr a = Some (([w], None), a')" and f: "c_fragment w f a' = Some fs"
  shows "c_Send S m tr (with_limit f a) = Some ((fs, None), with_limit f a')"
proof -
  obtain dm x c1 res c2 where g: "genDataMsgWithFlag S m messageFlagNormal [] a = Some (Inr (dm, x), c1)"
    "wrap_dataMsg dm c1 = Some (Inr res, c2)" "w = encode res"
    "a' = (updateLastSent c2)\<lparr>c_injections := []\<rparr>" "c_injections (updateLastSent c2) = []"
    by (rule c_Send_encrypted_steps [OF st s])
  have "fragEncode res (with_limit f (updateLastSent c2)) = Some fs" using f g(3,4) by (simp add: fragEncode_def)
  then have "createSerializedDataMessage S m messageFlagNormal [] (with_limit f a)
      = Some (Inr (fs, x), with_limit f (updateLastSent c2))"
    by (simp add: createSerializedDataMessage_def genDataMsgWithFlag_limit wrap_dataMsg_limit g(1,2) with_limit_upd)
  then show ?thesis
    using st(1-3) g(4,5) by (simp add: c_Send_def sendMessageOnEncrypted_def withInjections_def withInjects_def with_limit_upd)
qed

section \<open>Delivery in fragments\<close>

lemma receiveUnit_keep:
  assumes "guessMessageType w = msgGuessData" "isOTREnabled (c_Policies c)"
    and "receiveUnit S (Suc n) w True c = Finished (Some (r, c'))"
  shows "\<exists>ctx. receiveUnit S (Suc n) w False c = Finished (Some (r, c'\<lparr>c_fragmentationContext := ctx\<rparr>))"
proof -
  obtain plain ms err d where e: "receiveEncoded S w c = Some ((plain, ms, err), d)"
    "finish_receive True ((plain, ms, err), d) = Some (r, c')"
    using assms by (auto simp: bind_eq_Some_conv)
  have "encodeAndCombine xs (d\<lparr>c_fragmentationContext := x\<rparr>) = encodeAndCombine xs d" for xs x
    by (induction xs) (simp_all add: fragEncode_def c_fragment_def split: option.split)
  then have "finish_receive False ((plain, ms, err), d) = Some (r, c'\<lparr>c_fragmentationContext := c_fragmentationContext d\<rparr>)"
    using e(2) by (auto simp: finish_receive_def toSendEncoded_def withInjectionsPlain_def withInjects_def Let_def
        bind_eq_Some_conv split: if_splits)
  with e(1) assms(1,2) show ?thesis by auto
qed


lemma same_peer_tags:
  "same_peer a a' \<Longrightarrow> tags_match v a' b = tags_match v a b" "same_peer a a' \<Longrightarrow> learn_tag v a' b = learn_tag v a b"
  by (simp_all add: same_peer_def tags_match_def learn_tag_def)

lemma channel_reassembling:
  assumes "channel S v a b"
  shows "channel S v a ((learn_tag v a b)\<lparr>c_fragmentationContext := x\<rparr>)"
  using assms tags_match_learn [of v a b a "(learn_tag v a b)\<lparr>c_fragmentationContext := x\<rparr>"]
  by (simp add: channel_def same_peer_def)

text \<open>The length of the encoded wire message of a text.\<close>

definition wire_length :: "otrVersion \<Rightarrow> bytes \<Rightarrow> conversation \<Rightarrow> nat" where
  "wire_length v m a =
     (let plain = length m + 5;
          n = (case v of OtrV2 \<Rightarrow> 3 | OtrV3 \<Rightarrow> 11) + 49 + length (big_Bytes (the (kp_pub (ourCurrentDHKeys (c_keys a)))))
              + plain + (256 - plain mod 256) + 20 * length (km_oldMACKeys (c_keys a))
      in 6 + 4 * ((n + 2) div 3))"

lemma length_b64_Encode: "length (b64_Encode s) = 4 * ((length s + 2) div 3)"
proof (induction s rule: b64_Encode.induct)
  case (4 a b c r)
  have "(length (a # b # c # r) + 2) div 3 = (length r + 2 + 3) div 3" by simp
  also have "\<dots> = (length r + 2) div 3 + 1" by (rule div_add_self2) simp
  finally show ?case using 4 by (simp only: b64_Encode.simps Let_def list.size mult_Suc_right add_mult_distrib2)
qed (simp_all add: Let_def)

lemma length_encode: "length (encode m) = 6 + 4 * ((length m + 2) div 3)"
  by (simp add: encode_def b64encode_def length_b64_Encode msgMarker_def)

lemma length_padded_text: "length (plain_serialize (pad \<lparr>pm_message = m, pm_tlvs = []\<rparr>))
    = length m + 5 + (256 - (length m + 5) mod 256)"
proof -
  have "length (plain_serialize (pad \<lparr>pm_message = m, pm_tlvs = []\<rparr>)) = length m + 1 + (4 + (256 - (length m + 4 + 1) mod 256))"
    by (simp add: plain_serialize_def pad_def Let_def tlv_serialize_alt unat_of_nat)
  then show ?thesis by (simp only: add.assoc numeral_plus_one)
    (simp add: add.commute)
qed

context dh_suite
begin

lemma length_wire_msg:
  assumes "kp_pub (ourCurrentDHKeys (c_keys a)) = Some y" "macs_ok (c_keys a)"
  shows "length (encode (wire_msg v a (sent_msg S v m fl [] a ks y))) = wire_length v m a"
proof -
  have "length (concat ks) = 20 * length ks" if "\<forall>k \<in> set ks. length k = 20" for ks :: "bytes list"
    using that by (induction ks) simp_all
  then have "length (concat (km_oldMACKeys (c_keys a))) = 20 * length (km_oldMACKeys (c_keys a))"
    using assms(2) by (simp add: macs_ok_def)
  moreover have "length (v_hash S v x) = 20" for x by (cases v) (simp_all add: length_sha1)
  then have "length (hmac (v_hash S v) k x) = 20" for k x by (simp add: hmac_def Let_def)
  ultimately show ?thesis
    using assms(1)
    by (cases v) (simp_all add: length_encode wire_msg_def wire_length_def sent_msg_def dataMsg_sign_def dataMsg_serialize_def
        unsigned_cache_def serializeUnsigned_def AppendData_def AppendMPI_def AppendWord_def length_plain_encrypt
        length_padded_text Let_def algebra_simps)
qed

lemma channel_delivers_fragments:
  assumes ch: "channel S v a b" and m: "sendable m"
    and ne: "kp_pub (ourPreviousDHKeys (c_keys a)) \<noteq> theirCurrentDHPubKey (c_keys a)"
    and room: "room_to_send a" "room_to_receive b"
    and f: "(case v of OtrV2 \<Rightarrow> 18 | OtrV3 \<Rightarrow> 36) < unat f" "unat f < wire_length v m a" "wire_length v m a + unat f < 65536"
  shows "\<exists>ws a' b1 b' reply. c_Send S m tr (with_limit f a) = Some ((ws, None), with_limit f a')
    \<and> list_all (\<lambda>x. length x \<le> unat f) ws \<and> receive_quietly S (Suc n) (butlast ws) b = Some b1
    \<and> c_Receive S (Suc (Suc n)) (last ws) b1 = Finished (Some ((if m = [] then None else Some m, reply, None), b'))
    \<and> channel S v a' b'"
proof -
  obtain w a' b0 ks y where w: "c_Send S m tr a = Some (([w], None), a')"
    and d: "channel S v a' b0" "same_peer a a'" "guessMessageType w = msgGuessData" "44 \<notin> set w"
    and y: "kp_pub (ourCurrentDHKeys (c_keys a)) = Some y"
      "w = encode (wire_msg v a (sent_msg S v m messageFlagNormal [] a ks y))"
    using channel_delivers [OF ch m ne room, of tr n] by auto
  have "length w = wire_length v m a"
    unfolding y(2) using length_wire_msg [OF y(1)] ch by (simp add: channel_def quiet_def)
  note f = f [folded this]
  have v: "c_version a' = Some v" using d(1) by (simp add: channel_def quiet_def ready_def)
  have q: "c_msgState a = encrypted" "isOTREnabled (c_Policies a)" "\<not> c_debug a" "c_fragmentSize a = 0"
    and qb: "c_version b = Some v" "isOTREnabled (c_Policies b)" "c_injections b = []"
    using ch by (simp_all add: channel_def quiet_def ready_def)
  have tags: "tags_match v a' b" using ch d(2) by (simp add: channel_def same_peer_tags)
  obtain ws where ws: "fragment v (c_ourInstanceTag a') (c_theirInstanceTag a') w f = Some ws"
      "list_all (\<lambda>x. length x \<le> unat f) ws"
    using fragments_bounded [OF f, of "c_ourInstanceTag a'" "c_theirInstanceTag a'"] by blast
  have send: "c_Send S m tr (with_limit f a) = Some ((ws, None), with_limit f a')"
    by (rule c_Send_limit [OF q w]) (simp add: c_fragment_def v ws(1))
  obtain b1 ctx where rc: "receive_quietly S (Suc n) (butlast ws) b = Some b1"
      "c_Receive S (Suc (Suc n)) (last ws) b1 = map_run (map_option withInjectionsPlain)
         (receiveUnit S (Suc n) w False ((learn_tag v a' b)\<lparr>c_fragmentationContext := ctx\<rparr>))"
    using reassemble_fragments [OF ws(1) f d(4) qb(1) tags qb(2,3), of S n "Suc n"] by blast
  let ?b = "(learn_tag v a' b)\<lparr>c_fragmentationContext := ctx\<rparr>"
  have chb: "channel S v a ?b" using channel_reassembling [OF ch] d(2) by (simp add: same_peer_tags)
  have rb: "room_to_receive ?b" using room(2) by (simp add: room_to_receive_def)
  obtain b2 reply where r: "c_Receive S (Suc n) w ?b = Finished (Some ((if m = [] then None else Some m, reply, None), b2))"
      "channel S v a' b2"
    using channel_delivers [OF chb m ne room(1) rb, of tr n] w by auto
  obtain ctx' where "receiveUnit S (Suc n) w False ?b =
      Finished (Some ((if m = [] then None else Some m, reply, None), b2\<lparr>c_fragmentationContext := ctx'\<rparr>))"
    using receiveUnit_keep [OF d(3) _ r(1) [unfolded c_Receive_def]] chb by (auto simp: channel_def quiet_def)
  moreover have "c_injections b2 = []" using r(2) by (simp add: channel_def quiet_def)
  ultimately have "c_Receive S (Suc (Suc n)) (last ws) b1 =
      Finished (Some ((if m = [] then None else Some m, reply, None), b2\<lparr>c_fragmentationContext := ctx', c_injections := []\<rparr>))"
    using rc(2) by (simp add: withInjectionsPlain_def withInjects_def)
  moreover have "channel S v a' (b2\<lparr>c_fragmentationContext := ctx', c_injections := []\<rparr>)"
    using r(2) by (simp add: channel_def quiet_def ready_def tags_match_def)
  ultimately show ?thesis using send ws(2) rc(1) by blast
qed

end

section \<open>Property\<close>

text \<open>C16. Fragmentation round trip. Take any message without commas that one conversation splits for a peer
  that shares its version and instance tags. Received in order, whatever was left in the
  peer's fragmentation context, every fragment but the last is absorbed silently, and
  receiving the last one is exactly receiving the whole original message.\<close>

theorem fragments_reassemble:
  assumes "fragment v (c_ourInstanceTag a) (c_theirInstanceTag a) data fraglen = Some fs"
    "(case v of OtrV2 \<Rightarrow> 18 | OtrV3 \<Rightarrow> 36) < unat fraglen" "unat fraglen < length data"
    "length data + unat fraglen < 65536" "44 \<notin> set data"
    and b: "c_version b = Some v" "tags_match v a b" "isOTREnabled (c_Policies b)" "c_injections b = []"
  shows "\<exists>b' b''. receive_quietly S (Suc fuel) (butlast fs) b = Some b'
    \<and> c_Receive S (Suc k) (last fs) b' = map_run (map_option withInjectionsPlain) (receiveUnit S k data False b'')
    \<and> (\<exists>ctx. b'' = (learn_tag v a b)\<lparr>c_fragmentationContext := ctx\<rparr>)"
  by (rule reassemble_fragments [OF assms])

definition idle_v2 :: conversation where
  "idle_v2 = (nil_conversation [] (\<lambda>_. 0) 0)\<lparr>c_version := Some OtrV2, c_Policies := allowV2\<rparr>"

theorem fragments_reassemble_witness:
  "\<exists>fs b' b''. fragment OtrV2 0 0 (replicate 100 65) 50 = Some fs \<and> receive_quietly toy_suite 1 (butlast fs) idle_v2 = Some b'
     \<and> c_Receive toy_suite 1 (last fs) b' =
         map_run (map_option withInjectionsPlain) (receiveUnit toy_suite 0 (replicate 100 65) False b'')"
proof -
  obtain fs where fs: "fragment OtrV2 0 0 (replicate 100 65) 50 = Some fs"
    using fragments_bounded [of OtrV2 50 "replicate 100 65" 0 0] by auto
  have c: "c_ourInstanceTag idle_v2 = 0" "c_theirInstanceTag idle_v2 = 0" "c_version idle_v2 = Some OtrV2"
    "isOTREnabled (c_Policies idle_v2)" "c_injections idle_v2 = []" "tags_match OtrV2 idle_v2 idle_v2"
    by (simp_all add: idle_v2_def nil_conversation_def isOTREnabled_def has_policy_def policy_defs tags_match_def)
  show ?thesis
    using fragments_reassemble [of OtrV2 idle_v2 "replicate 100 65" 50 fs idle_v2 toy_suite 0 0] fs c by auto
qed

end
