(* ===== verification/Session_Invariant.thy ===== *)
theory Session_Invariant
  imports Handshake Reassembly
begin

text \<open>
  An invariant of the whole conversation and the calls that keep it. \<open>conv_ok\<close> says what every
  pointer that the code dereferences without a check points to: the signing key once a version
  is agreed on, the secret exponent and the public values in the states of the key exchange that
  use them, the Diffie-Hellman keys of an encrypted session, the intermediate values of the
  authentication protocol. Under it no call on the sending side panics, nor does one that
  handles a message of the key exchange; \<open>returns\<close> expresses both absence of a panic and the
  postcondition.
\<close>

declare not_None_eq [iff del]

section \<open>Calls that return\<close>

text \<open>\<open>returns Q m\<close>: the call does not panic, and its result and the new conversation satisfy \<open>Q\<close>.\<close>

definition returns :: "('r \<Rightarrow> 's \<Rightarrow> bool) \<Rightarrow> ('r \<times> 's) option \<Rightarrow> bool" where
  "returns Q m \<longleftrightarrow> (case m of None \<Rightarrow> False | Some (r, c) \<Rightarrow> Q r c)"

lemma returns_Some [simp]: "returns Q (Some (r, c)) = Q r c" "\<not> returns Q None"
  by (simp_all add: returns_def)

lemma returns_iff: "returns Q m \<longleftrightarrow> (\<exists>r c. m = Some (r, c) \<and> Q r c)"
  by (auto simp: returns_def split: option.splits)

lemma returns_mono: "returns Q m \<Longrightarrow> (\<And>r c. Q r c \<Longrightarrow> Q' r c) \<Longrightarrow> returns Q' m"
  by (auto simp: returns_iff)

lemma returns_andThen:
  assumes "returns Q m" "\<And>e c. Q (Inl e) c \<Longrightarrow> Q' (Inl e) c" "\<And>x c. Q (Inr x) c \<Longrightarrow> returns Q' (f x c)"
  shows "returns Q' (andThen m f)"
  using assms by (auto simp: returns_iff andThen_def split: sum.splits)

lemma returns_or_keep:
  assumes "returns Q m" "\<And>e c. Q (Inl e) c \<Longrightarrow> Q' (s, None, Some e) c" "\<And>x c. Q (Inr x) c \<Longrightarrow> returns Q' (k x c)"
  shows "returns Q' (or_keep s m k)"
  using assms by (auto simp: returns_iff or_keep_def split: sum.splits)

lemma returns_bind:
  assumes "returns Q m" "\<And>r c. Q r c \<Longrightarrow> returns Q' (f (r, c))"
  shows "returns Q' (Option.bind m f)"
  using assms by (auto simp: returns_iff)

lemma returns_map: "returns (\<lambda>r c. case f (r, c) of (r', c') \<Rightarrow> Q r' c') m \<Longrightarrow> returns Q (map_option f m)"
  by (cases m) (auto simp: returns_def split: prod.splits)

section \<open>The invariant\<close>

definition has_exponent :: "suite \<Rightarrow> ake_ctx \<Rightarrow> bool" where
  "has_exponent S a \<longleftrightarrow> (\<exists>x. 0 \<le> x \<and> ake_secretExponent a = Some x \<and> ake_ourPublicValue a = Some (modExp S (dh_g1 S) x))"

definition tagged :: "conversation \<Rightarrow> bool" where
  "tagged c \<longleftrightarrow> c_version c \<noteq> None \<and> (c_version c = Some OtrV3 \<longrightarrow> c_ourInstanceTag c \<noteq> 0)"

text \<open>The keys of the signature message are those of the shared secret of the two public values; the
  peer's value is in the group; the pair kept for the session is the one of the exchange.\<close>

definition peer_in_group :: "suite \<Rightarrow> ake_ctx \<Rightarrow> bool" where
  "peer_in_group S a \<longleftrightarrow> (\<forall>t. ake_theirPublicValue a = Some t \<longrightarrow> isGroupElement S t)"

definition sig_of :: "suite \<Rightarrow> otrVersion option \<Rightarrow> ake_ctx \<Rightarrow> bool" where
  "sig_of S v a \<longleftrightarrow> (\<exists>v' t x. v = Some v' \<and> ake_theirPublicValue a = Some t \<and> ake_secretExponent a = Some x
     \<and> ake_sigKey a = sig_key S (modExp S t x) v')"

definition own_pair :: "ake_ctx \<Rightarrow> bool" where
  "own_pair a \<longleftrightarrow> ourCurrentDHKeys (ake_keys a) = \<lparr>kp_pub = ake_ourPublicValue a, kp_priv = ake_secretExponent a\<rparr>"

text \<open>The peer's signature under the key \<open>c_theirKey\<close> covers both public values, that key and the id of
  its Diffie-Hellman key, through a MAC with a key of the shared secret. \<open>signed_peer\<close> is the
  check that was made; \<open>authenticated\<close> relates it to the keys of the session.\<close>

definition signed_peer :: "suite \<Rightarrow> conversation \<Rightarrow> ake_ctx \<Rightarrow> akeKeys \<Rightarrow> bool" where
  "signed_peer S c a K \<longleftrightarrow> (\<exists>v key t our sg. c_version c = Some v \<and> c_theirKey c = Some key
     \<and> ake_theirPublicValue a = Some t \<and> ake_ourPublicValue a = Some our
     \<and> key_Verify S key (sumHMAC S (ak_m1 K) (appendAll t our key (km_theirKeyID (ake_keys a))) v) sg = Some ([], True))"

definition exchange_signed :: "suite \<Rightarrow> conversation \<Rightarrow> int \<Rightarrow> int \<Rightarrow> uint32 \<Rightarrow> bool" where
  "exchange_signed S c t x kid \<longleftrightarrow> (\<exists>v key K sg. c_version c = Some v \<and> c_theirKey c = Some key \<and> isGroupElement S t
     \<and> K \<in> {reveal_key S (modExp S t x) v, sig_key S (modExp S t x) v}
     \<and> key_Verify S key (sumHMAC S (ak_m1 K) (appendAll t (modExp S (dh_g1 S) x) key kid) v) sg = Some ([], True))"

definition dh_pair :: "suite \<Rightarrow> int \<Rightarrow> dhKeyPair" where
  "dh_pair S x = \<lparr>kp_pub = Some (modExp S (dh_g1 S) x), kp_priv = Some x\<rparr>"

definition authenticated :: "suite \<Rightarrow> conversation \<Rightarrow> bool" where
  "authenticated S c \<longleftrightarrow> (\<exists>t x. exchange_signed S c t x (km_theirKeyID (c_keys c)) \<and> theirCurrentDHPubKey (c_keys c) = Some t
     \<and> dh_pair S x \<in> {ourPreviousDHKeys (c_keys c), ourCurrentDHKeys (c_keys c)})"

lemma exchange_signed_same:
  "c_version c' = c_version c \<Longrightarrow> c_theirKey c' = c_theirKey c \<Longrightarrow> exchange_signed S c' = exchange_signed S c"
  by (simp add: exchange_signed_def fun_eq_iff)

lemma exchange_signedI:
  assumes "signed_peer S c a K" "ake_theirPublicValue a = Some t" "ake_ourPublicValue a = Some (modExp S (dh_g1 S) x)" "isGroupElement S t"
    "c_version c = Some v" "K = reveal_key S (modExp S t x) v \<or> K = sig_key S (modExp S t x) v"
  shows "exchange_signed S c t x (km_theirKeyID (ake_keys a))"
proof -
  from assms(1) obtain key sg where "c_theirKey c = Some key"
      "key_Verify S key (sumHMAC S (ak_m1 K) (appendAll t (modExp S (dh_g1 S) x) key (km_theirKeyID (ake_keys a))) v) sg = Some ([], True)"
    using assms(2,3,5) by (auto simp: signed_peer_def)
  with assms(4,5,6) show ?thesis
    unfolding exchange_signed_def by (intro exI [of _ v] exI [of _ key] exI [of _ K] exI [of _ sg]) simp
qed

lemma authenticated_same:
  "authenticated S c \<Longrightarrow> c_version c' = c_version c \<Longrightarrow> c_theirKey c' = c_theirKey c \<Longrightarrow> same_dh (c_keys c) (c_keys c') \<Longrightarrow> authenticated S c'"
  using exchange_signed_same [of c' c S] by (simp add: authenticated_def same_dh_def)

text \<open>What each state of the key exchange has in store for the message it waits for.\<close>

fun ake_state_ok :: "suite \<Rightarrow> otrVersion option \<Rightarrow> ake_ctx \<Rightarrow> authState \<Rightarrow> bool" where
  "ake_state_ok S v a authStateNone = True"
| "ake_state_ok S v a authStateAwaitingDHKey = (has_exponent S a \<and> km_ourKeyID (ake_keys a) = 0 \<and> peer_in_group S a)"
| "ake_state_ok S v a authStateAwaitingRevealSig = (has_exponent S a \<and> km_ourKeyID (ake_keys a) = 0)"
| "ake_state_ok S v a (authStateAwaitingSig _) =
     (has_exponent S a \<and> km_ourKeyID (ake_keys a) = 1 \<and> peer_in_group S a \<and> sig_of S v a \<and> own_pair a)"

definition ake_ok :: "suite \<Rightarrow> conversation \<Rightarrow> bool" where
  "ake_ok S c \<longleftrightarrow>
     (\<forall>a. c_ake c = Some a \<longrightarrow> ake_state_ok S (c_version c) a (ake_state a) \<and> (ake_state a = authStateNone \<or> tagged c))"

text \<open>The signing keys are usable; \<open>n\<close> bounds the randomness one signature takes. A conversation that has
  committed to a version has chosen a key.\<close>

definition signer_ok :: "suite \<Rightarrow> nat \<Rightarrow> conversation \<Rightarrow> bool" where
  "signer_ok S n c \<longleftrightarrow> c_ourKeys c \<noteq> [] \<and> list_all (key_pair_ok S n) (c_ourKeys c)
     \<and> (\<forall>k. c_ourCurrentKey c = Some k \<longrightarrow> key_pair_ok S n k) \<and> (c_version c = None \<or> c_ourCurrentKey c \<noteq> None)"

definition session_ok :: "suite \<Rightarrow> conversation \<Rightarrow> bool" where
  "session_ok S c \<longleftrightarrow> (c_msgState c = encrypted \<longrightarrow> c_version c \<noteq> None \<and> keys_ok S (c_keys c))"

text \<open>The fields a state of the authentication protocol reads are there. In version 3, where received
  values are checked to be group elements, what the next messages are divided by has an inverse.\<close>

definition unit_mod :: "suite \<Rightarrow> int \<Rightarrow> bool" where
  "unit_mod S x \<longleftrightarrow> coprime x (dh_p S)"

definition smp_ok :: "suite \<Rightarrow> otrVersion option \<Rightarrow> smp_ctx \<Rightarrow> bool" where
  "smp_ok S v s \<longleftrightarrow>
     (case smp_state s of
        Some smpStateExpect2 \<Rightarrow> smp_s1 s \<noteq> None \<and> smp_secret s \<noteq> None
      | Some smpStateExpect3 \<Rightarrow>
          (\<exists>s2. smp_s2 s = Some s2 \<and> (v \<noteq> Some OtrV2 \<longrightarrow> unit_mod S (s2_qb s2) \<and> unit_mod S (s2_pb s2)))
      | Some smpStateExpect4 \<Rightarrow> smp_s3 s \<noteq> None \<and> smp_s1 s \<noteq> None
      | Some (smpStateWaitingForSecret m) \<Rightarrow> v \<noteq> Some OtrV2 \<longrightarrow> unit_mod S (m1_g2a m) \<and> unit_mod S (m1_g3a m)
      | _ \<Rightarrow> True)"

definition conv_ok :: "suite \<Rightarrow> nat \<Rightarrow> conversation \<Rightarrow> bool" where
  "conv_ok S n c \<longleftrightarrow> signer_ok S n c \<and> ake_ok S c \<and> session_ok S c \<and> smp_ok S (c_version c) (c_smp c)"

lemmas conv_ok_defs = conv_ok_def signer_ok_def ake_ok_def session_ok_def tagged_def

text \<open>The invariant looks at the following fields only.\<close>

definition core where
  "core c = (c_version c, c_ourInstanceTag c, c_ourKeys c, c_ourCurrentKey c, c_ake c, c_smp c, c_keys c, c_msgState c)"

lemma conv_ok_core: "core c = core c' \<Longrightarrow> conv_ok S n c = conv_ok S n c'"
  by (simp add: core_def conv_ok_defs)

lemma core_upd [simp]:
  "core (c\<lparr>c_Rand := x1\<rparr>) = core c" "core (c\<lparr>c_whitespaceState := x2\<rparr>) = core c"
  "core (c\<lparr>c_lastMessageStateChange := x3\<rparr>) = core c" "core (c\<lparr>c_theirInstanceTag := x4\<rparr>) = core c"
  "core (c\<lparr>c_ssid := x5\<rparr>) = core c" "core (c\<lparr>c_theirKey := x6\<rparr>) = core c" "core (c\<lparr>c_lastSent := x7\<rparr>) = core c"
  "core (c\<lparr>c_resend := x8\<rparr>) = core c" "core (c\<lparr>c_injections := x9\<rparr>) = core c" "core (c\<lparr>c_fragmentationContext := x10\<rparr>) = core c"
  "core (c\<lparr>c_sentRevealSig := x11\<rparr>) = core c" "core (c\<lparr>c_tick := x12\<rparr>) = core c" "core (c\<lparr>c_events := x13\<rparr>) = core c"
  "core (c\<lparr>c_alloc := x14\<rparr>) = core c" "core (c\<lparr>c_fragmentSize := x15\<rparr>) = core c"
  by (simp_all add: core_def)

lemma conv_ok_upd [simp]:
  "conv_ok S n (c\<lparr>c_Rand := x1\<rparr>) = conv_ok S n c" "conv_ok S n (c\<lparr>c_whitespaceState := x2\<rparr>) = conv_ok S n c"
  "conv_ok S n (c\<lparr>c_lastMessageStateChange := x3\<rparr>) = conv_ok S n c" "conv_ok S n (c\<lparr>c_theirInstanceTag := x4\<rparr>) = conv_ok S n c"
  "conv_ok S n (c\<lparr>c_ssid := x5\<rparr>) = conv_ok S n c" "conv_ok S n (c\<lparr>c_theirKey := x6\<rparr>) = conv_ok S n c"
  "conv_ok S n (c\<lparr>c_lastSent := x7\<rparr>) = conv_ok S n c" "conv_ok S n (c\<lparr>c_resend := x8\<rparr>) = conv_ok S n c"
  "conv_ok S n (c\<lparr>c_injections := x9\<rparr>) = conv_ok S n c" "conv_ok S n (c\<lparr>c_fragmentationContext := x10\<rparr>) = conv_ok S n c"
  "conv_ok S n (c\<lparr>c_sentRevealSig := x11\<rparr>) = conv_ok S n c" "conv_ok S n (c\<lparr>c_tick := x12\<rparr>) = conv_ok S n c"
  "conv_ok S n (c\<lparr>c_events := x13\<rparr>) = conv_ok S n c" "conv_ok S n (c\<lparr>c_alloc := x14\<rparr>) = conv_ok S n c"
  by (rule conv_ok_core, simp)+

text \<open>Events, injected messages and the clock leave all of it alone.\<close>

lemma core_ops [simp]:
  "core (log_event e c) = core c" "core (messageEvent me tr c) = core c" "core (messageEventWithError me er c) = core c"
  "core (messageEventWithMessage me m c) = core c" "core (smpEvent se p c) = core c"
  "core (smpEventWithQuestion se p q c) = core c" "core (securityEvent sc c) = core c"
  "core (signalSecurityEventIf b sc c) = core c" "core (receivedSymKey u d k c) = core c" "core (injectMessage m c) = core c"
  "core (generatePotentialErrorMessage ec c) = core c" "core (malformedMessage c) = core c" "core (updateLastSent c) = core c"
  "core (lastMessage m o' c) = core c" "core (updateMayRetransmitTo f c) = core c" "core (set_retransmitting rb c) = core c"
  by (simp_all add: log_event_def messageEvent_def messageEventWithError_def messageEventWithMessage_def smpEvent_def
      smpEventWithQuestion_def securityEvent_def signalSecurityEventIf_def receivedSymKey_def injectMessage_def
      generatePotentialErrorMessage_def malformedMessage_def updateLastSent_def time_Now_def lastMessage_def
      updateMayRetransmitTo_def set_retransmitting_def split: option.split)

lemma conv_ok_ops [simp]:
  "conv_ok S n (messageEvent me tr c) = conv_ok S n c" "conv_ok S n (messageEventWithError me er c) = conv_ok S n c"
  "conv_ok S n (messageEventWithMessage me m c) = conv_ok S n c" "conv_ok S n (smpEvent se p c) = conv_ok S n c"
  "conv_ok S n (smpEventWithQuestion se p q c) = conv_ok S n c" "conv_ok S n (signalSecurityEventIf b sc c) = conv_ok S n c"
  "conv_ok S n (receivedSymKey u d k c) = conv_ok S n c" "conv_ok S n (generatePotentialErrorMessage ec c) = conv_ok S n c"
  "conv_ok S n (malformedMessage c) = conv_ok S n c" "conv_ok S n (updateLastSent c) = conv_ok S n c"
  "conv_ok S n (lastMessage m o' c) = conv_ok S n c" "conv_ok S n (updateMayRetransmitTo f c) = conv_ok S n c"
  "conv_ok S n (set_retransmitting rb c) = conv_ok S n c"
  by (rule conv_ok_core, simp)+

section \<open>Sending\<close>

definition same_session :: "conversation \<Rightarrow> conversation \<Rightarrow> bool" where
  "same_session c c' \<longleftrightarrow> c_version c' = c_version c \<and> c_msgState c' = c_msgState c \<and> c_ake c' = c_ake c
     \<and> c_smp c' = c_smp c \<and> c_fragmentSize c' = c_fragmentSize c \<and> c_Policies c' = c_Policies c \<and> c_theirKey c' = c_theirKey c
     \<and> same_dh (c_keys c) (c_keys c')"

lemma same_dh_refl [simp]: "same_dh k k"
  by (simp add: same_dh_def)

lemma same_session_refl [simp]: "same_session c c"
  by (simp add: same_session_def same_dh_def)

lemma same_session_trans: "same_session a b \<Longrightarrow> same_session b c \<Longrightarrow> same_session a c"
  by (simp add: same_session_def same_dh_def)

lemma same_session_ops [simp]:
  "same_session c (updateLastSent c) = True" "same_session c (messageEvent e t c)" "same_dh (c_keys c) k \<Longrightarrow> same_session c (c\<lparr>c_keys := k\<rparr>)"
  "same_session c (lastMessage m tr c)" "same_session c (updateMayRetransmitTo f c)" "same_session c (set_retransmitting b c)"
  "same_session c (c\<lparr>c_resend := rs\<rparr>)" "same_session c (generatePotentialErrorMessage ec c)" "same_session c (c\<lparr>c_injections := is\<rparr>)"
  by (simp_all add: same_session_def same_dh_def updateLastSent_def time_Now_def messageEvent_def log_event_def lastMessage_def
      updateMayRetransmitTo_def set_retransmitting_def generatePotentialErrorMessage_def injectMessage_def split: option.split)

lemma draw_tag_valid: "draw_tag t r = (Inr tag, r') \<Longrightarrow> minValidInstanceTag \<le> tag"
  by (induction t r rule: draw_tag.induct)
     (subst (asm) draw_tag.simps, auto simp: not_less split: if_splits prod.splits sum.splits)

lemma generateInstanceTag_cases:
  assumes "generateInstanceTag c = (e, c')"
  obtains r t where "c' = c\<lparr>c_Rand := r, c_ourInstanceTag := t\<rparr>" "c_ourInstanceTag c \<noteq> 0 \<longrightarrow> c' = c \<and> e = None"
    "e = None \<longrightarrow> c_ourInstanceTag c' \<noteq> 0"
proof -
  consider "c' = c" "e = None" "c_ourInstanceTag c \<noteq> 0"
    | r e' where "c' = c\<lparr>c_Rand := r\<rparr>" "e = Some e'" "c_ourInstanceTag c = 0"
    | r t where "c' = c\<lparr>c_Rand := r, c_ourInstanceTag := t\<rparr>" "e = None" "minValidInstanceTag \<le> t" "c_ourInstanceTag c = 0"
    using assms draw_tag_valid by (auto simp: generateInstanceTag_def split: if_splits prod.splits sum.splits)
  then show thesis
  proof cases
    case 1
    then show ?thesis by (intro that [of "c_ourInstanceTag c" "c_Rand c"]) simp_all
  next
    case (2 r)
    then show ?thesis by (intro that [of "c_ourInstanceTag c" r]) simp_all
  next
    case (3 r t)
    then show ?thesis by (intro that [of t r]) (auto simp: minValidInstanceTag_def)
  qed
qed

lemma conv_ok_tag:
  "conv_ok S n c \<Longrightarrow> c_ourInstanceTag c \<noteq> 0 \<longrightarrow> t \<noteq> 0 \<Longrightarrow> conv_ok S n (c\<lparr>c_Rand := r, c_ourInstanceTag := t\<rparr>)"
  by (auto simp: conv_ok_defs split: option.splits)

lemma messageHeader_returns:
  assumes "conv_ok S n c" "c_version c \<noteq> None"
  shows "returns (\<lambda>r c'. conv_ok S n c' \<and> same_session c c' \<and> c_keys c' = c_keys c \<and> c_ourCurrentKey c' = c_ourCurrentKey c
      \<and> ((\<exists>h. r = Inr h) \<longrightarrow> tagged c') \<and> (tagged c \<longrightarrow> c' = c \<and> (\<exists>h. r = Inr h))) (messageHeader ty c)"
proof -
  obtain v where v: "c_version c = Some v" using assms(2) by (cases "c_version c") auto
  obtain e c' where g: "generateInstanceTag c = (e, c')" by fastforce
  obtain r t where c': "c' = c\<lparr>c_Rand := r, c_ourInstanceTag := t\<rparr>" "c_ourInstanceTag c \<noteq> 0 \<longrightarrow> c' = c \<and> e = None"
      "e = None \<longrightarrow> c_ourInstanceTag c' \<noteq> 0"
    using generateInstanceTag_cases [OF g] .
  have "conv_ok S n c'"
  proof (cases "c_ourInstanceTag c = 0")
    case True
    then show ?thesis using conv_ok_tag [OF assms(1)] c'(1) by simp
  next
    case False
    then show ?thesis using c'(2) assms(1) by simp
  qed
  then show ?thesis
    using v g c' assms(1)
    by (cases v) (auto simp: messageHeader_def tagged_def same_session_def same_dh_def split: option.split)
qed

lemma wrapMessageHeader_returns:
  assumes "conv_ok S n c" "c_version c \<noteq> None"
  shows "returns (\<lambda>r c'. conv_ok S n c' \<and> same_session c c' \<and> c_keys c' = c_keys c \<and> c_ourCurrentKey c' = c_ourCurrentKey c
      \<and> ((\<exists>h. r = Inr h) \<longrightarrow> tagged c') \<and> (tagged c \<longrightarrow> c' = c \<and> (\<exists>h. r = Inr h))) (wrapMessageHeader ty m c)"
  unfolding wrapMessageHeader_def
  by (rule returns_andThen [OF messageHeader_returns [OF assms]]) auto

lemma conv_ok_keys: "conv_ok S n c \<Longrightarrow> keys_ok S k \<Longrightarrow> conv_ok S n (c\<lparr>c_keys := k\<rparr>)"
  by (auto simp: conv_ok_defs)

lemma keys_calculate_keeps:
  "keys_calculateDHSessionKeys S i j v k = Some (res, k') \<Longrightarrow> keys_ok S k \<Longrightarrow> keys_ok S k' \<and> ourCurrentDHKeys k' = ourCurrentDHKeys k
    \<and> km_ourKeyID k' = km_ourKeyID k"
  using keys_calculate_adds [of S i j v k res k'] by auto

lemma genDataMsgWithFlag_returns:
  assumes "conv_ok S n c"
  shows "returns (\<lambda>r c'. conv_ok S n c' \<and> same_session c c' \<and> ((\<exists>x. r = Inr x) \<longrightarrow> tagged c')) (genDataMsgWithFlag S m fl ts c)"
proof (cases "c_msgState c = encrypted")
  case False
  then show ?thesis using assms by (simp add: genDataMsgWithFlag_def)
next
  case True
  obtain v where v: "c_version c = Some v" and k: "keys_ok S (c_keys c)"
    using True assms by (cases "c_version c") (auto simp: conv_ok_def session_ok_def)
  let ?o = "km_ourKeyID (c_keys c) - 1" and ?t = "km_theirKeyID (c_keys c)"
  obtain res k1 where calc: "keys_calculateDHSessionKeys S ?o ?t v (c_keys c) = Some (res, k1)"
    using keys_calculateDHSessionKeys_ok [OF k] by blast
  note k1 = keys_calculate_keeps [OF calc k]
  have d1: "same_dh (c_keys c) k1" using keys_calculate_frame [OF calc] by simp
  show ?thesis
  proof (cases res)
    case (Inl e)
    then show ?thesis using True v calc k1 d1 conv_ok_keys [OF assms]
      by (simp add: genDataMsgWithFlag_def)
  next
    case (Inr keys)
    then have "km_ourKeyID (c_keys c) \<noteq> 0"
      using calc by (auto simp: keys_calculateDHSessionKeys_def pickOurKeys_def split: sum.splits if_splits)
    then obtain y where y: "kp_pub (ourCurrentDHKeys k1) = Some y"
      using k k1 by (auto simp: keys_ok_def pair_ok_def split: option.splits)
    obtain i cs where f: "findCounterFor ?o ?t (counterHistory k1) = (i, cs)" by fastforce
    define ctr where "ctr = (if pc_ourCounter (cs ! i) = 0 then 1 else pc_ourCounter (cs ! i))"
    define k2 where "k2 = k1\<lparr>counterHistory := cs[i := (cs ! i)\<lparr>pc_ourCounter := ctr + 1\<rparr>]\<rparr>"
    have c2: "conv_ok S n (c\<lparr>c_keys := k2\<rparr>)" "c_version (c\<lparr>c_keys := k2\<rparr>) \<noteq> None"
      using conv_ok_keys [OF assms, of k2] k1 v by (simp_all add: k2_def)
    have y2: "kp_pub (ourCurrentDHKeys k2) = Some y" "keys_ok S k2" using y k1 by (simp_all add: k2_def)
    have d2: "same_dh (c_keys c) k2" using d1 by (simp add: k2_def same_dh_def)
    note h = messageHeader_returns [OF c2, of msgTypeData]
    show ?thesis
      unfolding genDataMsgWithFlag_def
      using True v calc Inr
      apply (simp add: Let_def f flip: ctr_def k2_def)
      apply (rule returns_andThen [OF h])
      subgoal using d2 by (auto simp: same_session_def)
      subgoal for x c'
        using d2 y2 conv_ok_keys [of S n c' "k2\<lparr>km_oldMACKeys := []\<rparr>"]
        by (auto simp: revealMACKeys_def same_session_def same_dh_def tagged_def lastMessage_def updateMayRetransmitTo_def)
      done
  qed
qed

text \<open>What a call that sends a data message does to the rest of the conversation.\<close>

definition sent_ok :: "suite \<Rightarrow> nat \<Rightarrow> conversation \<Rightarrow> conversation \<Rightarrow> bool" where
  "sent_ok S n c c' \<longleftrightarrow> conv_ok S n c' \<and> same_session c c'"

lemma sent_ok_trans: "sent_ok S n a b \<Longrightarrow> sent_ok S n b c \<Longrightarrow> sent_ok S n a c"
  by (auto simp: sent_ok_def intro: same_session_trans)

lemma sent_ok_ops [simp]:
  "conv_ok S n c \<Longrightarrow> sent_ok S n c c" "sent_ok S n a c \<Longrightarrow> sent_ok S n a (updateLastSent c)"
  "sent_ok S n a c \<Longrightarrow> sent_ok S n a (messageEvent e t c)" "sent_ok S n a c \<Longrightarrow> sent_ok S n a (set_retransmitting b c)"
  "sent_ok S n a c \<Longrightarrow> sent_ok S n a (generatePotentialErrorMessage ec c)" "sent_ok S n a c \<Longrightarrow> sent_ok S n a (c\<lparr>c_resend := rs\<rparr>)"
  "sent_ok S n a c \<Longrightarrow> sent_ok S n a (c\<lparr>c_tick := tk\<rparr>)" "sent_ok S n a c \<Longrightarrow> sent_ok S n a (c\<lparr>c_injections := is\<rparr>)"
  by (auto simp: sent_ok_def same_session_def updateLastSent_def time_Now_def messageEvent_def log_event_def
      set_retransmitting_def generatePotentialErrorMessage_def injectMessage_def split: option.split)

lemma genDataMsg_sent:
  "conv_ok S n c \<Longrightarrow> returns (\<lambda>r c'. sent_ok S n c c' \<and> ((\<exists>x. r = Inr x) \<longrightarrow> tagged c')) (genDataMsgWithFlag S m fl ts c)"
  using genDataMsgWithFlag_returns by (simp add: sent_ok_def)

lemma wrap_dataMsg_sent:
  assumes "conv_ok S n c" "tagged c"
  shows "returns (\<lambda>r c'. sent_ok S n c c' \<and> (\<exists>x. r = Inr x)) (wrap_dataMsg dm c)"
proof -
  obtain v where v: "c_version c = Some v" using assms(2) by (cases "c_version c") (auto simp: tagged_def)
  then have ne: "c_version c \<noteq> None" by simp
  have "returns (\<lambda>r c'. sent_ok S n c c' \<and> (\<exists>x. r = Inr x)) (wrapMessageHeader msgTypeData (dataMsg_serialize dm v) c)"
    by (rule returns_mono [OF wrapMessageHeader_returns [OF assms(1) ne]]) (use assms(2) in \<open>auto simp: sent_ok_def\<close>)
  with v show ?thesis by (simp add: wrap_dataMsg_def)
qed

lemma wrap_then_sent:
  assumes "sent_ok S n c c1" "tagged c1" "\<And>r c2. sent_ok S n c c2 \<Longrightarrow> returns Q (f (Inr r, c2))"
  shows "returns Q (Option.bind (wrap_dataMsg dm c1) f)"
proof -
  have "conv_ok S n c1" using assms(1) by (simp add: sent_ok_def)
  then obtain r c2 where "wrap_dataMsg dm c1 = Some (Inr r, c2)" "sent_ok S n c1 c2"
    using wrap_dataMsg_sent [OF _ assms(2), of S n dm] by (auto simp: returns_iff)
  then show ?thesis using sent_ok_trans [OF assms(1)] assms(3) by simp
qed

lemma andThen_bind: "andThen m f = Option.bind m (\<lambda>(r, c). case r of Inl e \<Rightarrow> Some (Inl e, c) | Inr x \<Rightarrow> f x c)"
  by (simp add: andThen_def split: option.split prod.split)

lemma createSerializedDataMessage_sent:
  assumes "conv_ok S n c" "c_fragmentSize c = 0"
  shows "returns (\<lambda>r. sent_ok S n c) (createSerializedDataMessage S m fl ts c)"
proof -
  have frag: "c_fragmentSize (updateLastSent c2) = 0" if "sent_ok S n c c2" for c2
    using that assms(2) by (simp add: sent_ok_def same_session_def updateLastSent_def time_Now_def)
  show ?thesis
    unfolding createSerializedDataMessage_def
    by (rule returns_andThen [OF genDataMsg_sent [OF assms(1)]])
       (auto simp: andThen_bind [of "wrap_dataMsg _ _"] Let_def frag fragEncode_whole intro!: wrap_then_sent)
qed

lemma retransmit_loop_sent:
  "conv_ok S n c \<Longrightarrow> returns (\<lambda>r. sent_ok S n c) (retransmit_loop S rs msgs c)"
proof (induction msgs arbitrary: c)
  case (Cons msgx msgs)
  have rest: "returns (\<lambda>r. sent_ok S n c) (andThen (retransmit_loop S rs msgs c2) (\<lambda>rest c3. Some (Inr (g rest), c3)))"
    if "sent_ok S n c c2" for c2 g
    using Cons.IH [of c2] that sent_ok_trans [OF that] by (auto simp: sent_ok_def intro!: returns_andThen)
  show ?case
    unfolding retransmit_loop.simps Let_def genDataMsg_def
    by (rule returns_andThen [OF genDataMsg_sent [OF Cons.prems]]) (auto intro!: wrap_then_sent rest)
qed simp

lemma fold_event_sent:
  "sent_ok S n a c \<Longrightarrow> sent_ok S n a (fold (\<lambda>msgx. messageEvent ev (mr_opaque msgx)) msgs c)"
  by (induction msgs arbitrary: c) simp_all

lemma maybeRetransmit_sent:
  assumes "conv_ok S n c"
  shows "returns (\<lambda>r. sent_ok S n c) (maybeRetransmit S c)"
proof -
  obtain b c0 where s: "shouldRetransmit c = (b, c0)" by fastforce
  then have c0: "sent_ok S n c c0" using assms by (auto simp: shouldRetransmit_def time_Now_def split: if_splits)
  show ?thesis
  proof (cases b)
    case True
    let ?c = "set_retransmitting True (c0\<lparr>c_resend := (c_resend c0)\<lparr>resend_m := []\<rparr>\<rparr>)"
    have c1: "sent_ok S n c ?c" using c0 by simp
    then have "conv_ok S n ?c" by (simp only: sent_ok_def)
    then have "returns (\<lambda>r. sent_ok S n c) (retransmit_loop S rs msgs ?c)" for rs msgs
      using retransmit_loop_sent sent_ok_trans [OF c1] by (blast intro: returns_mono)
    then have "returns (\<lambda>r. sent_ok S n c) (retransmit S c0)"
      unfolding retransmit_def Let_def by (rule returns_bind) (auto simp: fold_event_sent split: sum.split)
    then show ?thesis using s True by (simp add: maybeRetransmit_def)
  qed (use s c0 in \<open>simp add: maybeRetransmit_def\<close>)
qed

lemma sendMessageOnEncrypted_sent:
  assumes "conv_ok S n c" "c_fragmentSize c = 0"
  shows "returns (\<lambda>r. sent_ok S n c) (sendMessageOnEncrypted S m c)"
  unfolding sendMessageOnEncrypted_def
  by (rule returns_bind [OF createSerializedDataMessage_sent [OF assms]]) (auto split: sum.split)

section \<open>The key exchange\<close>

text \<open>The part of the invariant that is not about the key exchange in progress, and the fields it reads.\<close>

definition others where
  "others c = (c_version c, c_ourKeys c, c_ourCurrentKey c, c_smp c, c_keys c, c_msgState c, c_fragmentSize c, c_Policies c)"

definition others_ok :: "suite \<Rightarrow> nat \<Rightarrow> conversation \<Rightarrow> bool" where
  "others_ok S n c \<longleftrightarrow> signer_ok S n c \<and> session_ok S c \<and> smp_ok S (c_version c) (c_smp c) \<and> c_version c \<noteq> None"

lemma others_ok_same: "others c = others c' \<Longrightarrow> others_ok S n c = others_ok S n c'"
  by (simp add: others_def others_ok_def signer_ok_def session_ok_def)

lemma others_upd [simp]:
  "others (c\<lparr>c_ake := x1\<rparr>) = others c" "others (c\<lparr>c_Rand := x2\<rparr>) = others c" "others (c\<lparr>c_ourInstanceTag := x3\<rparr>) = others c"
  "others (c\<lparr>c_ssid := x4\<rparr>) = others c" "others (c\<lparr>c_theirKey := x5\<rparr>) = others c" "others (c\<lparr>c_alloc := x6\<rparr>) = others c"
  "others (c\<lparr>c_sentRevealSig := x7\<rparr>) = others c" "others (upd_ake f c) = others c" "others (c\<lparr>c_tick := x8\<rparr>) = others c"
  by (simp_all add: others_def upd_ake_def)

lemma ake_state_ok_state [simp]: "ake_state_ok S v (a\<lparr>ake_state := s\<rparr>) s' = ake_state_ok S v a s'"
  by (cases s') (simp_all add: has_exponent_def peer_in_group_def sig_of_def own_pair_def)

lemma conv_ok_store:
  assumes "others_ok S n c" "c_ake c = Some a" "ake_state_ok S (c_version c) a s" "s = authStateNone \<or> tagged c"
  shows "conv_ok S n (store_state s c)"
  using assms by (auto simp: conv_ok_def others_ok_def store_state_def upd_ake_def ake_ok_def tagged_def signer_ok_def session_ok_def)

lemma conv_ok_others: "conv_ok S n c \<Longrightarrow> c_version c \<noteq> None \<Longrightarrow> others_ok S n c"
  by (simp add: conv_ok_def others_ok_def)

text \<open>What the handler of a key exchange message leaves behind, once the state it returns is stored.\<close>

definition handled :: "suite \<Rightarrow> nat \<Rightarrow> conversation \<Rightarrow> authState \<times> bytes option \<times> go_error option \<Rightarrow> conversation \<Rightarrow> bool" where
  "handled S n c r c' \<longleftrightarrow> conv_ok S n (store_state (fst r) c') \<and> c_version c' = c_version c \<and> c_fragmentSize c' = c_fragmentSize c
     \<and> c_Policies c' = c_Policies c \<and> (others c' = others c \<or> authenticated S c')"

lemma handled_I:
  assumes "others_ok S n c" "others c' = others c" "c_ake c' = Some a" "ake_state_ok S (c_version c) a s" "s = authStateNone \<or> tagged c'"
  shows "handled S n c (s, m, e) c'"
  using conv_ok_store [of S n c' a s] others_ok_same [OF assms(2)] assms by (auto simp: handled_def others_def)

lemma wrapMessageHeader_shape:
  assumes "c_version c \<noteq> None"
  shows "returns (\<lambda>r c'. others c' = others c \<and> c_ake c' = c_ake c \<and> ((\<exists>h. r = Inr h) \<longrightarrow> tagged c')
    \<and> (tagged c \<longrightarrow> c' = c \<and> (\<exists>h. r = Inr h))) (wrapMessageHeader ty m c)"
proof -
  obtain v where v: "c_version c = Some v" using assms by (cases "c_version c") auto
  obtain e c' where g: "generateInstanceTag c = (e, c')" by fastforce
  obtain r t where c': "c' = c\<lparr>c_Rand := r, c_ourInstanceTag := t\<rparr>" "c_ourInstanceTag c \<noteq> 0 \<longrightarrow> c' = c \<and> e = None"
      "e = None \<longrightarrow> c_ourInstanceTag c' \<noteq> 0"
    using generateInstanceTag_cases [OF g] .
  then show ?thesis
    using v g by (cases v) (auto simp: wrapMessageHeader_def messageHeader_def tagged_def split: option.split)
qed

lemma tagged_upd [simp]:
  "tagged (c\<lparr>c_ake := x1\<rparr>) = tagged c" "tagged (c\<lparr>c_Rand := x2\<rparr>) = tagged c" "tagged (c\<lparr>c_sentRevealSig := x3\<rparr>) = tagged c"
  "tagged (upd_ake f c) = tagged c" "tagged (c\<lparr>c_ssid := x4\<rparr>) = tagged c" "tagged (c\<lparr>c_theirKey := x5\<rparr>) = tagged c"
  "tagged (c\<lparr>c_alloc := x6\<rparr>) = tagged c"
  by (simp_all add: tagged_def upd_ake_def)

lemma randMPI_nonneg: "randMPI k r = (Inr x, r') \<Longrightarrow> 0 \<le> x"
  by (auto simp: randMPI_def split: prod.splits sum.splits)

definition drawn :: "suite \<Rightarrow> int \<Rightarrow> ake_ctx" where
  "drawn S x = nil_ake\<lparr>ake_secretExponent := Some x, ake_ourPublicValue := Some (modExp S (dh_g1 S) x)\<rparr>"

definition key_drawn :: "suite \<Rightarrow> conversation \<Rightarrow> go_error + bytes \<Rightarrow> conversation \<Rightarrow> bool" where
  "key_drawn S c r c' \<longleftrightarrow> others c' = others c \<and>
     (case r of Inl e \<Rightarrow> c_ake c' = Some nil_ake | Inr b \<Rightarrow> \<exists>x\<ge>0. c_ake c' = Some (drawn S x))"

lemma dhKeyMessage_shape: "returns (key_drawn S c) (dhKeyMessage S c)"
  by (auto simp: dhKeyMessage_def Let_def initAKE_def setSecretExponent_def upd_ake_def serializeDHKey_def drawn_def key_drawn_def
      dest: randMPI_nonneg split: prod.split sum.split)

lemma drawn_ok: "0 \<le> x \<Longrightarrow> has_exponent S (drawn S x)" "km_ourKeyID (ake_keys (drawn S x)) = 0"
  by (simp_all add: has_exponent_def drawn_def nil_ake_def nil_keys_def)

lemma others_version: "others c' = others c \<Longrightarrow> c_version c' = c_version c"
  by (simp add: others_def)

lemma receiveDHCommit_None_returns:
  assumes "others_ok S n c" "others c0 = others c"
  shows "returns (handled S n c) (receiveDHCommit_None S msg c0)"
proof -
  note H = handled_I [OF assms(1)]
  have v: "c_version c \<noteq> None" using assms(1) by (simp add: others_ok_def)
  show ?thesis
    unfolding receiveDHCommit_None_def
  proof (rule returns_or_keep [OF dhKeyMessage_shape])
    fix e c1 assume "key_drawn S (upd_ake (ake_wipe True) c0) (Inl e) c1"
    then show "handled S n c (authStateNone, None, Some e) c1"
      using assms(2) by (intro H) (auto simp: key_drawn_def)
  next
    fix b c1 assume "key_drawn S (upd_ake (ake_wipe True) c0) (Inr b) c1"
    then obtain x where c1: "others c1 = others c" "0 \<le> x" "c_ake c1 = Some (drawn S x)"
      using assms(2) by (auto simp: key_drawn_def)
    then have v1: "c_version c1 \<noteq> None" using v others_version by metis
    show "returns (handled S n c) (or_keep authStateNone (wrapMessageHeader msgTypeDHKey b c1)
       (\<lambda>dhKeyMsg c2. or_keep authStateNone (processDHCommit msg c2)
         (\<lambda>_ c3. Some ((authStateAwaitingRevealSig, Some dhKeyMsg, None), c3))))"
      by (rule returns_or_keep [OF wrapMessageHeader_shape [OF v1]])
         (use c1 drawn_ok(1) [OF c1(2), of S] drawn_ok(2) [of S x] in \<open>auto simp: processDHCommit_def upd_ake_def has_exponent_def split: sum.split intro!: H\<close>)
  qed
qed

lemma receiveDHCommit_AwaitingRevealSig_returns:
  assumes "others_ok S n c" "c_ake c = Some a" "has_exponent S a" "tagged c"
  shows "returns (handled S n c) (receiveDHCommit_AwaitingRevealSig S msg c)"
proof -
  note H = handled_I [OF assms(1)]
  obtain x where x: "0 \<le> x" "ake_secretExponent a = Some x" "ake_ourPublicValue a = Some (modExp S (dh_g1 S) x)"
    using assms(3) by (auto simp: has_exponent_def)
  let ?a = "wipeGX (a\<lparr>ake_keys := wipeAndKeepRevealKeys (ake_keys a)\<rparr>)"
  have id: "km_ourKeyID (wipeAndKeepRevealKeys k) = 0" for k by (simp add: wipeAndKeepRevealKeys_def nil_keys_def)
  show ?thesis
  proof (cases "dhCommit_deserialize msg")
    case (Inl e)
    then show ?thesis using assms x id
      by (auto simp: receiveDHCommit_AwaitingRevealSig_def processDHCommit_def wipeGX_def has_exponent_def intro!: H)
  next
    case (Inr m)
    let ?c1 = "c\<lparr>c_ake := Some (?a\<lparr>ake_encryptedGx := dc_encryptedGx m, ake_xhashedGx := dc_yhashedGx m\<rparr>)\<rparr>"
    have v1: "c_version ?c1 \<noteq> None" "tagged ?c1" using assms by (simp_all add: others_ok_def)
    have "returns (handled S n c) (or_keep authStateAwaitingRevealSig (wrapMessageHeader msgTypeDHKey body ?c1)
       (\<lambda>dhKeyMsg c2. Some ((authStateAwaitingRevealSig, Some dhKeyMsg, None), c2)))" for body
      by (rule returns_or_keep [OF wrapMessageHeader_shape [OF v1(1)]])
         (use assms v1 x id in \<open>auto simp: wipeGX_def has_exponent_def intro!: H\<close>)
    then show ?thesis using assms x Inr
      by (simp add: receiveDHCommit_AwaitingRevealSig_def processDHCommit_def wipeGX_def upd_ake_def serializeDHKey_def)
  qed
qed

lemma receiveDHCommit_AwaitingDHKey_returns:
  assumes "others_ok S n c" "c_ake c = Some a" "has_exponent S a" "km_ourKeyID (ake_keys a) = 0" "tagged c" "peer_in_group S a"
  shows "returns (handled S n c) (receiveDHCommit_AwaitingDHKey S msg c)"
proof -
  note H = handled_I [OF assms(1)]
  obtain v where v: "c_version c = Some v" using assms(1) by (cases "c_version c") (auto simp: others_ok_def)
  obtain x where x: "0 \<le> x" "ake_secretExponent a = Some x" "ake_ourPublicValue a = Some (modExp S (dh_g1 S) x)"
    using assms(3) by (auto simp: has_exponent_def)
  have ne: "c_version c \<noteq> None" using v by simp
  have 1: "returns (handled S n c) (or_keep authStateAwaitingDHKey (wrapMessageHeader msgTypeDHCommit body c)
       (\<lambda>dhCommitMsg c1. Some ((authStateAwaitingRevealSig, Some dhCommitMsg, None), c1)))" for body
    by (rule returns_or_keep [OF wrapMessageHeader_shape [OF ne]]) (use assms in \<open>auto intro!: H\<close>)
  have 2: "handled S n c (authStateAwaitingDHKey, None, e) c" for e
    using assms by (intro H) auto
  show ?thesis
    using 1 2 receiveDHCommit_None_returns [OF assms(1), of c] assms(2) v x
    by (auto simp: receiveDHCommit_AwaitingDHKey_def serializeDHCommit_def split: option.split)
qed

lemma processEncryptedSig_shape:
  assumes "c_version c \<noteq> None" "c_ake c = Some a" "ake_ourPublicValue a \<noteq> None" "ake_theirPublicValue a \<noteq> None"
  shows "returns (\<lambda>r c'. \<exists>tk al kid. c' = c\<lparr>c_theirKey := tk, c_alloc := al,
      c_ake := Some (a\<lparr>ake_keys := (ake_keys a)\<lparr>km_theirKeyID := kid\<rparr>\<rparr>)\<rparr>
      \<and> (r = Inr () \<longrightarrow> signed_peer S c' (a\<lparr>ake_keys := (ake_keys a)\<lparr>km_theirKeyID := kid\<rparr>\<rparr>) K)) (processEncryptedSig S es mac K c)"
proof -
  obtain v our their where v: "c_version c = Some v" "ake_ourPublicValue a = Some our" "ake_theirPublicValue a = Some their"
    using assms by (cases "c_version c"; cases "ake_ourPublicValue a"; cases "ake_theirPublicValue a") auto
  let ?R = "\<lambda>r c'. \<exists>tk al kid. c' = c\<lparr>c_theirKey := tk, c_alloc := al,
      c_ake := Some (a\<lparr>ake_keys := (ake_keys a)\<lparr>km_theirKeyID := kid\<rparr>\<rparr>)\<rparr>"
  have same: "?R (Inl e) c" for e :: go_error
    using assms(2) by (intro exI [of _ "c_theirKey c"] exI [of _ "c_alloc c"] exI [of _ "km_theirKeyID (ake_keys a)"])
      (simp add: c_ake_same)
  have stored: "?R (Inl e) (c\<lparr>c_theirKey := tk, c_alloc := al\<rparr>)" for e :: go_error and tk al
    using assms(2) by (intro exI [of _ tk] exI [of _ al] exI [of _ "km_theirKeyID (ake_keys a)"]) (cases c, simp)
  show ?thesis
  proof (cases "verifyEncryptedSignatureMAC S es mac K v")
    case (Some e)
    then show ?thesis using v same by (simp add: processEncryptedSig_def)
  next
    case None
    show ?thesis
    proof (cases "decrypt S (fixedSize (keyLength v) (ak_c K)) es")
      case (Inl e)
      then show ?thesis using None v same by (simp add: processEncryptedSig_def)
    next
      case (Inr d)
      obtain rest ok pub where p: "ParsePublicKey (c_alloc c) d = (rest, ok, pub)" by (metis prod_cases3)
      let ?c1 = "c\<lparr>c_theirKey := pub, c_alloc := c_alloc c + 1\<rparr>"
      show ?thesis
      proof (cases "ok \<and> ExtractWord rest \<noteq> None")
        case True
        then obtain sg kid key where k: "ExtractWord rest = Some (sg, kid)" "pub = Some key" "pub_full key"
          using p ParsePublicKey_full [of "c_alloc c" d rest pub] by (cases "ExtractWord rest") auto
        let ?mb = "sumHMAC S (ak_m1 K) (appendAll their our key kid) v"
        obtain rest' ok' where kv: "key_Verify S key ?mb sg = Some (rest', ok')"
          using key_Verify_returns [OF k(3)] by blast
        then show ?thesis using v None Inr p True k assms(2) stored
          by (auto simp: processEncryptedSig_def parseTheirKey_def expectedMessageHMAC_def checkedSignatureVerification_def
              upd_ake_def signed_peer_def intro!: exI)
      next
        case False
        then show ?thesis using v None Inr p stored
          by (cases "ExtractWord rest") (auto simp: processEncryptedSig_def parseTheirKey_def Let_def)
      qed
    qed
  qed
qed

text \<open>The parts of the context of the key exchange that the signatures do not change.\<close>

definition ake_keeps :: "ake_ctx \<Rightarrow> ake_ctx \<Rightarrow> bool" where
  "ake_keeps a a' \<longleftrightarrow> ake_secretExponent a' = ake_secretExponent a \<and> ake_ourPublicValue a' = ake_ourPublicValue a
     \<and> km_ourKeyID (ake_keys a') = km_ourKeyID (ake_keys a) \<and> ourCurrentDHKeys (ake_keys a') = ourCurrentDHKeys (ake_keys a)"

definition beside :: "conversation \<Rightarrow> conversation \<Rightarrow> bool" where
  "beside c c' \<longleftrightarrow> others c' = others c \<and> tagged c' = tagged c \<and> c_Rand c' = c_Rand c"

lemma beside_upd [simp]: "beside c c" "beside c (upd_ake f c)" "beside c (c\<lparr>c_ake := x\<rparr>)"
  by (simp_all add: beside_def)

lemma returns_wrap_error: "returns Q m \<Longrightarrow> (\<And>e e' c. Q (Inl e) c \<Longrightarrow> Q (Inl e') c) \<Longrightarrow> returns Q (wrap_error pre m)"
  by (auto simp: returns_iff wrap_error_def split: option.splits sum.splits)

lemma processSig_shape:
  assumes "c_version c \<noteq> None" "c_ake c = Some a" "ake_ourPublicValue a \<noteq> None" "ake_theirPublicValue a \<noteq> None"
  shows "returns (\<lambda>r c'. beside c c' \<and> (\<exists>a'. c_ake c' = Some a' \<and> ake_keeps a a' \<and> ake_theirPublicValue a' = ake_theirPublicValue a
      \<and> ake_sigKey a' = ake_sigKey a \<and> (r = Inr () \<longrightarrow> signed_peer S c' a' (ake_sigKey a))))
     (processSig S msg c)"
proof (cases "sig_deserialize msg")
  case (Inl e)
  then show ?thesis using assms(2) by (simp add: processSig_def ake_keeps_def)
next
  case (Inr m)
  show ?thesis
    using Inr assms(2) unfolding processSig_def
    by simp (rule returns_wrap_error [OF returns_mono [OF processEncryptedSig_shape [OF assms]]],
      auto simp: beside_def ake_keeps_def)
qed

lemma processRevealSig_shape:
  assumes "c_version c \<noteq> None" "c_ake c = Some a" "has_exponent S a"
  shows "returns (\<lambda>r c'. beside c c' \<and> (\<exists>a'. c_ake c' = Some a' \<and> ake_keeps a a'
      \<and> (r = Inr () \<longrightarrow> (\<exists>t x v. ake_theirPublicValue a' = Some t \<and> isGroupElement S t \<and> ake_secretExponent a' = Some x \<and> c_version c = Some v
          \<and> ake_sigKey a' = sig_key S (modExp S t x) v \<and> signed_peer S c' a' (reveal_key S (modExp S t x) v))))) (processRevealSig S msg c)"
proof -
  obtain v where v: "c_version c = Some v" using assms(1) by (cases "c_version c") auto
  obtain x gy where x: "ake_secretExponent a = Some x" "ake_ourPublicValue a = Some gy"
    using assms(3) by (auto simp: has_exponent_def)
  let ?Q = "\<lambda>r c'. beside c c' \<and> (\<exists>a'. c_ake c' = Some a' \<and> ake_keeps a a'
      \<and> (r = Inr () \<longrightarrow> (\<exists>t x v. ake_theirPublicValue a' = Some t \<and> isGroupElement S t \<and> ake_secretExponent a' = Some x \<and> c_version c = Some v
          \<and> ake_sigKey a' = sig_key S (modExp S t x) v \<and> signed_peer S c' a' (reveal_key S (modExp S t x) v))))"
  have fail: "?Q (Inl e) c" for e using assms(2) by (simp add: ake_keeps_def)
  show ?thesis
  proof (cases "revealSig_deserialize msg v")
    case (Inl e)
    then show ?thesis using v fail by (simp add: processRevealSig_def)
  next
    case (Inr m)
    note m = Inr
    show ?thesis
    proof (cases "decrypt S (rs_r m) (ake_encryptedGx a)")
      case (Inl e)
      then show ?thesis using v fail assms(2) m by (simp add: processRevealSig_def)
    next
      case (Inr d)
      obtain g e where g: "extractGx S d = (g, e)" by fastforce
      show ?thesis
      proof (cases "checkDecryptedGx S d (ake_xhashedGx a) v = None \<and> e = None")
        case False
        then show ?thesis using v fail assms(2) m Inr g
          by (cases "checkDecryptedGx S d (ake_xhashedGx a) v"; cases e)
             (auto simp: processRevealSig_def Let_def beside_def ake_keeps_def upd_ake_def)
      next
        case True
        then obtain gx where gx: "g = Some gx" "isGroupElement S gx" using g by (auto simp: extractGx_def split: option.splits if_splits)
        let ?s = "modExp S gx x"
        let ?a2 = "a\<lparr>ake_theirPublicValue := Some gx, ake_revealKey := reveal_key S ?s v, ake_sigKey := sig_key S ?s v\<rparr>"
        let ?c2 = "c\<lparr>c_ssid := ssid_of S ?s v, c_ake := Some ?a2\<rparr>"
        have "returns ?Q (wrap_error pre (processEncryptedSig S es mac (reveal_key S ?s v) ?c2))" for pre es mac
          by (rule returns_wrap_error [OF returns_mono [OF processEncryptedSig_shape [of ?c2 ?a2]]])
             (use v x gx in \<open>auto simp: beside_def ake_keeps_def\<close>)
        then show ?thesis
          using v assms(2) m Inr g gx True x
          by (simp add: processRevealSig_def calcDHSharedSecret_def calcAKEKeys_alt upd_ake_def)
      qed
    qed
  qed
qed

definition bumped :: "ake_ctx \<Rightarrow> ake_ctx \<Rightarrow> bool" where
  "bumped a a' \<longleftrightarrow> ake_secretExponent a' = ake_secretExponent a \<and> ake_ourPublicValue a' = ake_ourPublicValue a
     \<and> ake_theirPublicValue a' = ake_theirPublicValue a \<and> km_ourKeyID (ake_keys a') = km_ourKeyID (ake_keys a) + 1
     \<and> km_theirKeyID (ake_keys a') = km_theirKeyID (ake_keys a)"

context dh_suite
begin

lemma generateEncryptedSignature_returns:
  assumes "others_ok S n c" "n \<le> length (c_Rand c)" "c_ake c = Some a" "ake_ourPublicValue a \<noteq> None" "ake_theirPublicValue a \<noteq> None"
    "length (ak_c K) = 16"
  shows "\<exists>enc rnd. generateEncryptedSignature S K c = Some (Inr enc, c\<lparr>c_Rand := rnd\<rparr>) \<and> length (c_Rand c) \<le> length rnd + n"
proof -
  obtain v sk our their where v: "c_version c = Some v" "c_ourCurrentKey c = Some sk" "ake_ourPublicValue a = Some our"
      "ake_theirPublicValue a = Some their"
    using assms(1,4,5) by (cases "c_version c"; cases "c_ourCurrentKey c"; cases "ake_ourPublicValue a"; cases "ake_theirPublicValue a")
      (auto simp: others_ok_def signer_ok_def)
  then have "key_pair_ok S n sk" using assms(1) by (auto simp: others_ok_def signer_ok_def)
  from generateEncryptedSignature_ok [OF v(2) this assms(2,3) v(3,4,1) assms(6)] show ?thesis by blast
qed

lemma hmac_serializes:
  "\<exists>out. revealSig_serialize \<lparr>rs_r = r, rs_encryptedSig = es, rs_macSig = sumHMAC S k m v\<rparr> v' = Some out"
  "\<exists>out. sig_serialize \<lparr>sg_encryptedSig = es, sg_macSig = sumHMAC S k m v\<rparr> v' = Some out"
  by (cases v'; simp add: revealSig_serialize_def sig_serialize_def slice_def sumHMAC_def length_hmac_sha256)+

lemma revealSigMessage_shape:
  assumes "others_ok S n c" "n \<le> length (c_Rand c)" "c_ake c = Some a" "has_exponent S a" "ake_theirPublicValue a \<noteq> None"
  shows "returns (\<lambda>r c'. others c' = others c \<and> tagged c' = tagged c \<and> length (c_Rand c) \<le> length (c_Rand c') + n
      \<and> (\<exists>a'. c_ake c' = Some a' \<and> bumped a a' \<and> sig_of S (c_version c) a') \<and> (\<exists>b. r = Inr b)) (revealSigMessage S c)"
proof -
  obtain v x gy their where v: "c_version c = Some v" "ake_secretExponent a = Some x" "ake_ourPublicValue a = Some gy"
      "ake_theirPublicValue a = Some their"
    using assms(1,4,5) by (cases "c_version c"; cases "ake_theirPublicValue a") (auto simp: others_ok_def has_exponent_def)
  let ?s = "modExp S their x"
  let ?a1 = "a\<lparr>ake_revealKey := reveal_key S ?s v, ake_sigKey := sig_key S ?s v,
     ake_keys := (ake_keys a)\<lparr>km_ourKeyID := km_ourKeyID (ake_keys a) + 1\<rparr>\<rparr>"
  let ?c1 = "c\<lparr>c_ssid := ssid_of S ?s v, c_ake := Some ?a1\<rparr>"
  have "others_ok S n ?c1" using others_ok_same [of ?c1 c] assms(1) by simp
  then obtain enc rnd where gen: "generateEncryptedSignature S (reveal_key S ?s v) ?c1 = Some (Inr enc, ?c1\<lparr>c_Rand := rnd\<rparr>)"
      "length (c_Rand c) \<le> length rnd + n"
    using generateEncryptedSignature_returns [of n ?c1 ?a1 "reveal_key S ?s v"] assms(2) v ake_key_lengths(1) by auto
  obtain out where "revealSig_serialize \<lparr>rs_r = ake_r a, rs_encryptedSig = enc,
      rs_macSig = sumHMAC S (ak_m2 (reveal_key S ?s v)) enc v\<rparr> v = Some out"
    using hmac_serializes by blast
  then show ?thesis using v assms(3) gen
    by (simp add: revealSigMessage_def calcDHSharedSecret_def calcAKEKeys_alt incr_ourKeyID_def upd_ake_def bumped_def sig_of_def)
qed

lemma sigMessage_shape:
  assumes "others_ok S n c" "n \<le> length (c_Rand c)" "c_ake c = Some a" "has_exponent S a" "ake_theirPublicValue a \<noteq> None"
    "c_version c = Some v" "ake_sigKey a = sig_key S s v"
  shows "returns (\<lambda>r c'. others c' = others c \<and> tagged c' = tagged c \<and> length (c_Rand c) \<le> length (c_Rand c') + n
      \<and> (\<exists>a'. c_ake c' = Some a' \<and> bumped a a') \<and> (\<exists>b. r = Inr b) \<and> c_theirKey c' = c_theirKey c) (sigMessage S c)"
proof -
  let ?a1 = "a\<lparr>ake_keys := (ake_keys a)\<lparr>km_ourKeyID := km_ourKeyID (ake_keys a) + 1\<rparr>\<rparr>"
  let ?c1 = "c\<lparr>c_ake := Some ?a1\<rparr>"
  have "others_ok S n ?c1" using others_ok_same [of ?c1 c] assms(1) by simp
  then obtain enc rnd where gen: "generateEncryptedSignature S (sig_key S s v) ?c1 = Some (Inr enc, ?c1\<lparr>c_Rand := rnd\<rparr>)"
      "length (c_Rand c) \<le> length rnd + n"
    using generateEncryptedSignature_returns [of n ?c1 ?a1 "sig_key S s v"] assms(2,4,5) ake_key_lengths(2) by (auto simp: has_exponent_def)
  obtain out where "sig_serialize \<lparr>sg_encryptedSig = enc, sg_macSig = sumHMAC S (ak_m2 (sig_key S s v)) enc v\<rparr> v = Some out"
    using hmac_serializes by blast
  then show ?thesis using assms gen by (simp add: sigMessage_def incr_ourKeyID_def upd_ake_def bumped_def)
qed

end

lemma akeHasFinished_returns:
  assumes "others_ok S n c" "c_ake c = Some a" "keys_ok S (ake_keys a)"
    and sg: "exchange_signed S c t x (km_theirKeyID (ake_keys a))" "theirCurrentDHPubKey (ake_keys a) = Some t"
      "ourCurrentDHKeys (ake_keys a) = dh_pair S x"
  shows "returns (\<lambda>e c'. handled S n c (authStateNone, m, e) c') (akeHasFinished S c)"
proof -
  obtain v sk where v: "c_version c = Some v" "c_ourCurrentKey c = Some sk"
    using assms(1) by (cases "c_version c"; cases "c_ourCurrentKey c") (auto simp: others_ok_def signer_ok_def)
  obtain e r k where k: "generateNewDHKeyPair S (c_Rand c) (ake_keys a) = (e, r, k)" by (metis prod_cases3)
  have ok: "keys_ok S k" using generateNewDHKeyPair_ok [OF assms(3) k] .
  have dh: "km_theirKeyID k = km_theirKeyID (ake_keys a)" "theirCurrentDHPubKey k = Some t" "dh_pair S x \<in> {ourPreviousDHKeys k, ourCurrentDHKeys k}"
    using k sg(2,3) by (auto simp: generateNewDHKeyPair_def split: prod.splits sum.splits)
  have "authenticated S c'" if "c_keys c' = k" "c_version c' = c_version c" "c_theirKey c' = c_theirKey c" for c'
    unfolding authenticated_def using that dh sg(1) exchange_signed_same [of c' c S] by (intro exI [of _ t] exI [of _ x]) simp
  then show ?thesis
    using assms(1,2) v k ok
    by (auto simp: akeHasFinished_def upd_ake_def time_Now_def c_generateNewDHKeyPair_def handled_def Let_def messageEvent_def
        log_event_def signalSecurityEventIf_def securityEvent_def store_state_def conv_ok_def others_ok_def ake_ok_def signer_ok_def session_ok_def)
qed

definition learned :: "suite \<Rightarrow> ake_ctx \<Rightarrow> int option \<Rightarrow> bool" where
  "learned S a t \<longleftrightarrow> (ake_theirPublicValue a \<noteq> None \<longrightarrow> t = ake_theirPublicValue a)
     \<and> (\<forall>g. t = Some g \<longrightarrow> ake_theirPublicValue a = Some g \<or> isGroupElement S g)"

lemma processDHKey_shape:
  assumes "c_ake c = Some a"
  shows "returns (\<lambda>r c'. \<exists>t. c' = c\<lparr>c_ake := Some (a\<lparr>ake_theirPublicValue := t\<rparr>)\<rparr> \<and> learned S a t \<and> ((\<exists>b. r = Inr b) \<longrightarrow> t \<noteq> None))
    (processDHKey S msg c)"
proof -
  have same: "\<exists>t. c = c\<lparr>c_ake := Some (a\<lparr>ake_theirPublicValue := t\<rparr>)\<rparr> \<and> learned S a t \<and> (ake_theirPublicValue a \<noteq> None \<longrightarrow> t \<noteq> None)"
    using assms by (intro exI [of _ "ake_theirPublicValue a"]) (simp add: c_ake_same learned_def)
  show ?thesis
  proof (cases "dhKey_deserialize msg")
    case (Inl e)
    then show ?thesis using same by (auto simp: processDHKey_def)
  next
    case (Inr m)
    show ?thesis
    proof (cases "ake_theirPublicValue a")
      case None
      then show ?thesis using Inr same assms by (auto simp: processDHKey_def upd_ake_def learned_def intro!: exI [of _ "Some (dk_gy m)"])
    next
      case (Some t)
      then show ?thesis using Inr same assms by (auto simp: processDHKey_def)
    qed
  qed
qed

lemma has_exponent_their [simp]: "has_exponent S (a\<lparr>ake_theirPublicValue := t\<rparr>) = has_exponent S a"
  by (simp add: has_exponent_def)

lemma has_exponent_keeps: "ake_keeps a a' \<or> bumped a a' \<Longrightarrow> has_exponent S a \<Longrightarrow> has_exponent S a'"
  by (auto simp: has_exponent_def ake_keeps_def bumped_def)

lemma setDHKeys_returns:
  assumes "c_ake c = Some a" "has_exponent S a" "ake_theirPublicValue a \<noteq> None"
  shows "\<exists>a'. setDHKeys c = Some (c\<lparr>c_ake := Some a'\<rparr>) \<and> has_exponent S a' \<and> ake_theirPublicValue a' = ake_theirPublicValue a
    \<and> ake_sigKey a' = ake_sigKey a \<and> ake_secretExponent a' = ake_secretExponent a \<and> ake_ourPublicValue a' = ake_ourPublicValue a
    \<and> km_ourKeyID (ake_keys a') = km_ourKeyID (ake_keys a) \<and> own_pair a'
    \<and> theirCurrentDHPubKey (ake_keys a') = ake_theirPublicValue a \<and> km_theirKeyID (ake_keys a') = km_theirKeyID (ake_keys a)"
  using assms by (cases "ake_theirPublicValue a")
    (auto simp: setDHKeys_def has_exponent_def upd_ake_def setOurCurrentDHKeys_def setTheirCurrentDHPubKey_def own_pair_def)

lemma own_pair_ok: "own_pair a \<Longrightarrow> has_exponent S a \<Longrightarrow> pair_ok S (ourCurrentDHKeys (ake_keys a))"
  by (auto simp: own_pair_def has_exponent_def pair_ok_def)

lemma sig_of_same:
  "sig_of S v a \<Longrightarrow> ake_theirPublicValue a' = ake_theirPublicValue a \<Longrightarrow> ake_secretExponent a' = ake_secretExponent a \<Longrightarrow>
   ake_sigKey a' = ake_sigKey a \<Longrightarrow> sig_of S v a'"
  by (simp add: sig_of_def)

context dh_suite
begin

lemma receiveDHKeyMessage_returns:
  assumes "others_ok S n c" "n \<le> length (c_Rand c)" "c_ake c = Some a" "ake_state_ok S (c_version c) a s" "s = authStateNone \<or> tagged c"
  shows "returns (handled S n c) (receiveDHKeyMessage S s msg c)"
proof -
  note H = handled_I [OF assms(1)]
  have keep: "handled S n c (s, m, e) c" for m e using H [OF _ assms(3,4)] assms(5) by simp
  note dk = processDHKey_shape [OF assms(3), of S msg]
  show ?thesis
  proof (cases s)
    case authStateAwaitingDHKey
    then have s: "has_exponent S a" "km_ourKeyID (ake_keys a) = 0" "tagged c" "peer_in_group S a" using assms(4,5) by auto
    have step: "returns (handled S n c) (or_keep s (revealSigMessage S c1)
        (\<lambda>body c2. or_keep s (wrapMessageHeader msgTypeRevealSig body c2)
          (\<lambda>revealSigMsg c3. do { c4 \<leftarrow> setDHKeys c3;
             Some ((authStateAwaitingSig revealSigMsg, Some revealSigMsg, None), c4\<lparr>c_sentRevealSig := True\<rparr>) })))"
      if c1: "c1 = c\<lparr>c_ake := Some (a\<lparr>ake_theirPublicValue := t\<rparr>)\<rparr>" "t \<noteq> None" "peer_in_group S (a\<lparr>ake_theirPublicValue := t\<rparr>)" for c1 t
    proof (rule returns_or_keep [OF revealSigMessage_shape [of n c1 "a\<lparr>ake_theirPublicValue := t\<rparr>"]])
      show "others_ok S n c1" using others_ok_same [of c1 c] assms(1) c1 by simp
    next
      fix b c2 assume "others c2 = others c1 \<and> tagged c2 = tagged c1 \<and> length (c_Rand c1) \<le> length (c_Rand c2) + n
        \<and> (\<exists>a'. c_ake c2 = Some a' \<and> bumped (a\<lparr>ake_theirPublicValue := t\<rparr>) a' \<and> sig_of S (c_version c1) a')
        \<and> (\<exists>b'. Inr b = (Inr b' :: go_error + bytes))"
      then obtain a2 where c2: "others c2 = others c" "tagged c2" "c_ake c2 = Some a2" "bumped (a\<lparr>ake_theirPublicValue := t\<rparr>) a2"
          "sig_of S (c_version c) a2"
        using c1 s(3) by auto
      have v2: "c_version c2 \<noteq> None" using c2(2) by (simp add: tagged_def)
      have a2: "has_exponent S a2" "ake_theirPublicValue a2 \<noteq> None" "km_ourKeyID (ake_keys a2) = 1" "peer_in_group S a2"
        using c2(4) has_exponent_keeps [of "a\<lparr>ake_theirPublicValue := t\<rparr>" a2] s c1 by (auto simp: bumped_def peer_in_group_def)
      show "returns (handled S n c) (or_keep s (wrapMessageHeader msgTypeRevealSig b c2)
          (\<lambda>revealSigMsg c3. do { c4 \<leftarrow> setDHKeys c3;
             Some ((authStateAwaitingSig revealSigMsg, Some revealSigMsg, None), c4\<lparr>c_sentRevealSig := True\<rparr>) }))"
      proof (rule returns_or_keep [OF wrapMessageHeader_shape [OF v2]])
        fix m c3 assume "others c3 = others c2 \<and> c_ake c3 = c_ake c2 \<and> ((\<exists>h. Inr m = (Inr h :: go_error + bytes)) \<longrightarrow> tagged c3)
            \<and> (tagged c2 \<longrightarrow> c3 = c2 \<and> (\<exists>h. Inr m = (Inr h :: go_error + bytes)))"
        then have c3: "c3 = c2" using c2 by blast
        obtain a3 where a3: "setDHKeys c2 = Some (c2\<lparr>c_ake := Some a3\<rparr>)" "has_exponent S a3" "km_ourKeyID (ake_keys a3) = 1"
            "own_pair a3" "ake_theirPublicValue a3 = ake_theirPublicValue a2" "ake_secretExponent a3 = ake_secretExponent a2"
            "ake_sigKey a3 = ake_sigKey a2"
          using setDHKeys_returns [OF c2(3) a2(1,2)] a2(3) by auto
        moreover have "peer_in_group S a3" "sig_of S (c_version c) a3"
          using a2(4) a3(5) sig_of_same [OF c2(5) a3(5-7)] by (simp_all add: peer_in_group_def)
        ultimately show "returns (handled S n c) (do { c4 \<leftarrow> setDHKeys c3;
             Some ((authStateAwaitingSig m, Some m, None), c4\<lparr>c_sentRevealSig := True\<rparr>) })"
          using c3 c2 by (auto intro!: H)
      qed (use c2 in auto)
    qed (use assms c1 s in auto)
    have grp: "peer_in_group S (a\<lparr>ake_theirPublicValue := t\<rparr>)" if "learned S a t" for t
      using that s(4) by (auto simp: learned_def peer_in_group_def)
    show ?thesis
      unfolding receiveDHKeyMessage_def using authStateAwaitingDHKey
      by simp (rule returns_or_keep [OF dk], use s step grp authStateAwaitingDHKey in \<open>auto intro!: H\<close>)
  next
    case (authStateAwaitingSig m)
    then have s: "has_exponent S a" "km_ourKeyID (ake_keys a) = 1" "peer_in_group S a" "sig_of S (c_version c) a" "own_pair a" "tagged c"
      using assms(4,5) by auto
    have same: "a\<lparr>ake_theirPublicValue := t\<rparr> = a" if "learned S a t" for t
      using that s(4) by (auto simp: learned_def sig_of_def)
    show ?thesis
      unfolding receiveDHKeyMessage_def using authStateAwaitingSig
      by simp (rule returns_or_keep [OF dk], use s same in \<open>auto intro!: H\<close>)
  qed (use keep in \<open>simp_all add: receiveDHKeyMessage_def\<close>)
qed

end

lemma handled_frame: "others c' = others c \<Longrightarrow> handled S n c' r c1 = handled S n c r c1"
  by (simp add: handled_def others_def)

lemma handled_sigs:
  assumes "others_ok S n c" "others c1 = others c" "c_ake c1 = Some a" "keys_ok S (ake_keys a)"
    "exchange_signed S c1 t x (km_theirKeyID (ake_keys a))" "theirCurrentDHPubKey (ake_keys a) = Some t" "ourCurrentDHKeys (ake_keys a) = dh_pair S x"
  shows "returns (handled S n c) (do { (e, c2) \<leftarrow> akeHasFinished S c1; Some ((authStateNone, m, e), c2) })"
proof -
  have "others_ok S n c1" using others_ok_same [OF assms(2)] assms(1) by simp
  from akeHasFinished_returns [OF this assms(3-7), of m] show ?thesis
    by (auto simp: returns_iff handled_frame [OF assms(2)])
qed

lemma receiveSigMessage_returns:
  assumes "others_ok S n c" "c_ake c = Some a" "ake_state_ok S (c_version c) a s" "s = authStateNone \<or> tagged c"
  shows "returns (handled S n c) (receiveSigMessage S s msg c)"
proof -
  note H = handled_I [OF assms(1)]
  have keep: "handled S n c (s, m, e) c" for m e using H [OF _ assms(2,3)] assms(4) by simp
  show ?thesis
  proof (cases s)
    case (authStateAwaitingSig m)
    then have s: "has_exponent S a" "ake_theirPublicValue a \<noteq> None" "km_ourKeyID (ake_keys a) = 1" "own_pair a" "tagged c"
        "peer_in_group S a" "sig_of S (c_version c) a"
      using assms(3,4) by (auto simp: sig_of_def)
    have pre: "c_version c \<noteq> None" "ake_ourPublicValue a \<noteq> None" using s by (auto simp: tagged_def has_exponent_def)
    show ?thesis
      unfolding receiveSigMessage_def authStateAwaitingSig authState.case
    proof (rule returns_or_keep [OF processSig_shape [OF pre(1) assms(2) pre(2) s(2)]])
      fix e c1 assume "beside c c1 \<and> (\<exists>a'. c_ake c1 = Some a' \<and> ake_keeps a a' \<and> ake_theirPublicValue a' = ake_theirPublicValue a
          \<and> ake_sigKey a' = ake_sigKey a \<and> (Inl e = (Inr () :: go_error + unit) \<longrightarrow> signed_peer S c1 a' (ake_sigKey a)))"
      then obtain a' where "beside c c1" "c_ake c1 = Some a'" "ake_keeps a a'" "ake_theirPublicValue a' = ake_theirPublicValue a"
          "ake_sigKey a' = ake_sigKey a" by blast
      then show "handled S n c (authStateAwaitingSig m, None, Some e) c1"
        using s has_exponent_keeps [of a a' S] sig_of_same [OF s(7), of a']
        by (intro H [of _ a']) (auto simp: beside_def ake_keeps_def own_pair_def peer_in_group_def)
    next
      fix u c1 assume "beside c c1 \<and> (\<exists>a'. c_ake c1 = Some a' \<and> ake_keeps a a' \<and> ake_theirPublicValue a' = ake_theirPublicValue a
          \<and> ake_sigKey a' = ake_sigKey a \<and> (Inr u = (Inr () :: go_error + unit) \<longrightarrow> signed_peer S c1 a' (ake_sigKey a)))"
      then obtain a' t where a': "beside c c1" "c_ake c1 = Some a'" "ake_keeps a a'" "ake_theirPublicValue a' = Some t"
          "ake_theirPublicValue a = Some t" "signed_peer S c1 a' (ake_sigKey a)"
        using s(2) by (cases "ake_theirPublicValue a") auto
      obtain x where x: "ake_secretExponent a = Some x" "ake_ourPublicValue a = Some (modExp S (dh_g1 S) x)"
        using s(1) by (auto simp: has_exponent_def)
      let ?a = "a'\<lparr>ake_keys := setTheirCurrentDHPubKey t (ake_keys a')\<rparr>"
      have "keys_ok S (ake_keys ?a)" using a'(3) s(3) own_pair_ok [OF s(4,1)]
        by (simp add: keys_ok_def setTheirCurrentDHPubKey_def ake_keeps_def)
      moreover have "exchange_signed S c1 t x (km_theirKeyID (ake_keys ?a))"
      proof -
        obtain v where v: "c_version c = Some v" "ake_sigKey a = sig_key S (modExp S t x) v" "isGroupElement S t"
          using s(6,7) a'(5) x(1) by (auto simp: sig_of_def peer_in_group_def)
        have "ake_ourPublicValue a' = Some (modExp S (dh_g1 S) x)" "c_version c1 = Some v"
          using a'(1,3) x v(1) by (simp_all add: ake_keeps_def beside_def others_def)
        with exchange_signedI [OF a'(6,4)] v show ?thesis by (simp add: setTheirCurrentDHPubKey_def)
      qed
      moreover have "ourCurrentDHKeys (ake_keys ?a) = dh_pair S x"
        using a'(3) s(4) x by (simp add: own_pair_def dh_pair_def setTheirCurrentDHPubKey_def ake_keeps_def)
      ultimately show "returns (handled S n c) (do { a \<leftarrow> c_ake c1; t \<leftarrow> ake_theirPublicValue a;
          (e, c2) \<leftarrow> akeHasFinished S (upd_ake (\<lambda>a. a\<lparr>ake_keys := setTheirCurrentDHPubKey t (ake_keys a)\<rparr>) c1);
          Some ((authStateNone, None, e), c2) })"
        using a' handled_sigs [OF assms(1), of "c1\<lparr>c_ake := Some ?a\<rparr>" ?a t x None]
        by (simp add: upd_ake_def beside_def setTheirCurrentDHPubKey_def exchange_signed_def)
    qed
  qed (use keep in \<open>simp_all add: receiveSigMessage_def\<close>)
qed

context dh_suite
begin

text \<open>The responder's side: after the reveal-signature message is accepted, the answer and the end of the exchange.\<close>

lemma sig_and_finish:
  assumes ok: "others_ok S n c" "n \<le> length (c_Rand c)" "c_version c = Some v" "tagged c"
    and c1: "beside c c1" "c_ake c1 = Some a1" "has_exponent S a1" "km_ourKeyID (ake_keys a1) = 0" "ake_theirPublicValue a1 = Some t"
      "isGroupElement S t" "ake_secretExponent a1 = Some x" "ake_sigKey a1 = sig_key S (modExp S t x) v"
      "signed_peer S c1 a1 (reveal_key S (modExp S t x) v)"
  shows "returns (handled S n c) (or_keep s (sigMessage S c1)
      (\<lambda>body c2. or_keep s (wrapMessageHeader msgTypeSig body c2)
        (\<lambda>sigMsg c3. do { c4 \<leftarrow> setDHKeys c3; (e, c5) \<leftarrow> akeHasFinished S (c4\<lparr>c_sentRevealSig := False\<rparr>);
           Some ((authStateNone, Some sigMsg, e), c5) })))"
proof -
  have c1': "others_ok S n c1" "n \<le> length (c_Rand c1)" "c_version c1 = Some v" "tagged c1" "others c1 = others c" "ake_theirPublicValue a1 \<noteq> None"
    using others_ok_same [of c1 c] ok c1(1,5) by (simp_all add: beside_def others_def)
  obtain b c2 a2 where c2: "sigMessage S c1 = Some (Inr b, c2)" "others c2 = others c" "tagged c2" "c_ake c2 = Some a2" "bumped a1 a2"
      "c_theirKey c2 = c_theirKey c1"
    using sigMessage_shape [OF c1'(1,2) c1(2,3) c1'(6,3) c1(8)] c1'(4,5) by (auto simp: returns_iff)
  have v2: "c_version c2 \<noteq> None" using c2(3) by (simp add: tagged_def)
  obtain m where m: "wrapMessageHeader msgTypeSig b c2 = Some (Inr m, c2)"
    using wrapMessageHeader_shape [OF v2, of msgTypeSig b] c2(3) by (auto simp: returns_iff)
  have a2: "has_exponent S a2" "ake_theirPublicValue a2 \<noteq> None" "km_ourKeyID (ake_keys a2) = 1"
    using c2(5) has_exponent_keeps [of a1 a2] c1(3,4,5) by (auto simp: bumped_def)
  obtain a3 where a3: "setDHKeys c2 = Some (c2\<lparr>c_ake := Some a3\<rparr>)" "km_ourKeyID (ake_keys a3) = 1" "own_pair a3" "has_exponent S a3"
      "theirCurrentDHPubKey (ake_keys a3) = Some t" "ake_secretExponent a3 = Some x" "km_theirKeyID (ake_keys a3) = km_theirKeyID (ake_keys a1)"
    using setDHKeys_returns [OF c2(4) a2(1,2)] a2(3) c2(5) c1(5,7) by (auto simp: bumped_def)
  have "keys_ok S (ake_keys a3)" using a3 own_pair_ok [of a3 S] by (simp add: keys_ok_def)
  moreover have "ourCurrentDHKeys (ake_keys a3) = dh_pair S x"
    using a3(3,4,6) by (auto simp: own_pair_def dh_pair_def has_exponent_def)
  moreover have "exchange_signed S (c2\<lparr>c_ake := Some a3, c_sentRevealSig := False\<rparr>) t x (km_theirKeyID (ake_keys a3))"
    using exchange_signedI [OF c1(9,5) _ c1(6) c1'(3), of x] c1(3,7) c1'(3,5) c2(2,6) a3(7)
      exchange_signed_same [of "c2\<lparr>c_ake := Some a3, c_sentRevealSig := False\<rparr>" c1 S]
    by (auto simp: has_exponent_def others_def)
  ultimately show ?thesis
    using c2(1,2) m a3(1,5) handled_sigs [OF ok(1), of "c2\<lparr>c_ake := Some a3, c_sentRevealSig := False\<rparr>" a3 t x "Some m"] by simp
qed

lemma receiveRevealSigMessage_returns:
  assumes "others_ok S n c" "n \<le> length (c_Rand c)" "c_ake c = Some a" "ake_state_ok S (c_version c) a s" "s = authStateNone \<or> tagged c"
  shows "returns (handled S n c) (receiveRevealSigMessage S s msg c)"
proof -
  note H = handled_I [OF assms(1)]
  have keep: "handled S n c (s, m, e) c" for m e using H [OF _ assms(3,4)] assms(5) by simp
  show ?thesis
  proof (cases s)
    case authStateAwaitingRevealSig
    then have s: "has_exponent S a" "km_ourKeyID (ake_keys a) = 0" "tagged c" using assms(4,5) by auto
    then obtain v where v: "c_version c = Some v" by (cases "c_version c") (auto simp: tagged_def)
    then have ne: "c_version c \<noteq> None" by simp
    show ?thesis
      unfolding receiveRevealSigMessage_def using authStateAwaitingRevealSig
      apply simp
      apply (rule returns_or_keep [OF processRevealSig_shape [OF ne assms(3) s(1)]])
      subgoal for e c1
        using s has_exponent_keeps [of a _ S] by (auto simp: beside_def ake_keeps_def intro!: H)
      subgoal premises p for u c1
      proof -
        obtain a1 t x where a1: "beside c c1" "c_ake c1 = Some a1" "ake_keeps a a1" "ake_theirPublicValue a1 = Some t" "isGroupElement S t"
            "ake_secretExponent a1 = Some x" "ake_sigKey a1 = sig_key S (modExp S t x) v"
            "signed_peer S c1 a1 (reveal_key S (modExp S t x) v)"
          using p v by auto
        have "has_exponent S a1" "km_ourKeyID (ake_keys a1) = 0"
          using a1(3) s(1,2) has_exponent_keeps [of a a1 S] by (simp_all add: ake_keeps_def)
        then show ?thesis by (rule sig_and_finish [OF assms(1,2) v s(3) a1(1,2) _ _ a1(4-8)])
      qed
      done
  qed (use keep in \<open>simp_all add: receiveRevealSigMessage_def\<close>)
qed

end

text \<open>What a call that receives a message does to the conversation.\<close>

definition moves :: "suite \<Rightarrow> nat \<Rightarrow> conversation \<Rightarrow> conversation \<Rightarrow> bool" where
  "moves S n c c' \<longleftrightarrow> conv_ok S n c' \<and> c_fragmentSize c' = c_fragmentSize c \<and> c_Policies c' = c_Policies c
     \<and> (c_version c \<noteq> None \<longrightarrow> c_version c' = c_version c)
     \<and> (c_version c' = Some OtrV2 \<longrightarrow> c_version c = Some OtrV2 \<or> has_policy (c_Policies c) allowV2)"

lemma moves_trans: "moves S n a b \<Longrightarrow> moves S n b c \<Longrightarrow> moves S n a c"
  by (auto simp: moves_def)

lemma sent_moves: "sent_ok S n a c \<Longrightarrow> moves S n a c"
  by (simp add: moves_def sent_ok_def same_session_def)

lemma moves_ops [simp]:
  "conv_ok S n c \<Longrightarrow> moves S n c c" "moves S n a c \<Longrightarrow> moves S n a (messageEvent e t c)"
  "moves S n a c \<Longrightarrow> moves S n a (messageEventWithError e err c)" "moves S n a c \<Longrightarrow> moves S n a (messageEventWithMessage e m c)"
  "moves S n a c \<Longrightarrow> moves S n a (generatePotentialErrorMessage ec c)" "moves S n a c \<Longrightarrow> moves S n a (malformedMessage c)"
  "moves S n a c \<Longrightarrow> moves S n a (c\<lparr>c_tick := tk\<rparr>)" "moves S n a c \<Longrightarrow> moves S n a (c\<lparr>c_injections := is\<rparr>)"
  "moves S n a c \<Longrightarrow> moves S n a (c\<lparr>c_fragmentationContext := fc\<rparr>)" "moves S n a c \<Longrightarrow> moves S n a (c\<lparr>c_whitespaceState := ws\<rparr>)"
  "moves S n a c \<Longrightarrow> moves S n a (updateMayRetransmitTo rf c)" "moves S n a c \<Longrightarrow> moves S n a (c\<lparr>c_theirInstanceTag := tt\<rparr>)"
  by (auto simp: moves_def messageEvent_def messageEventWithError_def messageEventWithMessage_def log_event_def
      generatePotentialErrorMessage_def injectMessage_def malformedMessage_def updateMayRetransmitTo_def split: option.split)

lemma returns_if: "(b \<Longrightarrow> returns Q x) \<Longrightarrow> (\<not> b \<Longrightarrow> returns Q y) \<Longrightarrow> returns Q (if b then x else y)"
  by simp

lemma conv_ok_ensureAKE: "conv_ok S n c \<Longrightarrow> conv_ok S n (ensureAKE c)"
  by (auto simp: ensureAKE_def initAKE_def conv_ok_defs nil_ake_def)

lemma conv_ok_stamp: "conv_ok S n c \<Longrightarrow> conv_ok S n (upd_ake (\<lambda>a. a\<lparr>ake_lastStateChange := t\<rparr>) c)"
proof -
  have "ake_state_ok S v (a\<lparr>ake_lastStateChange := t\<rparr>) s = ake_state_ok S v a s" for a s v
    by (cases s) (simp_all add: has_exponent_def peer_in_group_def sig_of_def own_pair_def)
  then show "conv_ok S n c \<Longrightarrow> conv_ok S n (upd_ake (\<lambda>a. a\<lparr>ake_lastStateChange := t\<rparr>) c)"
    by (auto simp: conv_ok_defs upd_ake_def)
qed

text \<open>The state and the Diffie-Hellman keys of a session change only when a signature has been verified.\<close>

definition secured :: "suite \<Rightarrow> conversation \<Rightarrow> conversation \<Rightarrow> bool" where
  "secured S c c' \<longleftrightarrow> c_msgState c' = c_msgState c \<and> same_dh (c_keys c) (c_keys c') \<or> authenticated S c'"

definition exchanged :: "suite \<Rightarrow> nat \<Rightarrow> conversation \<Rightarrow> conversation \<Rightarrow> bool" where
  "exchanged S n c c' \<longleftrightarrow> moves S n c c' \<and> secured S c c'"

lemma secured_same:
  "secured S c c1 \<Longrightarrow> c_msgState c2 = c_msgState c1 \<Longrightarrow> same_dh (c_keys c1) (c_keys c2) \<Longrightarrow> c_version c2 = c_version c1 \<Longrightarrow>
   c_theirKey c2 = c_theirKey c1 \<Longrightarrow> secured S c c2"
  using authenticated_same [of S c1 c2] by (auto simp: secured_def same_dh_def)

lemma handled_exchanged: "handled S n c (s, m, e) c' \<Longrightarrow> c_version c \<noteq> None \<Longrightarrow> exchanged S n c (store_state s c')"
  using authenticated_same [of S c' "store_state s c'"]
  by (auto simp: handled_def exchanged_def moves_def secured_def store_state_def others_def)

lemma retransmit_exchanged:
  assumes "exchanged S n c c1" shows "returns (\<lambda>r. exchanged S n c) (maybeRetransmit S c1)"
proof -
  have "conv_ok S n c1" using assms by (simp add: exchanged_def moves_def)
  then show ?thesis
    by (rule returns_mono [OF maybeRetransmit_sent])
       (use assms in \<open>auto simp: exchanged_def sent_ok_def same_session_def moves_def intro: secured_same\<close>)
qed

context dh_suite
begin

lemma processAKE_returns:
  assumes ok: "conv_ok S n c" and v: "c_version c \<noteq> None" and r: "n \<le> length (c_Rand c)"
  shows "returns (\<lambda>res. exchanged S n c) (processAKE S ty msg c)"
proof -
  let ?c = "ensureAKE c"
  obtain a where a: "c_ake ?c = Some a" using ensureAKE_same [of c] by auto
  have c: "others ?c = others c" "c_Rand ?c = c_Rand c" by (simp_all add: ensureAKE_def initAKE_def)
  have oth: "others_ok S n ?c" using others_ok_same [OF c(1)] conv_ok_others [OF ok v] by simp
  have st: "ake_state_ok S (c_version ?c) a (ake_state a)" "ake_state a = authStateNone \<or> tagged ?c"
    using conv_ok_ensureAKE [OF ok] a by (auto simp: conv_ok_def ake_ok_def)
  have ne: "c_version ?c \<noteq> None" using v others_version [OF c(1)] by simp
  have mv: "exchanged S n c c'" if "exchanged S n ?c c'" for c'
    using that c(1) by (simp add: exchanged_def moves_def secured_def others_def)
  have end': "exchanged S n c (upd_ake (\<lambda>a. a\<lparr>ake_lastStateChange := t\<rparr>) (c'\<lparr>c_tick := k\<rparr>))" if "exchanged S n c c'" for t c' k
    using that conv_ok_stamp [of S n "c'\<lparr>c_tick := k\<rparr>"] secured_same [of S c c' "upd_ake (\<lambda>a. a\<lparr>ake_lastStateChange := t\<rparr>) (c'\<lparr>c_tick := k\<rparr>)"]
    by (simp add: exchanged_def moves_def)
  have h1: "returns (handled S n ?c) (receiveDHCommitMessage S (ake_state a) msg ?c)"
    using receiveDHCommit_None_returns [OF oth, of ?c] receiveDHCommit_AwaitingDHKey_returns [OF oth a]
      receiveDHCommit_AwaitingRevealSig_returns [OF oth a] st
    by (auto simp: receiveDHCommitMessage_def split: authState.split)
  have h2: "returns (handled S n ?c) (receiveDHKeyMessage S (ake_state a) msg ?c)"
    using receiveDHKeyMessage_returns [OF oth _ a st] r c(2) by simp
  have h3: "returns (handled S n ?c) (receiveRevealSigMessage S (ake_state a) msg ?c)"
    using receiveRevealSigMessage_returns [OF oth _ a st] r c(2) by simp
  have one: "returns (\<lambda>r. exchanged S n c) (do { ((s, m, e), c1) \<leftarrow> h; Some ((m, [], e), store_state s c1) })"
    if "returns (handled S n ?c) h" for h
    using that handled_exchanged ne mv by (fastforce simp: returns_iff)
  have two: "returns (\<lambda>r. exchanged S n c) (do { ((s, m, e), c1) \<leftarrow> h; (ex, c2) \<leftarrow> maybeRetransmit S (store_state s c1); 
       Some ((m, (case ex of Inl _ \<Rightarrow> [] | Inr xs \<Rightarrow> xs), e), c2) })"
    if h: "returns (handled S n ?c) h" for h
  proof -
    from h obtain s m e c1 where 1: "h = Some ((s, m, e), c1)" "handled S n ?c (s, m, e) c1" by (auto simp: returns_iff)
    with retransmit_exchanged [OF mv [OF handled_exchanged [OF 1(2) ne]]] show ?thesis by (auto simp: returns_iff)
  qed
  have stay: "exchanged S n c ?c" using mv conv_ok_ensureAKE [OF ok] by (simp add: exchanged_def secured_def)
  show ?thesis
    unfolding processAKE_def Let_def a Option.bind.bind_lunit
    by (rule returns_bind [where Q = "\<lambda>r. exchanged S n c"], intro returns_if one two h1 h2 h3 receiveSigMessage_returns [OF oth a st])
       (auto simp: time_Now_def stay intro!: end')
qed

end

declare not_None_eq [iff]

end
