(* ===== verification/Sample.thy ===== *)
theory Sample
  imports Handshake
begin

text \<open>
  Concrete parties on which the theorems are instantiated: the suite of Go's standard library
  with a signature scheme whose signatures all verify, a signing key, and two conversations
  with fixed random sources, before and after the key exchange.
\<close>

definition sample_suite :: suite where
  "sample_suite = go_suite (\<lambda>p q g x h rnd. (Inr (1, 1), rnd)) (\<lambda>p q g y h r s. r = 1 \<and> s = 1)"

definition sample_pub :: DSAPublicKey where
  "sample_pub = \<lparr>pk_loc = 0, pk_P = Some 7, pk_Q = Some 3, pk_G = Some 2, pk_Y = Some 4\<rparr>"

definition sample_key :: DSAPrivateKey where
  "sample_key = \<lparr>sk_DSAPublicKey = sample_pub, sk_P = Some 7, sk_Q = Some 3, sk_G = Some 2, sk_Y = Some 4, sk_X = Some 2\<rparr>"

text \<open>A random source whose first 320-bit exponent is the given byte.\<close>

definition sample_rand :: "byte \<Rightarrow> bytes" where
  "sample_rand x = replicate 39 0 @ [x] @ replicate 56 0"

definition sample_party :: "byte \<Rightarrow> uint32 \<Rightarrow> conversation" where
  "sample_party x tag = (nil_conversation (sample_rand x) (\<lambda>n. 0) 1)
     \<lparr>c_version := Some OtrV3, c_ourInstanceTag := tag, c_ourCurrentKey := Some sample_key, c_Policies := 6\<rparr>"

definition sample_session :: "byte \<Rightarrow> uint32 \<Rightarrow> byte \<Rightarrow> uint32 \<Rightarrow> conversation" where
  "sample_session x tag y tag' = (sample_party x tag)
     \<lparr>c_theirInstanceTag := tag', c_msgState := encrypted, c_theirKey := Some sample_pub,
      c_keys := first_keys sample_suite (exponent_of (sample_rand x))
        (modExp sample_suite (dh_g1 sample_suite) (exponent_of (sample_rand y))) (sample_rand 3)\<rparr>"

lemma sample_exponent [simp]: "exponent_of (sample_rand x) = uint x"
  by (simp add: exponent_of_def sample_rand_def big_SetBytes_def be_nat_def numeral_eq_Suc)

lemma sample_numbers:
  "big_Bytes 1 = [1]" "big_Bytes 7 = [7]" "big_Bytes 3 = [3]" "big_Bytes 2 = [2]" "big_Bytes 4 = [4]"
  by (simp_all add: big_Bytes_def nat_bytes_pos)

lemma sample_pub_length: "length (DSAPublicKey_serialize sample_pub) = 22"
  by (simp add: DSAPublicKey_serialize_def sample_pub_def AppendMPI_def AppendData_def AppendWord_def sample_numbers)

lemma sample_mpi: "mpi_ok 7" "mpi_ok 3" "mpi_ok 2" "mpi_ok 4"
  by (simp_all add: mpi_ok_def sample_numbers)

lemma sample_key_ok: "key_pair_ok sample_suite 0 sample_key"
proof -
  have "dsa_law sample_suite 0 7 3 2 2 4"
    by (auto simp: sample_numbers dsa_law_def sample_suite_def go_suite_def)
  then show ?thesis
    using sample_pub_length sample_mpi by (simp add: key_pair_ok_def sample_key_def Let_def pub_ok_def sample_pub_def)
qed

lemma sample_steady: "tag \<noteq> 0 \<Longrightarrow> steady OtrV3 sample_key (sample_party x tag)"
  by (simp add: steady_def ready_def sample_party_def nil_conversation_def isOTREnabled_def nil_resend_def has_policy_def
     allowV2_def allowV3_def)

lemma sample_public: "modExp sample_suite (dh_g1 sample_suite) (uint (x :: byte)) = 2 ^ nat (uint x)"
proof -
  have "nat (uint x) \<le> 255" using unat_byte_less [of x] by (simp del: unat_byte_less)
  then have "(2 :: int) ^ nat (uint x) \<le> 2 ^ 255" by (rule power_increasing) simp
  moreover have "(2 :: int) ^ 255 < group5_p" by (simp add: group5_p_def)
  ultimately have "2 ^ nat (uint x) mod group5_p = 2 ^ nat (uint x)" by (intro mod_pos_pos_trivial) auto
  then show ?thesis by (simp add: modExp_def big_Exp_def sample_suite_def go_suite_def group5_g1_def)
qed

lemma sample_group: "isGroupElement sample_suite (2 ^ 200)" "isGroupElement sample_suite (2 ^ 130)"
  by (simp_all add: isGroupElement_def pMinusTwo_def sample_suite_def go_suite_def group5_p_def group5_g1_def gte_def lte_def sub_def)

lemma sample_big: "16 \<le> length (AppendMPI [] (2 ^ 200))"
  by (simp add: AppendMPI_def AppendData_def AppendWord_def big_Bytes_def nat_bytes_pos)

lemma sample_can_run: "can_run sample_suite OtrV3 0 sample_key sample_key (sample_party 200 256) (sample_party 130 257)"
proof -
  have "takes_commit (sample_party 130 257)" "tags_match OtrV3 (sample_party 200 256) (sample_party 130 257)"
    "tags_match OtrV3 (sample_party 130 257) (sample_party 200 256)" 
    by (simp_all add: takes_commit_def tags_match_def sample_party_def nil_conversation_def minValidInstanceTag_def)
  moreover have r: "c_Rand (sample_party x t) = sample_rand x" "length (sample_rand x) = 96" for x t
    by (simp_all add: sample_party_def nil_conversation_def sample_rand_def)
  ultimately show ?thesis
    unfolding can_run_def using sample_key_ok sample_group sample_big sample_steady [of 256 200] sample_steady [of 257 130]
       sample_public [of 200] sample_public [of 130]
    by (simp add: r)
qed

lemma sample_session_fields [simp]:
  "c_ourInstanceTag (sample_session x t y t') = t" "c_theirInstanceTag (sample_session x t y t') = t'"
  "c_Rand (sample_session x t y t') = sample_rand x"
  "c_keys (sample_session x t y t') = first_keys sample_suite (uint x) (modExp sample_suite (dh_g1 sample_suite) (uint y)) (sample_rand 3)"
  by (simp_all add: sample_session_def sample_party_def nil_conversation_def)

lemma sample_channel: "channel sample_suite OtrV3 (sample_session 200 256 130 257) (sample_session 130 257 200 256)"
proof -
  have "quiet OtrV3 (sample_session x t y t')" if "t \<noteq> 0" for x t y t'
    using sample_steady [OF that, of x] by (simp add: quiet_def steady_def ready_def sample_session_def)
  then show ?thesis 
    using first_keys_linked [of "uint (200 :: byte)" "uint (130 :: byte)" sample_suite "sample_rand 3" "sample_rand 3"]
    by (simp add: channel_def tags_match_def minValidInstanceTag_def)
qed

lemma sample_room: "room_to_send (sample_session 200 256 130 257)" "room_to_receive (sample_session 130 257 200 256)"
  "kp_pub (ourPreviousDHKeys (c_keys (sample_session 200 256 130 257)))
     \<noteq> theirCurrentDHPubKey (c_keys (sample_session 200 256 130 257))"
  using sample_public [of 200] sample_public [of 130]
  by (simp_all add: room_to_send_def room_to_receive_def first_keys_def nil_keys_def counterOf_def sample_rand_def)

text \<open>A random source that yields the same exponent three times.\<close>

definition sample_exponents :: "byte \<Rightarrow> bytes" where
  "sample_exponents x = concat (replicate 3 (replicate 39 0 @ [x]))"

lemma sample_exponents_reads:
  "exponent_of (sample_exponents x) = uint x" "exponent_of (drop 40 (sample_exponents x)) = uint x" "length (sample_exponents x) = 120"
  by (simp_all add: exponent_of_def sample_exponents_def big_SetBytes_def be_nat_def numeral_eq_Suc)

end
