(* ===== verification/Session_Receive.thy ===== *)
theory Session_Receive
  imports Session_Invariant Sample
begin

text \<open>
  The receiving side under the invariant of \<open>Session_Invariant\<close>: the messages of the
  authentication protocol, data messages with their TLVs, versions and headers, queries and
  whitespace tags, fragments, and \<^verbatim>\<open>Receive\<close> itself; then the other calls an application makes, and
  what holds after any history of calls.
\<close>

declare not_None_eq [iff del]

section \<open>The authentication protocol\<close>

text \<open>What version 3 relies on: the modulus is a prime and the generator is smaller.\<close>

definition prime_modulus :: "suite \<Rightarrow> bool" where
  "prime_modulus S \<longleftrightarrow> 1 < dh_p S \<and> 0 < dh_g1 S \<and> dh_g1 S < dh_p S \<and> (\<forall>x. 0 < x \<and> x < dh_p S \<longrightarrow> coprime x (dh_p S))"

lemma unit_group: "prime_modulus S \<Longrightarrow> isGroupElement S x \<Longrightarrow> unit_mod S x"
  by (auto simp: prime_modulus_def isGroupElement_def unit_mod_def gte_def lte_def pMinusTwo_def sub_def)

lemma unit_gen: "prime_modulus S \<Longrightarrow> unit_mod S (dh_g1 S)"
  by (auto simp: prime_modulus_def unit_mod_def)

lemma unit_exp: "prime_modulus S \<Longrightarrow> unit_mod S b \<Longrightarrow> unit_mod S (modExp S b e)"
  by (auto simp: unit_mod_def modExp_def big_Exp_def prime_modulus_def coprime_mod_left_iff)

lemma unit_mul: "prime_modulus S \<Longrightarrow> unit_mod S a \<Longrightarrow> unit_mod S b \<Longrightarrow> unit_mod S (mulMod a b (dh_p S))"
  by (auto simp: unit_mod_def mulMod_def mul_def prime_modulus_def coprime_mod_left_iff)

lemma divMod_unit: "prime_modulus S \<Longrightarrow> unit_mod S b \<Longrightarrow> \<exists>q. divMod a b (dh_p S) = Some q"
  using big_ModInverse_iff [of "dh_p S" b] by (auto simp: prime_modulus_def unit_mod_def divMod_def modInverse_def)

lemma generateSMP2_units:
  assumes "prime_modulus S" "unit_mod S (m1_g2a m)" "unit_mod S (m1_g3a m)" "generateSMP2 S v secret m r = (Inr s2, r')"
  shows "unit_mod S (s2_qb s2) \<and> unit_mod S (s2_pb s2)"
  using assms(4)
  by (auto simp: generateSMP2_def generateSMP2Message_def Let_def split_def split: prod.splits sum.splits
      intro!: unit_mul unit_exp unit_gen assms(1-3))

lemma generateSMP3_returns:
  assumes "prime_modulus S" "unit_mod S (m2_qb m)" "unit_mod S (m2_pb m)"
  shows "\<exists>res r'. generateSMP3 S v secret s1 m r = Some (res, r')"
  using divMod_unit [OF assms(1,2)] divMod_unit [OF assms(1,3)]
  by (auto simp: generateSMP3_def generateSMP3Message_def Let_def split: prod.split sum.split) (metis option.sel bind.bind_lunit prod.collapse)

lemma verifySMP2_units: "prime_modulus S \<Longrightarrow> verifySMP2 S OtrV3 s1 m = None \<Longrightarrow> unit_mod S (m2_qb m) \<and> unit_mod S (m2_pb m)"
  by (auto simp: verifySMP2_def Let_def split: if_splits intro: unit_group)

lemma verifySMP1_units: "prime_modulus S \<Longrightarrow> verifySMP1 S OtrV3 m = None \<Longrightarrow> unit_mod S (m1_g2a m) \<and> unit_mod S (m1_g3a m)"
  by (auto simp: verifySMP1_def split: if_splits intro: unit_group)

lemma conv_ok_smp:
  "conv_ok S n c \<Longrightarrow> smp_ok S (c_version c) s \<Longrightarrow> conv_ok S n (c\<lparr>c_smp := s\<rparr>)"
  by (auto simp: conv_ok_defs)

lemma moves_smp: "moves S n a c \<Longrightarrow> smp_ok S (c_version c) s \<Longrightarrow> moves S n a (c\<lparr>c_smp := s\<rparr>)"
  by (simp add: moves_def conv_ok_smp)

lemma moves_rand: "moves S n a c \<Longrightarrow> moves S n a (c\<lparr>c_Rand := r\<rparr>)"
  by (simp add: moves_def)

lemma smpEvent_alt: "\<exists>es. smpEvent e p c = c\<lparr>c_events := es\<rparr>" "\<exists>es. smpEventWithQuestion e p q c = c\<lparr>c_events := es\<rparr>"
  by (auto simp: smpEvent_def smpEventWithQuestion_def log_event_def intro: exI [of _ "c_events c"])

lemma moves_events: "moves S n a c \<Longrightarrow> moves S n a (c\<lparr>c_events := es\<rparr>)"
  by (simp add: moves_def)

text \<open>The state the handler of an SMP message returns is stored in the context it leaves.\<close>

definition smp_handled :: "suite \<Rightarrow> nat \<Rightarrow> conversation \<Rightarrow> smpState \<times> smpMessage option \<times> go_error option \<Rightarrow> conversation \<Rightarrow> bool" where
  "smp_handled S n c r c' \<longleftrightarrow> moves S n c (set_smp_state (fst r) c')"

definition smp_only :: "conversation \<Rightarrow> conversation \<Rightarrow> bool" where
  "smp_only c c' \<longleftrightarrow> core (c'\<lparr>c_smp := c_smp c\<rparr>) = core c \<and> c_fragmentSize c' = c_fragmentSize c \<and> c_Policies c' = c_Policies c"

lemma smp_only_upd [simp]:
  "smp_only c c" "smp_only a c \<Longrightarrow> smp_only a (c\<lparr>c_Rand := r\<rparr>)" "smp_only a c \<Longrightarrow> smp_only a (c\<lparr>c_smp := s\<rparr>)"
  "smp_only a c \<Longrightarrow> smp_only a (smpEvent e p c)" "smp_only a c \<Longrightarrow> smp_only a (smpEventWithQuestion e p q c)"
  "smp_only a c \<Longrightarrow> smp_only a (smp_wipe c)"
  by (auto simp: smp_only_def core_def smpEvent_def smpEventWithQuestion_def log_event_def smp_wipe_def)

lemma smp_fields [simp]:
  "c_smp (smpEvent e p c) = c_smp c" "c_smp (smpEventWithQuestion e p q c) = c_smp c" "c_smp (smp_wipe c) = nil_smp"
  "c_Rand (smpEvent e p c) = c_Rand c"
  by (simp_all add: smpEvent_def smpEventWithQuestion_def log_event_def smp_wipe_def)

lemma smp_handled_I:
  assumes "conv_ok S n c" "smp_only c c'" "smp_ok S (c_version c) ((c_smp c')\<lparr>smp_state := Some st\<rparr>)"
  shows "smp_handled S n c (st, m, e) c'"
proof -
  let ?s = "(c_smp c')\<lparr>smp_state := Some st\<rparr>"
  have "core (c'\<lparr>c_smp := ?s\<rparr>) = core (c\<lparr>c_smp := ?s\<rparr>)" using assms(2) by (simp add: smp_only_def core_def)
  then have "conv_ok S n (c'\<lparr>c_smp := ?s\<rparr>)" using conv_ok_core conv_ok_smp [OF assms(1,3)] by blast
  moreover have "c_version c' = c_version c" using assms(2) by (simp add: smp_only_def core_def)
  ultimately show ?thesis using assms(2) by (simp add: smp_handled_def moves_def set_smp_state_def smp_only_def)
qed

lemma smp_abort_handled:
  assumes "conv_ok S n c" "smp_only c c'"
  shows "returns (smp_handled S n c) (Some (abortStateMachineAndNotifyCheated c'))"
    "returns (smp_handled S n c) (Some (abortStateMachineAndNotifyError c'))"
    "smp_handled S n c sendSMPAbortAndRestartStateMachine c'"
  using smp_handled_I [OF assms(1)] assms(2)
  by (simp_all add: abortStateMachineAndNotifyCheated_def abortStateMachineAndNotifyError_def
      sendSMPAbortAndRestartStateMachine_def abortState_def smp_ok_def)

lemma receiveMessage1_returns:
  assumes "conv_ok S n c" "c_version c = Some OtrV3" "prime_modulus S"
  shows "returns (smp_handled S n c) (receiveMessage1 S st m c)"
proof -
  note abort = smp_abort_handled [OF assms(1) smp_only_upd(1)]
  have "smp_handled S n c (smpStateWaitingForSecret m, None, None)
      (if m1_hasQuestion m
       then smpEventWithQuestion SMPEventAskForAnswer 25 (m1_question m) (c\<lparr>c_smp := (c_smp c)\<lparr>smp_question := Some (m1_question m)\<rparr>\<rparr>)
       else smpEvent SMPEventAskForSecret 25 c)" if "verifySMP1 S OtrV3 m = None"
    using verifySMP1_units [OF assms(3) that] by (intro smp_handled_I [OF assms(1)]) (auto simp: smp_ok_def)
  then show ?thesis using assms(2) abort
    by (auto simp: receiveMessage1_def split: smpState.split option.split)
qed

lemma receiveMessage2_returns:
  assumes "conv_ok S n c" "c_version c = Some OtrV3" "prime_modulus S" "smp_state (c_smp c) = Some st"
  shows "returns (smp_handled S n c) (receiveMessage2 S st m c)"
proof (cases "st = smpStateExpect2")
  case True
  then have s: "smp_s1 (c_smp c) \<noteq> None" "smp_secret (c_smp c) \<noteq> None"
    using assms by (auto simp: conv_ok_def smp_ok_def)
  then obtain s1 x where x: "smp_s1 (c_smp c) = Some s1" "smp_secret (c_smp c) = Some x"
    by (cases "smp_s1 (c_smp c)"; cases "smp_secret (c_smp c)") auto
  show ?thesis
  proof (cases "verifySMP2 S OtrV3 s1 m")
    case None
    then obtain res r where g: "generateSMP3 S OtrV3 x s1 m (c_Rand c) = Some (res, r)"
      using generateSMP3_returns [OF assms(3)] verifySMP2_units [OF assms(3) None] by blast
    note abort = smp_abort_handled(1) [OF assms(1), of "c\<lparr>c_Rand := r\<rparr>"]
    show ?thesis using True None assms(2) x g abort
      by (cases res) (auto simp: receiveMessage2_def smp_ok_def intro!: smp_handled_I [OF assms(1)])
  next
    case (Some e)
    then show ?thesis using True x assms smp_abort_handled(1) [OF assms(1) smp_only_upd(1)]
      by (simp add: receiveMessage2_def)
  qed
next
  case False
  then show ?thesis using smp_abort_handled(2) [OF assms(1) smp_only_upd(1)]
    by (cases st) (simp_all add: receiveMessage2_def)
qed

lemma receiveMessage3_returns:
  assumes "conv_ok S n c" "c_version c = Some OtrV3" "prime_modulus S" "smp_state (c_smp c) = Some st"
  shows "returns (smp_handled S n c) (receiveMessage3 S st m c)"
proof (cases "st = smpStateExpect3")
  case True
  then obtain s2 where s2: "smp_s2 (c_smp c) = Some s2" "unit_mod S (s2_qb s2)" "unit_mod S (s2_pb s2)"
    using assms by (auto simp: conv_ok_def smp_ok_def)
  obtain qaqb papb where d: "divMod (m3_qa m) (s2_qb s2) (dh_p S) = Some qaqb" "divMod (m3_pa m) (s2_pb s2) (dh_p S) = Some papb"
    using divMod_unit [OF assms(3)] s2 by blast
  have "\<exists>e. verifySMP3 S OtrV3 s2 m = Some e" "\<exists>e. verifySMP3ProtocolSuccess S s2 m = Some e"
    using d by (simp_all add: verifySMP3_def verifySMP3ProtocolSuccess_def Let_def)
  then obtain e e' where v: "verifySMP3 S OtrV3 s2 m = Some e" "verifySMP3ProtocolSuccess S s2 m = Some e'" by blast
  let ?x = "case smp_secret (c_smp c) of None \<Rightarrow> 0 | Some x \<Rightarrow> x"
  have "\<exists>res r. generateSMP4 S OtrV3 ?x s2 m (c_Rand c) = Some (res, r)"
    using d by (simp add: generateSMP4_def generateSMP4Message_def Let_def split: prod.splits sum.splits)
  then obtain res r where g: "generateSMP4 S OtrV3 ?x s2 m (c_Rand c) = Some (res, r)" by blast
  note abort = smp_abort_handled [OF assms(1)]
  show ?thesis using True assms(2) s2(1) v g abort(1) [of "(smpEvent SMPEventSuccess 100 c)\<lparr>c_Rand := r\<rparr>"] abort(1) [OF smp_only_upd(1)] abort(3)
    by (auto simp: receiveMessage3_def Let_def smp_ok_def nil_smp_def split: option.split sum.split intro!: smp_handled_I [OF assms(1)])
next
  case False
  then show ?thesis using smp_abort_handled(2) [OF assms(1) smp_only_upd(1)]
    by (cases st) (simp_all add: receiveMessage3_def)
qed

lemma receiveMessage4_returns:
  assumes "conv_ok S n c" "c_version c \<noteq> None" "smp_state (c_smp c) = Some st"
  shows "returns (smp_handled S n c) (receiveMessage4 S st m c)"
proof (cases "st = smpStateExpect4")
  case True
  then have "smp_s3 (c_smp c) \<noteq> None" "smp_s1 (c_smp c) \<noteq> None"
    using assms by (auto simp: conv_ok_def smp_ok_def)
  then obtain s1 s3 v where s: "smp_s1 (c_smp c) = Some s1" "smp_s3 (c_smp c) = Some s3" "c_version c = Some v"
    using assms(2) by (cases "smp_s1 (c_smp c)"; cases "smp_s3 (c_smp c)"; cases "c_version c") auto
  note abort = smp_abort_handled [OF assms(1)]
  show ?thesis using True s abort(1) [OF smp_only_upd(1)] abort(3)
    by (auto simp: receiveMessage4_def smp_ok_def nil_smp_def split: option.split intro!: smp_handled_I [OF assms(1)])
next
  case False
  then show ?thesis using smp_abort_handled(2) [OF assms(1) smp_only_upd(1)]
    by (cases st) (simp_all add: receiveMessage4_def)
qed

lemma receivedMessage_returns:
  assumes "conv_ok S n c" "c_version c = Some OtrV3" "prime_modulus S" "smp_state (c_smp c) \<noteq> None"
  shows "returns (\<lambda>r. moves S n c) (receivedMessage S m c)"
proof -
  obtain st where st: "smp_state (c_smp c) = Some st" using assms(4) by (cases "smp_state (c_smp c)") auto
  have go: "returns (\<lambda>r. moves S n c) (do { ((st', ret, err), c') \<leftarrow> h; Some ((ret, err), set_smp_state st' c') })"
    if "returns (smp_handled S n c) h" for h
    using that by (auto simp: returns_iff smp_handled_def)
  have "c_version c \<noteq> None" using assms(2) by simp
  note h = receiveMessage1_returns [OF assms(1-3)] receiveMessage2_returns [OF assms(1-3) st]
    receiveMessage3_returns [OF assms(1-3) st] receiveMessage4_returns [OF assms(1) this st]
  have "conv_ok S n (set_smp_state smpStateExpect1 c)"
    using conv_ok_smp [OF assms(1)] by (simp add: set_smp_state_def smp_ok_def)
  then have "moves S n c (smpEvent e p (set_smp_state smpStateExpect1 c))" for e p
    by (simp add: moves_def smpEvent_def log_event_def set_smp_state_def)
  then show ?thesis using go [OF h(1)] go [OF h(2)] go [OF h(3)] go [OF h(4)] st
    by (cases m) (auto simp: receivedMessage_def)
qed

lemma ensureSMP_ok: "conv_ok S n c \<Longrightarrow> moves S n c (ensureSMP c) \<and> smp_state (c_smp (ensureSMP c)) \<noteq> None"
  using conv_ok_smp [of S n c "(c_smp c)\<lparr>smp_state := Some smpStateExpect1\<rparr>"]
  by (auto simp: ensureSMP_def moves_def smp_ok_def)

lemma moves_finished:
  "conv_ok S n c \<Longrightarrow> moves S n c (smp_wipe (c\<lparr>c_lastMessageStateChange := t, c_msgState := finished\<rparr>)\<lparr>c_ake := None, c_keys := nil_keys\<rparr>)"
  by (simp add: smp_wipe_def moves_def conv_ok_defs smp_ok_def nil_smp_def)

lemma securityEvent_moves [simp]: "moves S n a c \<Longrightarrow> moves S n a (signalSecurityEventIf b e c)"
  "moves S n a c \<Longrightarrow> moves S n a (receivedSymKey u d k c)"
  by (auto simp: moves_def signalSecurityEventIf_def securityEvent_def log_event_def receivedSymKey_def)

lemma process_tlv_returns:
  assumes "conv_ok S n c" "c_version c = Some OtrV3" "prime_modulus S" "tlv_ok t"
  shows "returns (\<lambda>r. moves S n c) (process_tlv S t x c)"
proof -
  let ?c = "ensureSMP c"
  have c: "moves S n c ?c" "smp_state (c_smp ?c) \<noteq> None" using ensureSMP_ok [OF assms(1)] by blast+
  have c': "conv_ok S n ?c" "c_version ?c = Some OtrV3" using c(1) assms(2) by (simp_all add: moves_def)
  have "returns (\<lambda>r. moves S n c) (receivedMessage S m ?c)" for m
    by (rule returns_mono [OF receivedMessage_returns [OF c' assms(3) c(2)]]) (rule moves_trans [OF c(1)])
  then have "returns (\<lambda>r. moves S n c) (receiveSMP S m ?c)" for m
    unfolding receiveSMP_def by (rule returns_bind) (auto split: option.split)
  then have "returns (\<lambda>r. moves S n c) (processSMPTLV S t x c)"
    using c(1) by (auto simp: processSMPTLV_def Let_def split: option.split)
  moreover have "returns (\<lambda>r. moves S n c) (processDisconnectedTLV t x c)"
    using moves_finished [OF assms(1)] by (simp add: processDisconnectedTLV_def)
  moreover have "returns (\<lambda>r. moves S n c) (processExtraSymmetricKeyTLV t x c)"
    using assms(1,4) by (auto simp: processExtraSymmetricKeyTLV_def tlv_ok_def slice_def split: option.split)
  ultimately show ?thesis using assms(1) by (simp add: process_tlv_def processPaddingTLV_def)
qed

lemma processTLVs_returns:
  assumes "prime_modulus S" "list_all tlv_ok ts"
  shows "conv_ok S n c \<Longrightarrow> c_version c = Some OtrV3 \<Longrightarrow> returns (\<lambda>r. moves S n c) (processTLVs S ts x c)"
  using assms(2)
proof (induction ts arbitrary: c)
  case (Cons t ts)
  have rest: "returns (\<lambda>r. moves S n c) (andThen (processTLVs S ts x c1) (\<lambda>rest c2. Some (Inr (g rest), c2)))"
    if "moves S n c c1" for c1 and g :: "tlv list \<Rightarrow> tlv list"
  proof -
    have "returns (\<lambda>r. moves S n c1) (processTLVs S ts x c1)"
      by (rule Cons.IH) (use that Cons.prems in \<open>auto simp: moves_def\<close>)
    then show ?thesis by (rule returns_andThen) (auto intro: moves_trans [OF that])
  qed
  have "returns (\<lambda>r. moves S n c) (process_tlv S t x c)"
    using process_tlv_returns Cons.prems assms(1) by simp
  then have "returns (\<lambda>r. moves S n c) (andThen (process_tlv S t x c)
        (\<lambda>toSend c1. andThen (processTLVs S ts x c1)
          (\<lambda>rest c2. Some (Inr ((case toSend of None \<Rightarrow> [] | Some a \<Rightarrow> [a]) @ rest), c2))))"
    by (rule returns_andThen) (auto intro: rest)
  then show ?case using Cons by simp
qed simp

lemma plain_decrypt_tlvs: "plain_decrypt S k h e = Inr p \<Longrightarrow> list_all tlv_ok (pm_tlvs p)"
  by (auto simp: plain_decrypt_def plain_deserialize_def Let_def dest: plain_tlvs_ok split: sum.splits prod.splits if_splits)

section \<open>Data messages\<close>

lemma genDataMsg_moves:
  "conv_ok S n c \<Longrightarrow> returns (\<lambda>r c'. moves S n c c' \<and> ((\<exists>x. r = Inr x) \<longrightarrow> tagged c')) (genDataMsgWithFlag S m fl ts c)"
  by (rule returns_mono [OF genDataMsg_sent]) (auto intro: sent_moves)

lemma wrap_dataMsg_moves:
  assumes "moves S n c c1" "tagged c1" shows "returns (\<lambda>r c'. moves S n c c') (wrap_dataMsg dm c1)"
proof -
  have "conv_ok S n c1" using assms(1) by (simp add: moves_def)
  then show ?thesis
    by (rule returns_mono [OF wrap_dataMsg_sent [OF _ assms(2)]]) (auto intro: moves_trans [OF assms(1)] sent_moves)
qed

lemma gen_wrap_moves:
  assumes "conv_ok S n c"
  shows "returns (\<lambda>r. moves S n c) (andThen (genDataMsgWithFlag S m fl ts c) (\<lambda>(dm, x) c'. wrap_dataMsg dm c'))"
proof (rule returns_andThen [OF genDataMsg_moves [OF assms]])
  fix x c1 assume "moves S n c c1 \<and> ((\<exists>y. Inr x = (Inr y :: go_error + dataMsg \<times> bytes)) \<longrightarrow> tagged c1)"
  then have "returns (\<lambda>r. moves S n c) (wrap_dataMsg dm c1)" for dm
    using wrap_dataMsg_moves [of S n c c1] by auto
  then show "returns (\<lambda>r. moves S n c) ((case x of (dm, x) \<Rightarrow> \<lambda>c'. wrap_dataMsg dm c') c1)" by (cases x) simp
qed simp

lemma potentialHeartbeat_returns:
  assumes "conv_ok S n c"
  shows "returns (\<lambda>r. moves S n c) (potentialHeartbeat S plain c)"
proof (cases "plain = None \<or> \<not> c_lastSent c < c_clock c (c_tick c) - heartbeatInterval")
  case True
  then show ?thesis using assms by (auto simp: potentialHeartbeat_def time_Now_def)
next
  case False
  let ?c = "c\<lparr>c_tick := c_tick c + 1\<rparr>"
  have c: "moves S n c ?c" "conv_ok S n ?c" using assms by simp_all
  have "returns (\<lambda>r. moves S n c) (andThen (genDataMsgWithFlag S [] messageFlagIgnoreUnreadable [] ?c) (\<lambda>(dm, x) c1. andThen (wrap_dataMsg dm c1)
      (\<lambda>toSend c2. Some (Inr (Some toSend), messageEvent MessageEventLogHeartbeatSent [] (updateLastSent c2)))))"
  proof (rule returns_andThen [OF genDataMsg_moves [OF c(2)]])
    fix x c1 assume "moves S n ?c c1 \<and> ((\<exists>y. Inr x = (Inr y :: go_error + dataMsg \<times> bytes)) \<longrightarrow> tagged c1)"
    then have c1: "moves S n c c1" "tagged c1" using moves_trans [OF c(1)] by auto
    have "returns (\<lambda>r. moves S n c) (andThen (wrap_dataMsg dm c1)
      (\<lambda>toSend c2. Some (Inr (Some toSend), messageEvent MessageEventLogHeartbeatSent [] (updateLastSent c2))))" for dm
      by (rule returns_andThen [OF wrap_dataMsg_moves [OF c1]]) (auto simp: updateLastSent_def time_Now_def moves_def messageEvent_def log_event_def)
    then show "returns (\<lambda>r. moves S n c) ((case x of (dm, x) \<Rightarrow> \<lambda>c1. andThen (wrap_dataMsg dm c1)
      (\<lambda>toSend c2. Some (Inr (Some toSend), messageEvent MessageEventLogHeartbeatSent [] (updateLastSent c2)))) c1)"
      by (cases x) simp
  qed (use c moves_trans [OF c(1)] in auto)
  then show ?thesis using False by (simp add: potentialHeartbeat_def time_Now_def)
qed

lemma maybeHeartbeat_returns:
  assumes "conv_ok S n c"
  shows "returns (\<lambda>r. moves S n c) (maybeHeartbeat S res c)"
proof -
  obtain plain toSend err where "res = (plain, toSend, err)" by (metis prod_cases3)
  moreover have "returns (\<lambda>r. moves S n c) (do { (r, c') \<leftarrow> potentialHeartbeat S plain c;
       case r of Inl e \<Rightarrow> Some ((plain, compactMessagesWithHeader [toSend, None], Some e), c')
       | Inr tsExtra \<Rightarrow> Some ((plain, compactMessagesWithHeader [toSend, tsExtra], None), c') })"
    by (rule returns_bind [OF potentialHeartbeat_returns [OF assms]]) (auto split: sum.split)
  ultimately show ?thesis using assms by (auto simp: maybeHeartbeat_def split: option.split)
qed

lemma checkMessageCounter_keys: "checkMessageCounter dm k = (e, k') \<Longrightarrow> keys_ok S k' = keys_ok S k"
  by (auto simp: checkMessageCounter_def Let_def split: if_splits prod.splits)

text \<open>The end of the handling of a data message: its TLVs and the answer to them.\<close>

lemma reply_returns:
  assumes p: "prime_modulus S" "list_all tlv_ok ts" and c3: "moves S n c c3" "c_version c3 = Some OtrV3"
  shows "returns (\<lambda>r. moves S n c) (do { (tr, c4) \<leftarrow> processTLVs S ts x c3;
            case tr of Inl err \<Rightarrow> Some ((plain, None, Some err), c4)
            | Inr tlvs \<Rightarrow> if tlvs = [] then Some ((plain, None, None), c4)
               else do { (rep, c5) \<leftarrow> andThen (genDataMsgWithFlag S [] (decideFlagFrom tlvs) tlvs c4) (\<lambda>(reply, _) c'. wrap_dataMsg reply c');
                         case rep of Inl err \<Rightarrow> Some ((plain, None, Some err), c5) | Inr toSend \<Rightarrow> Some ((plain, Some toSend, None), c5) } })"
proof (rule returns_bind)
  have "conv_ok S n c3" using c3(1) by (simp add: moves_def)
  then show "returns (\<lambda>r. moves S n c) (processTLVs S ts x c3)"
    by (rule returns_mono [OF processTLVs_returns [OF p _ c3(2)]]) (rule moves_trans [OF c3(1)])
next
  fix tr c4 assume c4: "moves S n c c4"
  then have "conv_ok S n c4" by (simp add: moves_def)
  note gen = returns_mono [OF gen_wrap_moves [OF this], where Q' = "\<lambda>r. moves S n c"]
  have "returns (\<lambda>r. moves S n c) (do { (rep, c5) \<leftarrow> andThen (genDataMsgWithFlag S [] fl tlvs c4) (\<lambda>(reply, _) c'. wrap_dataMsg reply c');
         case rep of Inl err \<Rightarrow> Some ((plain, None, Some err), c5) | Inr toSend \<Rightarrow> Some ((plain, Some toSend, None), c5) })" for fl tlvs
    by (rule returns_bind [OF gen]) (auto intro: moves_trans [OF c4] split: sum.split)
  then show "returns (\<lambda>r. moves S n c) (case (tr, c4) of (tr, c4) \<Rightarrow> case tr of Inl err \<Rightarrow> Some ((plain, None, Some err), c4)
    | Inr tlvs \<Rightarrow> if tlvs = [] then Some ((plain, None, None), c4)
       else do { (rep, c5) \<leftarrow> andThen (genDataMsgWithFlag S [] (decideFlagFrom tlvs) tlvs c4) (\<lambda>(reply, _) c'. wrap_dataMsg reply c');
                 case rep of Inl err \<Rightarrow> Some ((plain, None, Some err), c5) | Inr toSend \<Rightarrow> Some ((plain, Some toSend, None), c5) })"
    using c4 by (cases tr) auto
qed

lemma processDataMessageWithRawErrors_returns:
  assumes "conv_ok S n c"
    and enc: "c_msgState c = encrypted \<Longrightarrow>
      c_version c = Some OtrV3 \<and> prime_modulus S \<and> dataMsg_deserialize msg OtrV3 \<noteq> None"
  shows "returns (\<lambda>r. moves S n c) (processDataMessageWithRawErrors S header msg c)"
proof (cases "c_msgState c = encrypted")
  case False
  then show ?thesis using assms(1) by (simp add: processDataMessageWithRawErrors_def)
next
  case True
  then have v: "c_version c = Some OtrV3" and p: "prime_modulus S" and k: "keys_ok S (c_keys c)"
    using enc assms(1) by (auto simp: conv_ok_def session_ok_def)
  have keys: "moves S n c (c\<lparr>c_keys := k'\<rparr>)" if "keys_ok S k'" for k'
    using conv_ok_keys [OF assms(1) that] by (simp add: moves_def)
  show ?thesis
  proof (cases "dataMsg_deserialize msg OtrV3")
    case None
    then show ?thesis using enc [OF True] by simp
  next
    case (Some d)
    show ?thesis
    proof (cases d)
      case (Inl e)
      then show ?thesis using True v Some assms(1) by (simp add: processDataMessageWithRawErrors_def)
    next
      case (Inr dm)
      obtain e k1 where ctr: "checkMessageCounter dm (c_keys c) = (e, k1)" by fastforce
      have k1: "keys_ok S k1" using checkMessageCounter_keys [OF ctr] k by blast
      obtain res k2 where calc: "keys_calculateDHSessionKeys S (dm_recipientKeyID dm) (dm_senderKeyID dm) OtrV3 k1 = Some (res, k2)"
        and k2: "keys_ok S k2"
        using keys_calculateDHSessionKeys_ok [OF k1] by blast
      show ?thesis
      proof (cases "e = None \<and> (\<exists>keys. res = Inr keys \<and> checkSign S dm (receivingMACKey keys) header OtrV3 = None)")
        case False
        then show ?thesis using True v Some Inr ctr calc keys [OF k1] keys [OF k2]
          by (cases e; cases res) (auto simp: processDataMessageWithRawErrors_def split: option.split)
      next
        case True': True
        then obtain keys' where r: "e = None" "res = Inr keys'" "checkSign S dm (receivingMACKey keys') header OtrV3 = None" by blast
        define p' where "p' = (case plain_decrypt S (receivingAESKey keys') (dm_topHalfCtr dm) (dm_encryptedMsg dm) of
             Inl _ \<Rightarrow> \<lparr>pm_message = [], pm_tlvs = []\<rparr> | Inr p \<Rightarrow> p)"
        define plain where "plain = (if pm_message p' = [] then None else Some (pm_message p'))"
        define c2 where "c2 = (if plain = None then messageEvent MessageEventLogHeartbeatReceived [] (c\<lparr>c_keys := k2\<rparr>) else c\<lparr>c_keys := k2\<rparr>)"
        have c2: "moves S n c c2" using keys [OF k2] by (simp add: c2_def)
        have "c_keys c2 = k2" by (simp add: c2_def messageEvent_def log_event_def)
        note c2 = c2 this
        obtain e3 r3 k3 where rot: "rotateKeys S dm (c_Rand c2) (c_keys c2) = Some (e3, r3, k3)" "keys_ok S k3"
          using rotateKeys_ok [of S "c_keys c2" dm "c_Rand c2"] c2(2) k2 by auto
        let ?c3 = "c2\<lparr>c_keys := k3, c_Rand := r3\<rparr>"
        have c3: "moves S n c ?c3" "c_version ?c3 = Some OtrV3"
          using c2(1) conv_ok_keys [OF _ rot(2), of n c2] v by (simp_all add: moves_def)
        have "list_all tlv_ok (pm_tlvs p')" using plain_decrypt_tlvs by (auto simp: p'_def split: sum.split)
        note rep = reply_returns [OF p this c3, of "extraKey keys'"]
        show ?thesis
          using True v Some Inr ctr calc r rot(1) c3(1)
          by (cases e3) (simp_all add: processDataMessageWithRawErrors_def Let_def rep flip: p'_def plain_def c2_def)
      qed
    qed
  qed
qed

lemma receiveDataMessage_returns:
  assumes "conv_ok S n c"
    and "c_msgState c = encrypted \<Longrightarrow> c_version c = Some OtrV3 \<and> prime_modulus S \<and> dataMsg_deserialize body OtrV3 \<noteq> None"
  shows "returns (\<lambda>r. moves S n c) (receiveDataMessage S header body c)"
proof -
  have p: "returns (\<lambda>r. moves S n c) (processDataMessage S header body c)"
    unfolding processDataMessage_def Let_def
    by (rule returns_bind [OF processDataMessageWithRawErrors_returns [OF assms]]) auto
  have h: "returns (\<lambda>r. moves S n c) (maybeHeartbeat S res c1)" if "moves S n c c1" for res c1
    by (rule returns_mono [OF maybeHeartbeat_returns]) (use that in \<open>auto simp: moves_def\<close>)
  have nt: "moves S n c (notifyDataMessageError e c2)" if "moves S n c c2" for e c2
    using that by (simp add: notifyDataMessageError_def)
  show ?thesis
    unfolding receiveDataMessage_def
  proof (rule returns_bind [OF p])
    fix r c1 assume "moves S n c c1"
    then obtain plain toSend err c2 where "maybeHeartbeat S r c1 = Some ((plain, toSend, err), c2)" "moves S n c c2"
      using h [of c1 r] by (auto simp: returns_iff)
    then show "returns (\<lambda>r. moves S n c) (case (r, c1) of (res, c1) \<Rightarrow> do { ((plain, toSend, err), c2) \<leftarrow> maybeHeartbeat S res c1;
          Some ((plain, toSend, err), (case err of None \<Rightarrow> c2 | Some e \<Rightarrow> notifyDataMessageError e c2)) })"
      using nt by (simp split: option.split)
  qed
qed

text \<open>Outside an encrypted session a data message changes nothing but the events.\<close>

lemma receiveDataMessage_plain:
  assumes "conv_ok S n c" "c_msgState c \<noteq> encrypted"
  shows "returns (\<lambda>r. exchanged S n c) (receiveDataMessage S header body c)"
proof -
  have "exchanged S n c (messageEvent e t c)" for e t using assms(1) by (simp add: exchanged_def secured_def)
  then show ?thesis
    using assms by (auto simp: receiveDataMessage_def processDataMessage_def processDataMessageWithRawErrors_def Let_def
        maybeHeartbeat_def potentialHeartbeat_def notifyDataMessageError_def)
qed

section \<open>Versions and headers\<close>

lemma first_key_found: "ks \<noteq> [] \<Longrightarrow> \<exists>k \<in> set ks. first_key (protocolVersion v) ks = Some k"
  by (cases ks; cases v) (auto simp: IsAvailableForVersion_def)

lemma smp_ok_commit: "smp_ok S None s \<Longrightarrow> smp_ok S (Some v) s"
  by (auto simp: smp_ok_def split: option.splits smpState.splits)

lemma setKey_moves:
  assumes "conv_ok S n c" "c_version c = None" "setKeyMatchingVersion v (c\<lparr>c_version := Some v\<rparr>) = (e, c')"
    "v = OtrV2 \<longrightarrow> has_policy (c_Policies c) allowV2"
  shows "moves S n c c' \<and> e = None"
proof -
  obtain k where "k \<in> set (c_ourKeys c)" "first_key (protocolVersion v) (c_ourKeys c) = Some k"
    using first_key_found [of "c_ourKeys c" v] assms(1) by (auto simp: conv_ok_def signer_ok_def)
  then show ?thesis
    using assms smp_ok_commit [of S "c_smp c" v]
    by (auto simp: setKeyMatchingVersion_def moves_def conv_ok_defs list_all_iff)
qed

text \<open>What receiving has not touched when it begins to handle the contents of a message.\<close>

definition opened :: "suite \<Rightarrow> nat \<Rightarrow> conversation \<Rightarrow> conversation \<Rightarrow> bool" where
  "opened S n c c' \<longleftrightarrow> moves S n c c' \<and> c_msgState c' = c_msgState c \<and> c_Rand c' = c_Rand c \<and> c_keys c' = c_keys c"

lemma opened_ops [simp]:
  "conv_ok S n c \<Longrightarrow> opened S n c c" "opened S n a c \<Longrightarrow> opened S n a (messageEvent e t c)"
  "opened S n a c \<Longrightarrow> opened S n a (malformedMessage c)" "opened S n a c \<Longrightarrow> opened S n a (c\<lparr>c_theirInstanceTag := tt\<rparr>)"
  "opened S n a c \<Longrightarrow> opened S n a (c\<lparr>c_fragmentationContext := fc\<rparr>)" "opened S n a c \<Longrightarrow> opened S n a (c\<lparr>c_tick := tk\<rparr>)"
  by (simp_all add: opened_def) (auto simp: messageEvent_def log_event_def malformedMessage_def generatePotentialErrorMessage_def
      injectMessage_def split: option.split)

lemma opened_exchanged: "opened S n a b \<Longrightarrow> exchanged S n a b" "opened S n a b \<Longrightarrow> exchanged S n b c \<Longrightarrow> exchanged S n a c"
  using moves_trans by (auto simp: opened_def exchanged_def secured_def)

lemma opened_trans: "opened S n a b \<Longrightarrow> opened S n b c \<Longrightarrow> opened S n a c"
  using moves_trans by (auto simp: opened_def)

lemma commitToVersionFrom_opened:
  assumes "conv_ok S n c" "commitToVersionFrom vs c = (e, c')"
  shows "opened S n c c' \<and> (e = None \<longrightarrow> c_version c' \<noteq> None)"
proof -
  have *: "opened S n c c1 \<and> c_version c1 \<noteq> None" if "c_version c = None" "setKeyMatchingVersion v (c\<lparr>c_version := Some v\<rparr>) = (e1, c1)"
      "v = OtrV2 \<longrightarrow> has_policy (c_Policies c) allowV2" for v e1 c1
    using setKey_moves [OF assms(1) that] that(2) by (auto simp: opened_def setKeyMatchingVersion_def split: option.splits)
  show ?thesis using assms * by (auto simp: commitToVersionFrom_def split: if_splits)
qed

lemma checkVersion_opened:
  assumes "conv_ok S n c" "checkVersion m c = (e, c')"
  shows "opened S n c c' \<and> (e = None \<longrightarrow> c_version c' \<noteq> None)"
  using assms commitToVersionFrom_opened [OF assms(1)]
  by (fastforce simp: checkVersion_def split: option.splits prod.splits if_splits)

lemma verifyInstanceTags_opened:
  assumes "conv_ok S n c" "verifyInstanceTags t u c = (e, c')"
  shows "opened S n c c'"
proof -
  define c1 where "c1 = (if c_theirInstanceTag c = 0 then c\<lparr>c_theirInstanceTag := t\<rparr> else c)"
  have "opened S n c c1" using assms(1) by (simp add: c1_def)
  then show ?thesis using assms(2) by (auto simp: verifyInstanceTags_def Let_def simp flip: c1_def split: if_splits)
qed

lemma parseMessageHeader_opened:
  assumes "conv_ok S n c" "c_version c \<noteq> None"
  shows "returns (\<lambda>r c'. opened S n c c' \<and> (c_version c = Some OtrV3 \<longrightarrow>
      (\<forall>h b. r = Inr (h, b) \<longrightarrow> h = take 11 m \<and> b = drop 11 m \<and> 11 \<le> length m))) (parseMessageHeader m c)"
proof -
  obtain v where "c_version c = Some v" using assms(2) by (cases "c_version c") auto
  then show ?thesis using assms(1)
    by (cases v) (auto simp: parseMessageHeader_def Let_def split: prod.split option.split dest: verifyInstanceTags_opened)
qed

section \<open>Starting a key exchange\<close>

text \<open>The public value the next commit message hides fills a cipher block: \<^verbatim>\<open>encrypt\<close> slices its first
  16 bytes without looking.\<close>

definition commit_fills_block :: "suite \<Rightarrow> bytes \<Rightarrow> bool" where
  "commit_fills_block S rnd \<longleftrightarrow>
     (case randMPI 40 rnd of (Inr x, _) \<Rightarrow> 16 \<le> length (AppendMPI [] (modExp S (dh_g1 S) x)) | _ \<Rightarrow> True)"

lemma dhCommitMessage_shape:
  assumes "c_version c \<noteq> None" "commit_fills_block S (c_Rand c)"
  shows "returns (\<lambda>r c'. others c' = others c \<and> (\<exists>a. c_ake c' = Some a \<and> ake_state a = authStateNone
      \<and> (case r of Inl _ \<Rightarrow> True | Inr b \<Rightarrow> has_exponent S a \<and> km_ourKeyID (ake_keys a) = 0 \<and> peer_in_group S a))) (dhCommitMessage S c)"
proof -
  obtain v where v: "c_version c = Some v" using assms(1) by (cases "c_version c") auto
  obtain e x r r16 r' where rand: "randMPI 40 (c_Rand c) = (x, r)" "randomInto 16 r = (r16, r')" by fastforce
  show ?thesis
  proof (cases x)
    case (Inl e)
    then show ?thesis using rand by (simp add: dhCommitMessage_def initAKE_def upd_ake_def nil_ake_def)
  next
    case (Inr x')
    then have x: "0 \<le> x'" "16 \<le> length (AppendMPI [] (modExp S (dh_g1 S) x'))"
      using rand assms(2) randMPI_nonneg [of 40 "c_Rand c"] by (auto simp: commit_fills_block_def)
    have "\<exists>enc. encrypt_ignoring_error S k (AppendMPI [] (modExp S (dh_g1 S) x')) = Some enc" for k
      using x(2) by (auto simp: encrypt_ignoring_error_def encrypt_def split: sum.split)
    then obtain enc where "encrypt_ignoring_error S k (AppendMPI [] (modExp S (dh_g1 S) x')) = Some (enc k)" for k
      by metis
    then show ?thesis using rand Inr v x(1)
      by (cases r16) (auto simp: dhCommitMessage_def initAKE_def upd_ake_def nil_ake_def setSecretExponent_def Let_def
          serializeDHCommit_def has_exponent_def peer_in_group_def)
  qed
qed

lemma sendDHCommit_returns:
  assumes "conv_ok S n c" "c_version c \<noteq> None" "commit_fills_block S (c_Rand c)"
  shows "returns (\<lambda>r. exchanged S n c) (sendDHCommit S c)"
proof -
  let ?c = "c\<lparr>c_ake := None\<rparr>"
  have c: "c_version ?c \<noteq> None" "commit_fills_block S (c_Rand ?c)" using assms by simp_all
  have ok: "others_ok S n c'" if "others c' = others c" for c'
    using others_ok_same [OF that] conv_ok_others [OF assms(1,2)] by simp
  have st: "exchanged S n c c'" if "others c' = others c" "c_ake c' = Some a" "ake_state a = authStateNone" for c' a
    using conv_ok_store [OF ok [OF that(1)] that(2), of authStateNone] that
    by (simp add: exchanged_def secured_def moves_def others_def store_state_def upd_ake_def c_ake_same)
  show ?thesis
    unfolding sendDHCommit_def
    apply (rule returns_andThen [OF dhCommitMessage_shape [OF c]])
    subgoal using st by auto
    subgoal for b c1
      apply (rule returns_andThen [OF wrapMessageHeader_shape])
      subgoal using assms(2) by (auto simp: others_def)
      subgoal using st by auto
      subgoal for m c2
        using conv_ok_store [OF ok, of c2 _ authStateAwaitingDHKey] by (auto simp: exchanged_def secured_def moves_def others_def store_state_def)
      done
    done
qed

lemma exchanged_ops [simp]:
  "exchanged S n a c \<Longrightarrow> exchanged S n a (messageEventWithError e err c)" "exchanged S n a c \<Longrightarrow> exchanged S n a (messageEventWithMessage e m c)"
  "exchanged S n a c \<Longrightarrow> exchanged S n a (c\<lparr>c_whitespaceState := ws\<rparr>)"
proof -
  have "secured S a (c\<lparr>c_events := es\<rparr>)" "secured S a (c\<lparr>c_whitespaceState := ws\<rparr>)" if "secured S a c" for es
    using secured_same [OF that, of "c\<lparr>c_events := es\<rparr>"] secured_same [OF that, of "c\<lparr>c_whitespaceState := ws\<rparr>"] by simp_all
  then show "exchanged S n a c \<Longrightarrow> exchanged S n a (messageEventWithError e err c)" "exchanged S n a c \<Longrightarrow> exchanged S n a (messageEventWithMessage e m c)"
    "exchanged S n a c \<Longrightarrow> exchanged S n a (c\<lparr>c_whitespaceState := ws\<rparr>)"
    by (simp_all add: exchanged_def) (auto simp: messageEventWithError_def messageEventWithMessage_def log_event_def)
qed

lemma send_then_returns:
  assumes "opened S n c c1" "c_version c1 \<noteq> None" "commit_fills_block S (c_Rand c)"
  shows "returns (\<lambda>r. exchanged S n c) (do { (res, c3) \<leftarrow> sendDHCommit S c1;
      Some (potentialAuthError (case res of Inl e \<Rightarrow> ([], Some e) | Inr m \<Rightarrow> ([m], None)) c3) })"
proof (rule returns_bind)
  have c1: "conv_ok S n c1" "moves S n c c1" "commit_fills_block S (c_Rand c1)"
    using assms by (auto simp: opened_def moves_def)
  show "returns (\<lambda>r. exchanged S n c) (sendDHCommit S c1)"
    by (rule returns_mono [OF sendDHCommit_returns [OF c1(1) assms(2) c1(3)]]) (rule opened_exchanged(2) [OF assms(1)])
qed (auto simp: potentialAuthError_def split: option.split sum.split)

lemma receiveQueryMessage_returns:
  assumes "conv_ok S n c" "commit_fills_block S (c_Rand c)"
  shows "returns (\<lambda>r. exchanged S n c) (receiveQueryMessage S msg c)"
proof -
  obtain e c1 where cv: "commitToVersionFrom (extractVersionsFromQueryMessage (c_Policies c) msg) c = (e, c1)" by fastforce
  note c1 = commitToVersionFrom_opened [OF assms(1) cv]
  obtain b c2 where ig: "ignore_query c1 = (b, c2)" by fastforce
  then have c2: "opened S n c c2" "c_version c2 = c_version c1"
    using c1 by (auto simp: ignore_query_def isWithinTimeToIgnoreQueryMessage_def time_Now_def split: if_splits option.splits)
  show ?thesis
  proof (cases e)
    case None
    then show ?thesis using cv ig c1 c2 send_then_returns [OF c2(1) _ assms(2)]
      by (cases b) (auto simp: receiveQueryMessage_def intro: opened_exchanged)
  next
    case (Some e')
    then show ?thesis using cv c1 by (auto simp: receiveQueryMessage_def intro: opened_exchanged)
  qed
qed

lemma receiveTaggedPlaintext_returns:
  assumes "conv_ok S n c" "commit_fills_block S (c_Rand c)" "bytes_Index message whitespaceTagHeader \<noteq> None"
  shows "returns (\<lambda>r. exchanged S n c) (receiveTaggedPlaintext S message c)"
proof -
  have "\<exists>plain vs. extractWhitespaceTag message = Some (plain, vs)"
    using assms(3) by (cases "bytes_Index message whitespaceTagHeader") (simp_all add: extractWhitespaceTag_def Let_def split: prod.split)
  then obtain plain vs where ex: "extractWhitespaceTag message = Some (plain, vs)" by blast
  obtain e c1 where cv: "commitToVersionFrom vs c = (e, c1)" by fastforce
  note c1 = commitToVersionFrom_opened [OF assms(1) cv]
  have "returns (\<lambda>r. exchanged S n c) (startAKEFromWhitespaceTag S vs c)"
    using cv c1 send_then_returns [of S n c c1] assms(2) by (cases e) (auto simp: startAKEFromWhitespaceTag_def intro: opened_exchanged)
  then have "returns (\<lambda>r. exchanged S n c) (processWhitespaceTag S message c)"
    using ex opened_exchanged(1) [of S n c c] assms(1) by (auto simp: processWhitespaceTag_def returns_iff)
  moreover have "exchanged S n c (checkPlaintextPolicies p c2)" if "exchanged S n c c2" for p c2
    using that by (simp add: checkPlaintextPolicies_def Let_def)
  ultimately show ?thesis by (auto simp: receiveTaggedPlaintext_def returns_iff)
qed

section \<open>Receiving\<close>

text \<open>An encoded data message of version 3 that ends within its authenticator or before.\<close>

definition cut_data :: "bytes \<Rightarrow> bool" where
  "cut_data m \<longleftrightarrow>
     (case decode m of
        Some (Inr d) \<Rightarrow> 11 \<le> length d \<and> d ! 2 = msgTypeData \<and> dataMsg_deserialize (drop 11 d) OtrV3 = None
      | _ \<Rightarrow> False)"

text \<open>The message that is handled in the end: the contents of the fragments when \<open>m\<close> completes a sequence.\<close>

fun innermost :: "nat \<Rightarrow> bytes \<Rightarrow> conversation \<Rightarrow> bytes" where
  "innermost 0 m c = m"
| "innermost (Suc k) m c =
     (if guessMessageType m = msgGuessFragment
      then (case receiveFragment (c_fragmentationContext c) m c of
              Some ((ctx, err), c1) \<Rightarrow>
                if fragmentsFinished ctx then innermost k (frag ctx) (c1\<lparr>c_fragmentationContext := ctx\<rparr>) else m
            | None \<Rightarrow> m)
      else m)"

text \<open>What a call of \<^verbatim>\<open>receiveUnit\<close> comes to.\<close>

definition received_ok :: "suite \<Rightarrow> nat \<Rightarrow> conversation \<Rightarrow> conversation \<Rightarrow> bool" where
  "received_ok S n c c' \<longleftrightarrow> moves S n c c' \<and> (c_msgState c \<noteq> encrypted \<longrightarrow> secured S c c')"

lemma exchanged_received: "exchanged S n c c' \<Longrightarrow> received_ok S n c c'" "c_msgState c = encrypted \<Longrightarrow> moves S n c c' \<Longrightarrow> received_ok S n c c'"
  by (simp_all add: exchanged_def received_ok_def)

lemma opened_received: "opened S n a b \<Longrightarrow> received_ok S n b c \<Longrightarrow> received_ok S n a c"
  using moves_trans by (auto simp: opened_def received_ok_def secured_def)

lemma received_upd: 
  assumes "received_ok S n a c"
  shows "received_ok S n a (c\<lparr>c_injections := is\<rparr>)" "received_ok S n a (c\<lparr>c_fragmentationContext := fc\<rparr>)"
  using assms secured_same [of S a c "c\<lparr>c_injections := is\<rparr>"] secured_same [of S a c "c\<lparr>c_fragmentationContext := fc\<rparr>"]
  by (auto simp: received_ok_def)

fun run_ok :: "suite \<Rightarrow> nat \<Rightarrow> conversation \<Rightarrow> bytes \<Rightarrow> received option run \<Rightarrow> bool" where
  "run_ok S n c m OutOfFuel = True"
| "run_ok S n c m (Finished None) = (c_msgState c = encrypted \<and> cut_data m)"
| "run_ok S n c m (Finished (Some (r, c'))) = received_ok S n c c'"

definition receive_ready :: "suite \<Rightarrow> nat \<Rightarrow> conversation \<Rightarrow> bool" where
  "receive_ready S n c \<longleftrightarrow> conv_ok S n c \<and> n \<le> length (c_Rand c) \<and> commit_fills_block S (c_Rand c) \<and> c_fragmentSize c = 0
     \<and> (c_msgState c = encrypted \<longrightarrow> c_version c = Some OtrV3 \<and> prime_modulus S)"

lemma receive_ready_opened: "receive_ready S n c \<Longrightarrow> opened S n c c' \<Longrightarrow> receive_ready S n c'"
  by (auto simp: receive_ready_def opened_def moves_def conv_ok_def session_ok_def)

lemma encodeAndCombine_returns: "c_fragmentSize c = 0 \<Longrightarrow> \<exists>ms. encodeAndCombine ts c = Some ms"
  by (induction ts) (auto simp: fragEncode_whole)

lemma finish_receive_returns:
  assumes "received_ok S n c c1" "c_fragmentSize c = 0"
  shows "returns (\<lambda>r. received_ok S n c) (finish_receive f (x, c1))"
proof -
  obtain plain toSend err where x: "x = (plain, toSend, err)" by (metis prod_cases3)
  have "c_fragmentSize c1 = 0" using assms by (simp add: received_ok_def moves_def)
  then have "\<exists>ms. encodeAndCombine toSend (if f then c1\<lparr>c_fragmentationContext := forgetFragment\<rparr> else c1) = Some ms"
    by (intro encodeAndCombine_returns) simp
  then obtain ms where "encodeAndCombine toSend (if f then c1\<lparr>c_fragmentationContext := forgetFragment\<rparr> else c1) = Some ms" by blast
  then show ?thesis using received_upd [OF assms(1)] received_upd [OF received_upd(2) [OF assms(1)]] x
    by (auto simp: finish_receive_def toSendEncoded_def withInjectionsPlain_def withInjects_def Let_def)
qed

lemma finish_run_ok:
  assumes "returns (\<lambda>r. received_ok S n c) h" "c_fragmentSize c = 0"
  shows "run_ok S n c m (Finished (do { (r, c1) \<leftarrow> h; finish_receive f (r, c1) }))"
proof -
  obtain r c1 where h: "h = Some (r, c1)" "received_ok S n c c1" using assms(1) by (auto simp: returns_iff)
  with finish_receive_returns [OF h(2) assms(2), of f r] show ?thesis by (auto simp: returns_iff)
qed

lemma receiveFragment_opened:
  assumes "conv_ok S n c"
  shows "returns (\<lambda>r. opened S n c) (receiveFragment ctx m c)"
proof -
  obtain e c1 where rv: "resolveVersionFromFragment m c = (e, c1)" by fastforce
  note c1 = commitToVersionFrom_opened [OF assms rv [unfolded resolveVersionFromFragment_def]]
  have ok1: "conv_ok S n c1" using c1 by (simp add: opened_def moves_def)
  have p: "opened S n c (snd (v_parseFragmentPrefix v m c1))" for v
    using c1 opened_trans verifyInstanceTags_opened [OF ok1]
    by (cases v) (fastforce simp: Let_def split: option.split prod.split)+
  have "returns (\<lambda>r. opened S n c) (parseFragmentPrefix m c)"
    using rv c1 p by (cases e; cases "c_version c1") (auto simp: parseFragmentPrefix_def returns_iff, metis prod.collapse snd_conv)
  then show ?thesis by (auto simp: receiveFragment_def returns_iff split: option.split bool.split)
qed

lemma exchanged_refl: "conv_ok S n c \<Longrightarrow> exchanged S n c c"
  by (simp add: opened_exchanged)

lemma received_refl: "conv_ok S n c \<Longrightarrow> received_ok S n c c"
  by (simp add: exchanged_received exchanged_refl)

lemma guess_encoded:
  assumes "guessMessageType m \<in> {msgGuessDHCommit, msgGuessDHKey, msgGuessRevealSig, msgGuessSignature, msgGuessData}"
  shows "decode m \<noteq> None"
proof -
  have len: "length p \<le> length m" if "HasPrefix m p" for p
    using that by (metis HasPrefix_def length_take min.cobounded1)
  have "6 \<le> length m"
    using assms len [of "str ''?OTR:AAMC''"] len [of "str ''?OTR:AAIC''"] len [of "str ''?OTR:AAMK''"] len [of "str ''?OTR:AAIK''"]
      len [of "str ''?OTR:AAMR''"] len [of "str ''?OTR:AAIR''"] len [of "str ''?OTR:AAMS''"] len [of "str ''?OTR:AAIS''"]
      len [of "str ''?OTR:AAED''"] len [of "str ''?OTR:AAID''"] len [of "str ''?OTR:AAMD''"]
    by (simp add: guessMessageType_def split: if_splits)
  then show ?thesis by (auto simp: decode_def removeOTRMsgEnvelope_def slice_def msgMarker_def)
qed

lemma run_ok_nested:
  assumes "run_ok S n c2 m res" "opened S n c c2"
  shows "run_ok S n c m (map_run (map_option withInjectionsPlain) res)"
proof (cases res)
  case (Finished x)
  then show ?thesis using assms opened_received [OF assms(2)] received_upd(1)
    by (cases x) (auto simp: opened_def withInjectionsPlain_def withInjects_def)
qed simp

context dh_suite
begin

lemma receiveAKEMessage_returns:
  assumes "conv_ok S n c" "c_version c \<noteq> None" "n \<le> length (c_Rand c)"
  shows "returns (\<lambda>r. exchanged S n c) (receiveAKEMessage S ty body c)"
  unfolding receiveAKEMessage_def
  by (rule returns_bind [OF processAKE_returns [OF assms]]) (auto simp: potentialAuthError_def split: option.split)

lemma receiveDecoded_ok:
  assumes r: "receive_ready S n c"
  shows "case receiveDecoded S d c of
      None \<Rightarrow> c_msgState c = encrypted \<and> 11 \<le> length d \<and> d ! 2 = msgTypeData \<and> dataMsg_deserialize (drop 11 d) OtrV3 = None
    | Some (r, c') \<Rightarrow> received_ok S n c c'"
proof -
  have ok: "conv_ok S n c" using r by (simp add: receive_ready_def)
  obtain e c1 where cv: "checkVersion d c = (e, c1)" by fastforce
  note c1 = checkVersion_opened [OF ok cv]
  show ?thesis
  proof (cases e)
    case (Some e')
    then show ?thesis using cv exchanged_received(1) [OF opened_exchanged(1) [OF conjunct1 [OF c1]]] by (simp add: receiveDecoded_def)
  next
    case None
    then have v1: "c_version c1 \<noteq> None" "conv_ok S n c1" "opened S n c c1" using c1 by (auto simp: opened_def moves_def)
    obtain res c2 where ph: "parseMessageHeader d c1 = Some (res, c2)" "opened S n c1 c2"
        "c_version c1 = Some OtrV3 \<longrightarrow> (\<forall>h b. res = Inr (h, b) \<longrightarrow> h = take 11 d \<and> b = drop 11 d \<and> 11 \<le> length d)"
      using parseMessageHeader_opened [OF v1(2,1), of d] by (auto simp: returns_iff)
    have c2: "opened S n c c2" using opened_trans [OF v1(3) ph(2)] .
    have r2: "receive_ready S n c2" using receive_ready_opened [OF r c2] .
    then have v2: "conv_ok S n c2" "c_version c2 \<noteq> None" "n \<le> length (c_Rand c2)" "c_version c2 = c_version c1"
      using v1(1) ph(2) by (auto simp: receive_ready_def opened_def moves_def)
    show ?thesis
    proof (cases res)
      case (Inl e')
      then show ?thesis using cv None ph(1) exchanged_received(1) [OF opened_exchanged(1) [OF c2]] by (simp add: receiveDecoded_def)
    next
      case (Inr hb)
      obtain h b where hb: "hb = (h, b)" by fastforce
      show ?thesis
      proof (cases "h ! 2 = msgTypeData")
        case False
        have "returns (\<lambda>r. received_ok S n c) (receiveAKEMessage S (h ! 2) b c2)"
          by (rule returns_mono [OF receiveAKEMessage_returns [OF v2(1-3)]]) (rule exchanged_received(1) [OF opened_exchanged(2) [OF c2]])
        then show ?thesis using cv None ph(1) Inr hb False by (auto simp: receiveDecoded_def returns_iff)
      next
        case True
        show ?thesis
        proof (cases "c_msgState c2 = encrypted \<and> dataMsg_deserialize b OtrV3 = None")
          case True': True
          then have "c_version c2 = Some OtrV3" using r2 by (simp add: receive_ready_def)
          then have "h = take 11 d" "b = drop 11 d" "11 \<le> length d" using ph(3) v2(4) Inr hb by auto
          moreover have "receiveDecoded S d c = receiveDataMessage S h b c2"
            using cv None ph(1) Inr hb True by (simp add: receiveDecoded_def)
          moreover have "receiveDataMessage S h b c2 = None"
            using True' \<open>c_version c2 = Some OtrV3\<close>
            by (simp add: receiveDataMessage_def processDataMessage_def processDataMessageWithRawErrors_def Let_def)
          ultimately show ?thesis using True True' c2 by (simp add: opened_def)
        next
          case False
          have "returns (\<lambda>r. received_ok S n c) (receiveDataMessage S h b c2)"
          proof (cases "c_msgState c2 = encrypted")
            case True
            then show ?thesis
              by (intro returns_mono [OF receiveDataMessage_returns [OF v2(1)]] opened_received [OF c2] exchanged_received(2))
                 (use False r2 in \<open>auto simp: receive_ready_def\<close>)
          next
            case False
            show ?thesis
              by (rule returns_mono [OF receiveDataMessage_plain [OF v2(1) False]]) (rule exchanged_received(1) [OF opened_exchanged(2) [OF c2]])
          qed
          then show ?thesis using cv None ph(1) Inr hb True by (auto simp: receiveDecoded_def returns_iff)
        qed
      qed
    qed
  qed
qed

lemma receiveEncoded_ok:
  assumes r: "receive_ready S n c" and d: "decode m \<noteq> None"
  shows "run_ok S n c m (Finished (do { res \<leftarrow> receiveEncoded S m c; finish_receive f res }))"
proof -
  have ok: "conv_ok S n c" "c_fragmentSize c = 0" using r by (simp_all add: receive_ready_def)
  have fin: "run_ok S n c m (Finished (do { res \<leftarrow> h; finish_receive f res }))" if "returns (\<lambda>r. received_ok S n c) h" for h
    using finish_run_ok [OF that ok(2), of m f] by (simp add: split_def)
  obtain x where x: "decode m = Some x" using d by (cases "decode m") auto
  show ?thesis
  proof (cases x)
    case (Inl e)
    then show ?thesis using x fin [of "Some ((None, [], Some e), c)"] received_refl [OF ok(1)] by (simp add: receiveEncoded_def)
  next
    case (Inr y)
    then have e: "receiveEncoded S m c = receiveDecoded S y c" using x by (simp add: receiveEncoded_def)
    show ?thesis
    proof (cases "receiveDecoded S y c")
      case None
      then show ?thesis using receiveDecoded_ok [OF r, of y] e x Inr by (simp add: cut_data_def)
    next
      case (Some z)
      then show ?thesis using receiveDecoded_ok [OF r, of y] e fin [of "Some z"] by (cases z) simp
    qed
  qed
qed

lemma receiveUnit_ok:
  "receive_ready S n c \<Longrightarrow> run_ok S n c (innermost fuel m c) (receiveUnit S fuel m ff c)"
proof (induction fuel arbitrary: m ff c)
  case (Suc fuel)
  note r = Suc.prems
  then have ok: "conv_ok S n c" "c_fragmentSize c = 0" "commit_fills_block S (c_Rand c)" by (simp_all add: receive_ready_def)
  have pt: "received_ok S n c (checkPlaintextPolicies m c)"
    using exchanged_received(1) [of S n c] received_refl [OF ok(1)] exchanged_refl [OF ok(1)]
    by (simp add: checkPlaintextPolicies_def Let_def)
  have fin: "run_ok S n c m (Finished (finish_receive f (x, c1)))" if "received_ok S n c c1" for m f x c1
    using finish_receive_returns [OF that ok(2), of f x] by (auto simp: returns_iff)
  have enc: "run_ok S n c m (Finished (do { res \<leftarrow> receiveEncoded S m c; finish_receive ff res }))"
    if "guessMessageType m \<in> {msgGuessDHCommit, msgGuessDHKey, msgGuessRevealSig, msgGuessSignature, msgGuessData}"
    by (rule receiveEncoded_ok [OF r guess_encoded [OF that]])
  have err: "received_ok S n c (messageEventWithMessage e x c\<lparr>c_injections := is\<rparr>)" for e x "is"
    using exchanged_received(1) [of S n c] exchanged_refl [OF ok(1)] by (intro received_upd(1)) simp
  have err': "received_ok S n c (messageEventWithMessage e x (updateMayRetransmitTo rt c)\<lparr>c_injections := is\<rparr>)"
    if "c_msgState c = encrypted" for e x rt "is"
    by (intro received_upd(1) exchanged_received(2) that) (simp add: ok(1))
  show ?case
  proof (cases "isOTREnabled (c_Policies c)")
    case True
    show ?thesis
    proof (cases "guessMessageType m")
      case msgGuessFragment
      obtain ctx err c1 where f: "receiveFragment (c_fragmentationContext c) m c = Some ((ctx, err), c1)" "opened S n c c1"
        using receiveFragment_opened [OF ok(1), of "c_fragmentationContext c" m] by (auto simp: returns_iff)
      let ?c2 = "c1\<lparr>c_fragmentationContext := ctx\<rparr>"
      have c2: "opened S n c ?c2" using f(2) by simp
      have "run_ok S n c (innermost fuel (frag ctx) ?c2) (map_run (map_option withInjectionsPlain) (receiveUnit S fuel (frag ctx) False ?c2))"
        by (rule run_ok_nested [OF Suc.IH [OF receive_ready_opened [OF r c2]] c2])
      then show ?thesis using True msgGuessFragment f fin [of ?c2] exchanged_received(1) [OF opened_exchanged(1) [OF c2]] by (simp add: Let_def)
    next
      case msgGuessQuery
      obtain ts e c1 where "receiveQueryMessage S m c = Some ((ts, e), c1)" "exchanged S n c c1"
        using receiveQueryMessage_returns [OF ok(1,3), of m] by (auto simp: returns_iff)
      then show ?thesis using True msgGuessQuery fin exchanged_received(1) by simp
    next
      case msgGuessTaggedPlaintext
      then have "bytes_Index m whitespaceTagHeader \<noteq> None" by (auto simp: guessMessageType_def split: if_splits)
      then obtain res c1 where "receiveTaggedPlaintext S m c = Some (res, c1)" "exchanged S n c c1"
        using receiveTaggedPlaintext_returns [OF ok(1,3)] unfolding returns_iff by blast
      then show ?thesis using True msgGuessTaggedPlaintext fin exchanged_received(1) by simp
    next
      case msgGuessNotOTR
      then show ?thesis using True fin pt by (simp add: receivePlaintext_def)
    next
      case msgGuessError
      then show ?thesis using True err err' by (simp add: withInjectionsPlain_def receiveErrorMessage_def Let_def withInjects_def)
    next
      case msgGuessUnknown
      then show ?thesis
        using True fin [OF exchanged_received(1) [OF opened_exchanged(1) [OF opened_ops(2) [OF opened_ops(1) [OF ok(1)]]]]] by simp
    next
      case msgGuessV1KeyExch
      then show ?thesis using True received_refl [OF ok(1)] by simp
    qed (use True enc in simp_all)
  next
    case False
    then show ?thesis using received_refl [OF ok(1)] by simp
  qed
qed simp

end

section \<open>Calls of the local user\<close>

lemma createSerialized_moves:
  assumes "moves S n c c1" "c_fragmentSize c = 0"
  shows "returns (\<lambda>r. moves S n c) (createSerializedDataMessage S m fl ts c1)"
proof -
  have "conv_ok S n c1" "c_fragmentSize c1 = 0" using assms by (simp_all add: moves_def)
  then show ?thesis
    by (rule returns_mono [OF createSerializedDataMessage_sent]) (rule moves_trans [OF assms(1) sent_moves])
qed

lemma createSerialized_then:
  assumes "moves S n c c1" "c_fragmentSize c = 0"
  shows "returns (\<lambda>r. moves S n c) (andThen (createSerializedDataMessage S m fl ts c1) (\<lambda>(a, b) c'. Some (Inr (g a b), c')))"
  by (rule returns_andThen [OF createSerialized_moves [OF assms]]) auto

lemma c_Send_moves:
  assumes "conv_ok S n c" "c_fragmentSize c = 0" "\<not> (c_debug c \<and> bytes_Index m debugString \<noteq> None)"
  shows "returns (\<lambda>r. moves S n c) (c_Send S m tr c)"
proof -
  have inj: "returns (\<lambda>r. moves S n c) (map_option withInjections x)" if "returns (\<lambda>r. sent_ok S n c) x" for x
    using that sent_moves by (auto simp: returns_iff withInjections_def withInjects_def)
  have "sent_ok S n c (snd (sendMessageOnPlaintext m tr c))"
    using assms(1) by (auto simp: sendMessageOnPlaintext_def Let_def appendWhitespaceTag_def lastMessage_def updateMayRetransmitTo_def
        split: prod.split if_splits) (auto simp: sent_ok_def same_session_def updateLastSent_def time_Now_def messageEvent_def log_event_def)
  then have p: "returns (\<lambda>r. sent_ok S n c) (Some (sendMessageOnPlaintext m tr c))"
    by (cases "sendMessageOnPlaintext m tr c") simp
  show ?thesis
    using assms inj [OF sendMessageOnEncrypted_sent [OF assms(1,2), of m]] inj [OF p]
      inj [of "Some (([], Some e), messageEvent MessageEventConnectionEnded [] c)" for e]
    by (auto simp: c_Send_def split: msgState.split)
qed

lemma c_Send_cases:
  assumes "conv_ok S n c" "c_fragmentSize c = 0"
  shows "c_Send S m tr c = Some (r, c') \<Longrightarrow> moves S n c c'"
    "c_Send S m tr c = None \<Longrightarrow> c_debug c \<and> bytes_Index m debugString \<noteq> None \<and> dump S c = None"
proof -
  have dbg: "c_Send S m tr c = (if isOTREnabled (c_Policies c) then do { _ \<leftarrow> dump S c; Some (([], None), c) } else Some (([m], None), c))"
    if "c_debug c \<and> bytes_Index m debugString \<noteq> None" using that by (simp add: c_Send_def)
  have ok: "returns (\<lambda>r. moves S n c) (c_Send S m tr c)" if "\<not> (c_debug c \<and> bytes_Index m debugString \<noteq> None)"
    by (rule c_Send_moves [OF assms that])
  show "moves S n c c'" if "c_Send S m tr c = Some (r, c')"
    using that ok dbg assms(1) by (cases "c_debug c \<and> bytes_Index m debugString \<noteq> None"; cases "dump S c") (auto split: if_splits)
  show "c_debug c \<and> bytes_Index m debugString \<noteq> None \<and> dump S c = None" if "c_Send S m tr c = None"
    using that ok dbg by (cases "c_debug c \<and> bytes_Index m debugString \<noteq> None"; cases "dump S c") (auto split: if_splits)
qed

lemma c_End_moves:
  assumes "conv_ok S n c" "c_fragmentSize c = 0"
  shows "returns (\<lambda>r. moves S n c) (c_End S c)"
proof -
  have w: "moves S n c (smp_wipe c)"
    using conv_ok_smp [OF assms(1), of nil_smp] by (simp add: smp_wipe_def moves_def smp_ok_def nil_smp_def)
  have fin: "moves S n c (c1\<lparr>c_lastMessageStateChange := t, c_ake := None, c_msgState := plainText, c_keys := k\<rparr>)" if "moves S n c c1" for c1 t k
    using that by (auto simp: moves_def conv_ok_defs)
  have "returns (\<lambda>r. moves S n c)
      (if c_msgState c = encrypted
       then do { (res, c') \<leftarrow> createSerializedDataMessage S [] messageFlagIgnoreUnreadable
                  [\<lparr>tlvType = tlvTypeDisconnected, tlvLength = 0, tlvValue = []\<rparr>] (smp_wipe c);
                 case res of Inl e \<Rightarrow> Some (([], Some e), c') | Inr (ms, _) \<Rightarrow> Some ((ms, None), c') }
       else Some (([], None), c))"
    by (rule returns_if, rule returns_bind [OF createSerialized_moves [OF w assms(2)]]) (use assms in \<open>auto split: sum.split\<close>)
  then show ?thesis unfolding c_End_def by (rule returns_bind) (auto simp: Let_def fin)
qed

lemma AbortAuthentication_moves:
  assumes "conv_ok S n c" "c_fragmentSize c = 0"
  shows "returns (\<lambda>r. moves S n c) (AbortAuthentication S c)"
proof -
  have "moves S n c (set_smp_state smpStateExpect1 c)"
    using conv_ok_smp [OF assms(1), of "(c_smp c)\<lparr>smp_state := Some smpStateExpect1\<rparr>"] by (simp add: set_smp_state_def moves_def smp_ok_def)
  from createSerialized_then [OF this assms(2)] show ?thesis
    by (simp add: AbortAuthentication_def restartSMP_def sendSMPAbortAndRestartStateMachine_def abortState_def)
qed

lemma UseExtraSymmetricKey_moves:
  assumes "conv_ok S n c" "c_fragmentSize c = 0"
  shows "returns (\<lambda>r. moves S n c) (UseExtraSymmetricKey S u d c)"
  using createSerialized_then [of S n c c, OF _ assms(2), where g = "\<lambda>a b. (b, a)"] assms by (simp add: UseExtraSymmetricKey_def)

text \<open>Starting the authentication protocol uses the peer's long-term key.\<close>

lemma startAuthenticate_moves:
  assumes "moves S n c c1" "c_msgState c1 = encrypted \<longrightarrow> c_theirKey c1 \<noteq> None"
  shows "returns (\<lambda>r. moves S n c) (startAuthenticate_Expect1 S q s c1)"
proof (cases "c_msgState c1 = encrypted")
  case False
  then show ?thesis using assms(1) by (simp add: startAuthenticate_Expect1_def IsEncrypted_def)
next
  case True
  have ok: "conv_ok S n c1" using assms(1) by (simp add: moves_def)
  then obtain k t v where k: "c_ourCurrentKey c1 = Some k" "c_theirKey c1 = Some t" "c_version c1 = Some v"
    using True assms(2) by (cases "c_ourCurrentKey c1"; cases "c_theirKey c1"; cases "c_version c1")
      (auto simp: conv_ok_def signer_ok_def session_ok_def)
  obtain g r where g: "generateSMP1 S v (c_Rand c1) = (g, r)" by fastforce
  have upd: "moves S n c (c1\<lparr>c_smp := s', c_Rand := r\<rparr>)" if "smp_ok S (c_version c1) s'" for s'
    using moves_smp [OF assms(1) that] moves_rand by simp
  have upd': "moves S n c (c1\<lparr>c_Rand := r, c_smp := s'\<rparr>)" if "smp_ok S (c_version c1) s'" for s'
    using moves_smp [OF moves_rand [OF assms(1)]] that by simp
  have same: "smp_ok S v' (x\<lparr>smp_secret := Some y\<rparr>)" if "smp_ok S v' x" for v' x y
    using that by (auto simp: smp_ok_def split: option.splits smpState.splits)
  have old: "smp_ok S (Some v) (c_smp c1)" using ok k(3) by (simp add: conv_ok_def)
  have new: "smp_ok S (Some v) ((c_smp c1)\<lparr>smp_secret := Some y, smp_s1 := Some z, smp_state := Some smpStateExpect2\<rparr>)" for y z
    by (simp add: smp_ok_def)
  show ?thesis
    using True k g upd upd' same [OF old] new
    by (cases g) (auto simp: startAuthenticate_Expect1_def IsEncrypted_def Let_def)
qed

lemma StartAuthenticate_moves:
  assumes "conv_ok S n c" "c_fragmentSize c = 0" "c_msgState c = encrypted \<longrightarrow> c_theirKey c \<noteq> None"
  shows "returns (\<lambda>r. moves S n c) (StartAuthenticate S q s c)"
proof -
  let ?c = "ensureSMP c"
  have c: "moves S n c ?c" "smp_state (c_smp ?c) \<noteq> None" using ensureSMP_ok [OF assms(1)] by blast+
  then obtain st where st: "smp_state (c_smp ?c) = Some st" by (cases "smp_state (c_smp ?c)") auto
  have k: "c_msgState ?c = encrypted \<longrightarrow> c_theirKey ?c \<noteq> None" using assms(3) by (simp add: ensureSMP_def)
  note e1 = startAuthenticate_moves [OF c(1) k, of q s]
  have "returns (\<lambda>r. moves S n c) (andThen (startAuthenticate_Expect1 S q s ?c) (\<lambda>tlvs c'. Some (Inr (g tlvs), c')))" for g :: "tlv list \<Rightarrow> tlv list"
    by (rule returns_andThen [OF e1]) auto
  then have sa: "returns (\<lambda>r. moves S n c) (startAuthenticate S st q s ?c)"
    using e1 by (simp add: startAuthenticate_def)
  show ?thesis
    unfolding StartAuthenticate_def Let_def st Option.bind.bind_lunit
    by (rule returns_andThen [OF sa]) (auto intro: createSerialized_then [OF _ assms(2)])
qed

lemma continueSMP_moves:
  assumes ok: "conv_ok S n c" "smp_state (c_smp c) = Some st"
      "\<forall>m. st = smpStateWaitingForSecret m \<and> c_msgState c = encrypted \<longrightarrow> c_theirKey c \<noteq> None"
    and p: "prime_modulus S \<or> c_version c = Some OtrV2"
  shows "returns (\<lambda>r. moves S n c) (continueSMP S s c)"
proof -
  have abort: "moves S n c (set_smp_state smpStateExpect1 c')" if "smp_only c c'" for c'
    using smp_handled_I [OF ok(1) that, of smpStateExpect1] by (simp add: smp_handled_def smp_ok_def)
  show ?thesis
  proof (cases "(\<exists>m. st = smpStateWaitingForSecret m) \<and> c_msgState c = encrypted")
    case False
    then show ?thesis using abort [OF smp_only_upd(1)] ok(2)
      by (cases st) (auto simp: continueSMP_def continueMessage1_def abortState_def IsEncrypted_def)
  next
    case True
    then obtain m where m: "st = smpStateWaitingForSecret m" "c_msgState c = encrypted" by blast
    then obtain k t v where k: "c_ourCurrentKey c = Some k" "c_theirKey c = Some t" "c_version c = Some v"
      using ok by (cases "c_ourCurrentKey c"; cases "c_theirKey c"; cases "c_version c")
        (auto simp: conv_ok_def signer_ok_def session_ok_def)
    let ?s = "generateSMPSecret S (Fingerprint S t) (Fingerprint S (sk_DSAPublicKey k)) (c_ssid c) s v"
    obtain g r where g: "generateSMP2 S v ?s m (c_Rand c) = (g, r)" by fastforce
    show ?thesis
    proof (cases g)
      case (Inl e)
      have "moves S n c (set_smp_state smpStateExpect1 (smpEvent SMPEventCheated 0 (c\<lparr>c_smp := (c_smp c)\<lparr>smp_secret := Some ?s\<rparr>, c_Rand := r\<rparr>)))"
        by (rule abort) simp
      then show ?thesis using ok(2) m k g Inl
        by (simp add: continueSMP_def continueMessage1_def IsEncrypted_def abortStateMachineAndNotifyCheated_def
            sendSMPAbortAndRestartStateMachine_def abortState_def)
    next
      case (Inr s2)
      have "v \<noteq> OtrV2 \<longrightarrow> unit_mod S (s2_qb s2) \<and> unit_mod S (s2_pb s2)"
        using generateSMP2_units [of S m v ?s "c_Rand c" s2 r] p ok m k g Inr by (auto simp: conv_ok_def smp_ok_def)
      then have "smp_handled S n c (smpStateExpect3, None, None)
          (c\<lparr>c_Rand := r, c_smp := (c_smp c)\<lparr>smp_secret := Some ?s, smp_s2 := Some s2\<rparr>\<rparr>)"
        using k(3) by (intro smp_handled_I [OF ok(1)]) (auto simp: smp_ok_def)
      then show ?thesis using ok(2) m k g Inr
        by (simp add: continueSMP_def continueMessage1_def IsEncrypted_def smp_handled_def)
    qed
  qed
qed

lemma ProvideAuthenticationSecret_moves:
  assumes "conv_ok S n c" "c_fragmentSize c = 0" "smp_state (c_smp c) = Some st"
    "\<forall>m. st = smpStateWaitingForSecret m \<and> c_msgState c = encrypted \<longrightarrow> c_theirKey c \<noteq> None"
    "prime_modulus S \<or> c_version c = Some OtrV2"
  shows "returns (\<lambda>r. moves S n c) (ProvideAuthenticationSecret S s c)"
  unfolding ProvideAuthenticationSecret_def
  by (rule returns_andThen [OF continueSMP_moves [OF assms(1,3,4,5)]]) (auto intro: createSerialized_then [OF _ assms(2)])

section \<open>Histories of a conversation\<close>

text \<open>One call of the application or one step of the environment. A call that receives a message is made
  with the randomness a signature takes; the random source may deliver anything.\<close>

inductive api_step :: "suite \<Rightarrow> nat \<Rightarrow> conversation \<Rightarrow> conversation \<Rightarrow> bool" for S n where
  send: "c_Send S m tr c = Some (r, c') \<Longrightarrow> api_step S n c c'"
| receive: "n \<le> length (c_Rand c) \<Longrightarrow> commit_fills_block S (c_Rand c) \<Longrightarrow>
    c_Receive S fuel m c = Finished (Some (r, c')) \<Longrightarrow> api_step S n c c'"
| end_session: "c_End S c = Some (r, c') \<Longrightarrow> api_step S n c c'"
| start_smp: "StartAuthenticate S q s c = Some (r, c') \<Longrightarrow> api_step S n c c'"
| answer_smp: "ProvideAuthenticationSecret S s c = Some (r, c') \<Longrightarrow> api_step S n c c'"
| abort_smp: "AbortAuthentication S c = Some (r, c') \<Longrightarrow> api_step S n c c'"
| extra_key: "UseExtraSymmetricKey S u d c = Some (r, c') \<Longrightarrow> api_step S n c c'"
| random: "api_step S n c (c\<lparr>c_Rand := rnd\<rparr>)"

text \<open>A conversation before its first call: a policy without version 2, signing keys, no size limit.\<close>

definition fresh_v3 :: "suite \<Rightarrow> nat \<Rightarrow> conversation \<Rightarrow> bool" where
  "fresh_v3 S n c \<longleftrightarrow> c_version c = None \<and> c_msgState c = plainText \<and> c_ake c = None \<and> c_smp c = nil_smp
     \<and> c_ourCurrentKey c = None \<and> c_fragmentSize c = 0 \<and> c_ourKeys c \<noteq> [] \<and> list_all (key_pair_ok S n) (c_ourKeys c)
     \<and> \<not> has_policy (c_Policies c) allowV2"

definition party_v3 :: "suite \<Rightarrow> nat \<Rightarrow> conversation \<Rightarrow> bool" where
  "party_v3 S n c \<longleftrightarrow> conv_ok S n c \<and> c_fragmentSize c = 0 \<and> \<not> has_policy (c_Policies c) allowV2 \<and> c_version c \<noteq> Some OtrV2"

lemma fresh_party: "fresh_v3 S n c \<Longrightarrow> party_v3 S n c"
  by (simp add: fresh_v3_def party_v3_def conv_ok_defs smp_ok_def nil_smp_def)

lemma party_moves: "party_v3 S n c \<Longrightarrow> moves S n c c' \<Longrightarrow> party_v3 S n c'"
  by (auto simp: party_v3_def moves_def)

lemma party_returns: "party_v3 S n c \<Longrightarrow> returns (\<lambda>r. moves S n c) m \<Longrightarrow> m = Some (r, c') \<Longrightarrow> party_v3 S n c'"
  using party_moves by simp

text \<open>The calls of the authentication protocol panic on a nil key of the peer, or in the second case on a
  conversation in which no message of the protocol has been seen.\<close>

lemma StartAuthenticate_key:
  assumes "StartAuthenticate S q s c = Some (r, c')" shows "c_msgState c = encrypted \<longrightarrow> c_theirKey c \<noteq> None"
  using assms
  by (auto simp: StartAuthenticate_def startAuthenticate_def startAuthenticate_Expect1_def IsEncrypted_def ensureSMP_def
      andThen_def Let_def split: option.splits if_splits Option.bind_splits)

lemma ProvideAuthenticationSecret_key:
  assumes "ProvideAuthenticationSecret S s c = Some (r, c')"
  shows "\<exists>st. smp_state (c_smp c) = Some st \<and> (\<forall>m. st = smpStateWaitingForSecret m \<and> c_msgState c = encrypted \<longrightarrow> c_theirKey c \<noteq> None)"
proof (cases "smp_state (c_smp c)")
  case None
  then show ?thesis using assms by (simp add: ProvideAuthenticationSecret_def continueSMP_def)
next
  case (Some st)
  have "c_theirKey c \<noteq> None" if "st = smpStateWaitingForSecret m" "c_msgState c = encrypted" for m
    using assms Some that by (cases "c_theirKey c") (auto simp: ProvideAuthenticationSecret_def continueSMP_def continueMessage1_def IsEncrypted_def)
  then show ?thesis using Some by blast
qed

context dh_suite
begin

lemma receive_ready_party:
  assumes "party_v3 S n c" "prime_modulus S" "n \<le> length (c_Rand c)" "commit_fills_block S (c_Rand c)"
  shows "receive_ready S n c"
proof -
  have "c_version c = Some OtrV3" if "c_version c = Some v" for v using assms(1) that by (cases v) (auto simp: party_v3_def)
  then show ?thesis using assms by (cases "c_version c") (auto simp: party_v3_def receive_ready_def conv_ok_def session_ok_def)
qed

lemma api_step_party:
  assumes "prime_modulus S" "api_step S n c c'"
  shows "party_v3 S n c \<Longrightarrow> party_v3 S n c'"
  using assms(2)
proof (induction rule: api_step.induct)
  case (send m tr c r c')
  then have "moves S n c c'" using c_Send_cases(1) [of S n c m tr r c'] by (simp add: party_v3_def)
  with send(2) show ?case by (rule party_moves)
next
  case (receive c fuel m r c')
  then show ?case using receiveUnit_ok [OF receive_ready_party [OF receive(4) assms(1) receive(1,2)], of fuel m True]
    by (auto simp: c_Receive_def received_ok_def intro: party_moves)
next
  case (end_session c r c')
  then have "returns (\<lambda>r. moves S n c) (c_End S c)" by (intro c_End_moves) (auto simp: party_v3_def)
  with end_session(2) show ?case using end_session(1) by (rule party_returns)
next
  case (start_smp q s c r c')
  then have "returns (\<lambda>r. moves S n c) (StartAuthenticate S q s c)"
    by (intro StartAuthenticate_moves StartAuthenticate_key) (auto simp: party_v3_def)
  with start_smp(2) show ?case using start_smp(1) by (rule party_returns)
next
  case (answer_smp s c r c')
  obtain st where "smp_state (c_smp c) = Some st"
      "\<forall>m. st = smpStateWaitingForSecret m \<and> c_msgState c = encrypted \<longrightarrow> c_theirKey c \<noteq> None"
    using ProvideAuthenticationSecret_key [OF answer_smp(1)] by blast
  then have "returns (\<lambda>r. moves S n c) (ProvideAuthenticationSecret S s c)"
    using answer_smp(2) assms(1) by (intro ProvideAuthenticationSecret_moves) (auto simp: party_v3_def)
  with answer_smp(2) show ?case using answer_smp(1) by (rule party_returns)
next
  case (abort_smp c r c')
  then have "returns (\<lambda>r. moves S n c) (AbortAuthentication S c)" by (intro AbortAuthentication_moves) (auto simp: party_v3_def)
  with abort_smp(2) show ?case using abort_smp(1) by (rule party_returns)
next
  case (extra_key u d c r c')
  then have "returns (\<lambda>r. moves S n c) (UseExtraSymmetricKey S u d c)" by (intro UseExtraSymmetricKey_moves) (auto simp: party_v3_def)
  with extra_key(2) show ?case using extra_key(1) by (rule party_returns)
next
  case (random c rnd)
  then show ?case by (simp add: party_v3_def)
qed

lemma api_steps_party:
  assumes "prime_modulus S" "fresh_v3 S n c0" "(api_step S n)\<^sup>*\<^sup>* c0 c"
  shows "party_v3 S n c"
  using assms(3) by (induction rule: rtranclp_induct) (auto intro: api_step_party assms(1) fresh_party [OF assms(2)])

end


definition toy_party :: conversation where
  "toy_party = (nil_conversation [] (\<lambda>n. 0) 1)\<lparr>c_Policies := 4, c_ourKeys := [sample_key]\<rparr>"

lemma toy_dh_suite: "dh_suite toy_suite"
  by unfold_locales (simp_all add: toy_suite_def)

lemma toy_prime: "prime_modulus toy_suite"
proof -
  have "coprime x 23" if "0 < x" "x < 23" for x :: int
  proof -
    have "\<forall>x \<in> set [1..22]. coprime x (23 :: int)" by (simp add: upto.simps coprime_iff_gcd_eq_1 gcd_non_0_int)
    then show ?thesis using that by simp
  qed
  then show ?thesis by (auto simp: prime_modulus_def toy_suite_def)
qed

lemma sample_key_toy: "key_pair_ok toy_suite 0 sample_key"
proof -
  have "dsa_law toy_suite 0 7 3 2 2 4" by (auto simp: sample_numbers dsa_law_def toy_suite_def)
  then show ?thesis
    using sample_pub_length sample_mpi by (simp add: key_pair_ok_def sample_key_def Let_def pub_ok_def sample_pub_def)
qed

lemma toy_fresh: "fresh_v3 toy_suite 0 toy_party" "commit_fills_block toy_suite (c_Rand toy_party)"
  using sample_key_toy
  by (simp_all add: fresh_v3_def toy_party_def nil_conversation_def has_policy_def allowV2_def commit_fills_block_def randMPI_def
      randomInto_def ReadFull_def)



definition sample_fresh :: conversation where
  "sample_fresh = (nil_conversation (sample_rand 200) (\<lambda>n. 0) 1)\<lparr>c_Policies := 6, c_ourKeys := [sample_key]\<rparr>"

lemma sample_fresh_ok: "conv_ok sample_suite 0 sample_fresh" "commit_fills_block sample_suite (c_Rand sample_fresh)"
proof -
  show "conv_ok sample_suite 0 sample_fresh"
    using sample_key_ok by (simp add: sample_fresh_def nil_conversation_def conv_ok_defs smp_ok_def nil_smp_def)
  have "randMPI 40 (sample_rand 200) = (Inr (exponent_of (sample_rand 200)), drop 40 (sample_rand 200))"
    by (simp add: randMPI_ok exponent_of_def sample_rand_def)
  then show "commit_fills_block sample_suite (c_Rand sample_fresh)"
    using sample_public [of 200] sample_big by (simp add: commit_fills_block_def sample_fresh_def nil_conversation_def)
qed


text \<open>C26. The exception is real and needs no key: in an encrypted session, a data message with the right
  version and instance tags whose body ends less than 20 bytes after its encrypted part (where
  the authenticator should be) makes \<open>Receive\<close> panic, whatever it contains.\<close>

theorem truncated_data_panics:
  assumes "quiet v b" "ready v a" "tags_match v a b" "deserializeUnsigned body = Inr dm" "length body < length (unsigned_cache dm) + 20"
  shows "c_Receive S (Suc k) (encode (header_bytes v (c_ourInstanceTag a) (c_theirInstanceTag a) msgTypeData @ body)) b = Finished None"
proof -
  let ?hdr = "header_bytes v (c_ourInstanceTag a) (c_theirInstanceTag a) msgTypeData"
  have v: "c_version b = Some v" "c_msgState b = encrypted" "isOTREnabled (c_Policies b)"
    using assms(1) by (simp_all add: quiet_def ready_def)
  have "dataMsg_deserialize body v = None" using dataMsg_deserialize_panics_iff assms(4,5) by blast
  then have "receiveDataMessage S ?hdr body (learn_tag v a b) = None"
    using v by (simp add: receiveDataMessage_def processDataMessage_def processDataMessageWithRawErrors_def Let_def)
  moreover have "parseMessageHeader (?hdr @ body) b = Some (Inr (?hdr, body), learn_tag v a b)"
    using parseMessageHeader_match [OF assms(2) v(1) assms(3)] by simp
  ultimately have "receiveEncoded S (encode (?hdr @ body)) b = None"
    using v checkVersion_header [of b v] by (simp add: receiveEncoded_def decode_encode receiveDecoded_def)
  then show ?thesis using v guessMessageType_encode(5) by (simp add: c_Receive_def)
qed

theorem truncated_data_panics_witness:
  "c_Receive sample_suite 1 (encode (header_bytes OtrV3 256 257 msgTypeData @
      [0] @ [0, 0, 0, 1] @ [0, 0, 0, 1] @ [0, 0, 0, 1, 2] @ [0, 0, 0, 0, 0, 0, 0, 1] @ [0, 0, 0, 0]))
    (sample_session 130 257 200 256) = Finished None"
proof -
  let ?body = "[0] @ [0, 0, 0, 1] @ [0, 0, 0, 1] @ [0, 0, 0, 1, 2] @ [0, 0, 0, 0, 0, 0, 0, 1] @ [0, 0, 0, 0] :: bytes"
  have u: "\<exists>dm. deserializeUnsigned ?body = Inr dm \<and> length ?body < length (unsigned_cache dm) + 20"
    by (simp add: deserializeUnsigned_def ExtractWord_def ExtractMPI_def ExtractData_def DeserializeWord_def be_nat_def unsigned_cache_def)
  have "quiet OtrV3 (sample_session 130 257 200 256)" "ready OtrV3 (sample_session 200 256 130 257)" "tags_match OtrV3 (sample_session 200 256 130 257) (sample_session 130 257 200 256)"
    using sample_channel by (simp_all add: channel_def quiet_def)
  with u show ?thesis
    using truncated_data_panics [of OtrV3 "sample_session 130 257 200 256" "sample_session 200 256 130 257" ?body _ sample_suite 0] by auto
qed

declare not_None_eq [iff]

end
