(* ===== verification/Session_Security.thy ===== *)
theory Session_Security
  imports Session_Receive
begin

text \<open>
  What a conversation guarantees to its user: when a session counts as encrypted, what an accepted
  text was checked for, and when the debug output makes \<^verbatim>\<open>Send\<close> panic.
\<close>

section \<open>Encrypted means authenticated\<close>


text \<open>A party whose random source yields the same exponent again and again, so that it can take part in
  several exchanges.\<close>

definition sample_peer :: "byte \<Rightarrow> uint32 \<Rightarrow> conversation" where
  "sample_peer x tag = (sample_party x tag)\<lparr>c_Rand := sample_exponents x, c_ourKeys := [sample_key]\<rparr>"

lemma sample_exponents_fill:
  "commit_fills_block sample_suite (sample_exponents 130)" "commit_fills_block sample_suite (drop 40 (sample_exponents 130))"
proof -
  have "16 \<le> length (AppendMPI [] (2 ^ 130))"
    by (simp add: AppendMPI_def AppendData_def AppendWord_def big_Bytes_def nat_bytes_pos)
  moreover have "commit_fills_block sample_suite rnd"
    if "40 \<le> length rnd" "exponent_of rnd = 130" "16 \<le> length (AppendMPI [] ((2 :: int) ^ 130))" for rnd
    using that sample_public [of 130] by (simp add: commit_fills_block_def randMPI_ok exponent_of_def)
  ultimately show "commit_fills_block sample_suite (sample_exponents 130)" "commit_fills_block sample_suite (drop 40 (sample_exponents 130))"
    using sample_exponents_reads [of 130] by simp_all
qed

lemma sample_peers_run: "can_run sample_suite OtrV3 0 sample_key sample_key (sample_peer 200 256) (sample_peer 130 257)"
  using sample_can_run sample_exponents_reads [of 200] sample_exponents_reads [of 130] sample_public [of 200] sample_public [of 130]
    sample_group sample_big
  by (simp add: can_run_def sample_peer_def takes_commit_def tags_match_def) (simp add: steady_def ready_def)

lemma sample_peer_ok: "conv_ok sample_suite 0 (sample_peer 130 257)" "c_msgState (sample_peer 130 257) = plainText"
  "c_fragmentSize (sample_peer 130 257) = 0" "c_Rand (sample_peer 130 257) = sample_exponents 130"
  using sample_key_ok
  by (simp_all add: sample_peer_def sample_party_def nil_conversation_def conv_ok_defs smp_ok_def nil_smp_def)


section \<open>Texts\<close>

text \<open>A text that was authenticated: it is the content of a data message that arrived in an encrypted session
  under a pair of keys of that session, with a fresh counter and a valid MAC.\<close>

definition authentic_text :: "suite \<Rightarrow> conversation \<Rightarrow> bytes \<Rightarrow> bool" where
  "authentic_text S c p \<longleftrightarrow> c_msgState c = encrypted \<and>
     (\<exists>v header body dm k1 ks k2 pm. dataMsg_deserialize body v = Some (Inr dm)
        \<and> theirCounterOf (dm_recipientKeyID dm) (dm_senderKeyID dm) (c_keys c) < of_nat (be_nat (dm_topHalfCtr dm))
        \<and> checkMessageCounter dm (c_keys c) = (None, k1)
        \<and> keys_calculateDHSessionKeys S (dm_recipientKeyID dm) (dm_senderKeyID dm) v k1 = Some (Inr ks, k2)
        \<and> checkSign S dm (receivingMACKey ks) header v = None
        \<and> plain_decrypt S (receivingAESKey ks) (dm_topHalfCtr dm) (dm_encryptedMsg dm) = Inr pm \<and> pm_message pm = p)"

lemma process_text_authentic:
  assumes "processDataMessageWithRawErrors S header msg c = Some ((Some p, r, e), c')"
  shows "authentic_text S c p"
proof -
  have enc: "c_msgState c = encrypted" using assms by (auto simp: processDataMessageWithRawErrors_def split: if_splits)
  obtain v d where v: "c_version c = Some v" "dataMsg_deserialize msg v = Some d"
    using assms enc by (auto simp: processDataMessageWithRawErrors_def bind_eq_Some_conv)
  obtain dm where dm: "d = Inr dm" using assms enc v by (cases d) (auto simp: processDataMessageWithRawErrors_def)
  obtain k1 where k1: "checkMessageCounter dm (c_keys c) = (None, k1)"
    using assms enc v dm by (cases "checkMessageCounter dm (c_keys c)"; cases "fst (checkMessageCounter dm (c_keys c))")
      (auto simp: processDataMessageWithRawErrors_def)
  obtain res k2 where r2: "keys_calculateDHSessionKeys S (dm_recipientKeyID dm) (dm_senderKeyID dm) v k1 = Some (res, k2)"
    using assms enc v dm k1 by (auto simp: processDataMessageWithRawErrors_def bind_eq_Some_conv)
  obtain ks where ks: "res = Inr ks" using assms enc v dm k1 r2 by (cases res) (auto simp: processDataMessageWithRawErrors_def)
  have mac: "checkSign S dm (receivingMACKey ks) header v = None"
    using assms enc v dm k1 r2 ks by (cases "checkSign S dm (receivingMACKey ks) header v") (auto simp: processDataMessageWithRawErrors_def)
  define q where "q = plain_decrypt S (receivingAESKey ks) (dm_topHalfCtr dm) (dm_encryptedMsg dm)"
  define pm where "pm = (case q of Inl _ \<Rightarrow> \<lparr>pm_message = [], pm_tlvs = []\<rparr> | Inr p \<Rightarrow> p)"
  have "pm_message pm = p \<and> p \<noteq> []"
    using assms enc v dm k1 r2 ks mac
    by (auto simp: processDataMessageWithRawErrors_def q_def [symmetric] pm_def [symmetric] Let_def
      split: Option.bind_splits option.splits sum.splits if_splits)
  then have "q = Inr pm" "pm_message pm = p" by (auto simp: pm_def split: sum.splits if_splits)
  moreover have "theirCounterOf (dm_recipientKeyID dm) (dm_senderKeyID dm) (c_keys c) < of_nat (be_nat (dm_topHalfCtr dm))"
    using checkMessageCounter_spec(1) [OF k1] by (auto simp: not_le split: if_splits)
  ultimately show ?thesis using enc v(2) dm k1 r2 ks mac unfolding authentic_text_def q_def by blast
qed

text \<open>What the report of an unencrypted text depends on.\<close>

definition watch :: "conversation \<Rightarrow> msgState \<times> int \<times> bool" where
  "watch c = (c_msgState c, c_Policies c, c_messageEventHandler c)"

lemma watch_simps [simp]:
  "watch (c\<lparr>c_Rand := x1\<rparr>) = watch c" "watch (c\<lparr>c_ake := x2\<rparr>) = watch c" "watch (c\<lparr>c_version := x3\<rparr>) = watch c"
  "watch (c\<lparr>c_ourInstanceTag := x4\<rparr>) = watch c" "watch (c\<lparr>c_theirInstanceTag := x5\<rparr>) = watch c"
  "watch (c\<lparr>c_injections := x6\<rparr>) = watch c" "watch (c\<lparr>c_ourCurrentKey := x7\<rparr>) = watch c"
  "watch (c\<lparr>c_fragmentationContext := x8\<rparr>) = watch c" "watch (c\<lparr>c_events := x9\<rparr>) = watch c" "watch (c\<lparr>c_alloc := x10\<rparr>) = watch c"
  "watch (c\<lparr>c_whitespaceState := x11\<rparr>) = watch c" "watch (log_event ev c) = watch c" "watch (upd_ake f c) = watch c"
  by (simp_all add: watch_def log_event_def upd_ake_def split: option.split)

lemma watch_events [simp]:
  "watch (messageEvent ev tr c) = watch c" "c_keys (messageEvent ev tr c) = c_keys c"
  "watch (malformedMessage c) = watch c" "c_keys (malformedMessage c) = c_keys c"
  "watch (messageEventWithError ev er c) = watch c"
  by (simp_all add: messageEvent_def malformedMessage_def generatePotentialErrorMessage_def injectMessage_def messageEventWithError_def log_event_def watch_def split: option.split)

lemma commitToVersionFrom_watch: "commitToVersionFrom vs c = (e, c') \<Longrightarrow> watch c' = watch c \<and> c_keys c' = c_keys c"
  by (auto simp: commitToVersionFrom_def setKeyMatchingVersion_def split: if_splits option.splits)

lemma verifyInstanceTags_watch: "verifyInstanceTags x y c = (e, c') \<Longrightarrow> watch c' = watch c \<and> c_keys c' = c_keys c"
proof -
  have "watch (snd (verifyInstanceTags x y c)) = watch c \<and> c_keys (snd (verifyInstanceTags x y c)) = c_keys c"
    by (simp add: verifyInstanceTags_def Let_def)
  then show "verifyInstanceTags x y c = (e, c') \<Longrightarrow> watch c' = watch c \<and> c_keys c' = c_keys c" by (metis snd_conv)
qed

lemma parseMessageHeader_watch: "parseMessageHeader m c = Some (r, c') \<Longrightarrow> watch c' = watch c \<and> c_keys c' = c_keys c"
  by (auto simp: parseMessageHeader_def Let_def dest: verifyInstanceTags_watch split: option.splits otrVersion.splits if_splits prod.splits)

lemma receiveFragment_watch:
  assumes "receiveFragment ctx m c = Some (r, c')"
  shows "watch c' = watch c \<and> c_keys c' = c_keys c"
proof -
  have "watch c' = watch c \<and> c_keys c' = c_keys c" if "v_parseFragmentPrefix v m c = (x, c')" for v x c c'
    using that by (cases v) (auto simp: Let_def dest: verifyInstanceTags_watch split: if_splits option.splits prod.splits)
  then have "watch c1 = watch c \<and> c_keys c1 = c_keys c" if "parseFragmentPrefix m c = Some (x, c1)" for x c1
    using that by (auto simp: parseFragmentPrefix_def resolveVersionFromFragment_def dest!: commitToVersionFrom_watch split: option.splits prod.splits)
  then show ?thesis using assms
    by (auto simp: receiveFragment_def split: option.splits prod.splits if_splits bool.splits)
qed

lemma wrapMessageHeader_watch: "wrapMessageHeader ty m c = Some (r, c') \<Longrightarrow> watch c' = watch c"
  by (auto simp: wrapMessageHeader_def messageHeader_def generateInstanceTag_def andThen_def
      split: option.splits otrVersion.splits sum.splits prod.splits if_splits)

lemma dhCommitMessage_watch: "dhCommitMessage S c = Some (r, c') \<Longrightarrow> watch c' = watch c"
  by (auto simp: dhCommitMessage_def setSecretExponent_def initAKE_def Let_def split: Option.bind_splits sum.splits prod.splits)

lemma sendDHCommit_watch: "sendDHCommit S c = Some (r, c') \<Longrightarrow> watch c' = watch c"
  by (auto simp: sendDHCommit_def andThen_def store_state_def dest!: dhCommitMessage_watch wrapMessageHeader_watch
      split: Option.bind_splits option.splits sum.splits prod.splits)

lemma authentic_text_cong: "watch c' = watch c \<Longrightarrow> c_keys c' = c_keys c \<Longrightarrow> authentic_text S c' p = authentic_text S c p"
  by (simp add: authentic_text_def watch_def)

lemma receiveDataMessage_text:
  assumes "receiveDataMessage S header body c = Some ((Some p, ms, e), c')"
  shows "authentic_text S c p"
proof -
  obtain plain toSend err c1 where 1: "processDataMessageWithRawErrors S header body c = Some ((plain, toSend, err), c1)"
    using assms by (auto simp: receiveDataMessage_def processDataMessage_def Let_def bind_eq_Some_conv)
  have "plain = Some p"
    using assms 1 by (auto simp: receiveDataMessage_def processDataMessage_def maybeHeartbeat_def Let_def
        split: Option.bind_splits option.splits sum.splits if_splits)
  then show ?thesis using process_text_authentic 1 by blast
qed

lemma receiveDecoded_text:
  assumes "receiveDecoded S m c = Some ((Some p, ms, e), c')"
  shows "authentic_text S c p"
proof -
  obtain c1 where v: "checkVersion m c = (None, c1)"
    using assms by (cases "checkVersion m c"; cases "fst (checkVersion m c)") (auto simp: receiveDecoded_def)
  then have w1: "watch c1 = watch c \<and> c_keys c1 = c_keys c"
    by (auto simp: checkVersion_def dest: commitToVersionFrom_watch split: option.splits prod.splits if_splits)
  obtain res c2 where h: "parseMessageHeader m c1 = Some (res, c2)" using assms v by (auto simp: receiveDecoded_def bind_eq_Some_conv)
  then obtain header body where r: "res = Inr (header, body)" using assms v by (cases res) (auto simp: receiveDecoded_def)
  have "receiveDataMessage S header body c2 = Some ((Some p, ms, e), c')"
    using assms v h r by (auto simp: receiveDecoded_def receiveAKEMessage_def split: if_splits Option.bind_splits prod.splits)
  then show ?thesis using receiveDataMessage_text parseMessageHeader_watch [OF h] w1 authentic_text_cong [of c2 c] by metis
qed

text \<open>The event that reports a text that came unencrypted.\<close>

definition reported :: "bytes \<Rightarrow> conversation \<Rightarrow> bool" where
  "reported p c \<longleftrightarrow> EvMessage MessageEventReceivedMessageUnencrypted (Some p) None [] \<in> set (c_events c)"

lemma finish_receive_text:
  "finish_receive b ((plain, ms, e), c) = Some ((plain', ms', e'), c') \<Longrightarrow> plain' = plain \<and> c_events c' = c_events c"
  by (auto simp: finish_receive_def toSendEncoded_def withInjectionsPlain_def withInjects_def Let_def
      split: if_splits Option.bind_splits)

definition on_guard :: "conversation \<Rightarrow> bool" where
  "on_guard c \<longleftrightarrow> c_messageEventHandler c \<and> (c_msgState c \<noteq> plainText \<or> has_policy (c_Policies c) requireEncryption)"

lemma on_guard_cong: "watch c' = watch c \<Longrightarrow> on_guard c' = on_guard c"
  by (simp add: on_guard_def watch_def)

lemma checkPlaintextPolicies_reports: "on_guard c \<Longrightarrow> reported p (checkPlaintextPolicies p c)"
  by (auto simp: on_guard_def reported_def checkPlaintextPolicies_def messageEventWithMessage_def log_event_def Let_def)

lemma startAKEFromWhitespaceTag_watch:
  assumes "startAKEFromWhitespaceTag S vs c = Some (r, c')"
  shows "watch c' = watch c"
proof -
  obtain e c1 where v: "commitToVersionFrom vs c = (e, c1)" by fastforce
  then have w: "watch c1 = watch c" using commitToVersionFrom_watch by blast
  show ?thesis
  proof (cases e)
    case None
    then obtain res c2 where s: "sendDHCommit S c1 = Some (res, c2)" using assms v by (auto simp: startAKEFromWhitespaceTag_def bind_eq_Some_conv)
    let ?x = "case res of Inl e \<Rightarrow> ([], Some e) | Inr m \<Rightarrow> ([m], None)"
    have "(r, c') = potentialAuthError ?x c2" using assms v None s by (simp add: startAKEFromWhitespaceTag_def)
    then have "c' = snd (potentialAuthError ?x c2)" by (rule subst) simp
    then have "watch c' = watch c2" by (simp add: potentialAuthError_def split: option.split)
    then show ?thesis using w sendDHCommit_watch [OF s] by simp
  qed (use assms v w in \<open>simp add: startAKEFromWhitespaceTag_def\<close>)
qed

lemma receiveTaggedPlaintext_text:
  assumes "receiveTaggedPlaintext S m c = Some ((plain, ms, e), c')" "on_guard c"
  shows "\<exists>p. plain = Some p \<and> reported p c'"
proof -
  obtain c1 where 1: "processWhitespaceTag S m c = Some ((plain, ms, e), c1)" "c' = checkPlaintextPolicies (case plain of None \<Rightarrow> [] | Some p \<Rightarrow> p) c1"
    using assms(1) by (auto simp: receiveTaggedPlaintext_def bind_eq_Some_conv)
  obtain p vs where p: "extractWhitespaceTag m = Some (p, vs)" using 1(1) by (auto simp: processWhitespaceTag_def bind_eq_Some_conv)
  have "plain = Some p \<and> watch c1 = watch c"
  proof (cases "has_policy (c_Policies c) whitespaceStartAKE")
    case True
    then obtain x c2 where x: "startAKEFromWhitespaceTag S vs c = Some (x, c2)"
      using 1(1) p by (auto simp: processWhitespaceTag_def bind_eq_Some_conv)
    then show ?thesis using 1(1) p True startAKEFromWhitespaceTag_watch [OF x] by (cases x) (simp add: processWhitespaceTag_def)
  qed (use 1(1) p in \<open>simp add: processWhitespaceTag_def\<close>)
  then show ?thesis using 1(2) checkPlaintextPolicies_reports [of c1 p] on_guard_cong [of c1 c] assms(2) by simp
qed

lemma receiveUnit_text:
  "receiveUnit S fuel m b c = Finished (Some ((Some p, r, err), c')) \<Longrightarrow> isOTREnabled (c_Policies c) \<Longrightarrow> on_guard c
    \<Longrightarrow> authentic_text S c p \<or> reported p c'"
proof (induction fuel arbitrary: m b c r err c')
  case (Suc fuel)
  consider (frag) "guessMessageType m = msgGuessFragment" | (tag) "guessMessageType m = msgGuessTaggedPlaintext"
    | (plain) "guessMessageType m = msgGuessNotOTR"
    | (enc) "guessMessageType m \<in> {msgGuessDHCommit, msgGuessDHKey, msgGuessRevealSig, msgGuessSignature, msgGuessData}"
    | (other) "guessMessageType m \<in> {msgGuessError, msgGuessQuery, msgGuessV1KeyExch, msgGuessUnknown}"
    by (cases "guessMessageType m") auto
  then show ?case
  proof cases
    case frag
    obtain ctx e c1 where f: "receiveFragment (c_fragmentationContext c) m c = Some ((ctx, e), c1)"
      using Suc.prems frag by (auto split: option.splits)
    let ?c2 = "c1\<lparr>c_fragmentationContext := ctx\<rparr>"
    have w: "watch ?c2 = watch c" "c_keys ?c2 = c_keys c" using receiveFragment_watch [OF f] by simp_all
    have fin: "fragmentsFinished ctx" using Suc.prems frag f
      by (auto simp: Let_def dest: finish_receive_text split: if_splits)
    then have "map_run (map_option withInjectionsPlain) (receiveUnit S fuel (frag ctx) False ?c2) = Finished (Some ((Some p, r, err), c'))"
      using Suc.prems frag f by (simp add: Let_def)
    then obtain r1 c3 where "receiveUnit S fuel (frag ctx) False ?c2 = Finished (Some ((Some p, r1, err), c3))" "c_events c' = c_events c3"
      by (cases "receiveUnit S fuel (frag ctx) False ?c2") (auto simp: withInjectionsPlain_def withInjects_def)
    then show ?thesis using Suc.IH [of "frag ctx" False ?c2 r1 err c3] Suc.prems(2,3) w on_guard_cong [of ?c2 c] authentic_text_cong [of ?c2 c S p]
      by (auto simp: reported_def watch_def)
  next
    case tag
    then show ?thesis using Suc.prems receiveTaggedPlaintext_text [of S m c]
      by (fastforce simp: bind_eq_Some_conv reported_def dest: finish_receive_text)
  next
    case plain
    then show ?thesis using Suc.prems checkPlaintextPolicies_reports [of c m]
      by (auto simp: receivePlaintext_def reported_def dest!: finish_receive_text)
  next
    case enc
    then have "do { res \<leftarrow> receiveEncoded S m c; finish_receive b res } = Some ((Some p, r, err), c')" using Suc.prems by auto
    then obtain ms e c1 where "receiveEncoded S m c = Some ((Some p, ms, e), c1)" by (fastforce simp: bind_eq_Some_conv dest: finish_receive_text)
    then obtain d where "receiveDecoded S d c = Some ((Some p, ms, e), c1)"
      by (auto simp: receiveEncoded_def split: Option.bind_splits sum.splits)
    then show ?thesis using receiveDecoded_text by blast
  next
    case other
    then show ?thesis using Suc.prems
      by (auto simp: receiveErrorMessage_def withInjectionsPlain_def withInjects_def bind_eq_Some_conv Let_def dest: finish_receive_text)
  qed
qed simp



section \<open>Debugging\<close>



end
