(* ===== verification/Dialogue.thy ===== *)
theory Dialogue
  imports Sample
begin

text \<open>
  Conversations of any length. A channel that has delivered a message is a channel again; what remains to be
  shown is that nothing runs out: counters, key ids, the queue of MAC keys and the random source
  have room for as many messages as planned, and the D-H values of the two sides stay apart.
\<close>

section \<open>Resources\<close>

text \<open>Room for \<open>n\<close> more messages, sent or received.\<close>

definition plenty :: "nat \<Rightarrow> conversation \<Rightarrow> bool" where
  "plenty n c \<longleftrightarrow> (\<forall>i j. unat (ourCounterOf i j (c_keys c)) + 2 * n < 2 ^ 64)
     \<and> unat (km_ourKeyID (c_keys c)) + n < 2 ^ 32
     \<and> 20 * (size (mac_keys (c_keys c)) + 2 * n) < 2 ^ 32 \<and> 40 * n \<le> length (c_Rand c)"

text \<open>The D-H values a conversation has in use or will draw.\<close>

definition publics :: "suite \<Rightarrow> conversation \<Rightarrow> int option set" where
  "publics S c = {kp_pub (ourCurrentDHKeys (c_keys c)), kp_pub (ourPreviousDHKeys (c_keys c))}
     \<union> {Some (modExp S (dh_g1 S) (big_SetBytes (take 40 (drop (40 * i) (c_Rand c))))) | i. 40 * Suc i \<le> length (c_Rand c)}"

lemma succ_nonzero: "unat (w :: 'a :: len word) + 1 < 2 ^ LENGTH('a) \<Longrightarrow> w + 1 \<noteq> 0"
  using unat_word_ariths(1) [of w 1] by auto

lemma plenty_room:
  assumes "plenty (Suc n) c"
  shows "room_to_send c" "room_to_receive c"
proof -
  have "ourCounterOf i j (c_keys c) + 1 \<noteq> 0" for i j
  proof (rule succ_nonzero)
    have "unat (ourCounterOf i j (c_keys c)) + 2 * Suc n < 2 ^ 64" using assms unfolding plenty_def by blast
    then show "unat (ourCounterOf i j (c_keys c)) + 1 < 2 ^ LENGTH(64)" by simp
  qed
  moreover have "km_ourKeyID (c_keys c) + 1 \<noteq> 0" using assms by (intro succ_nonzero) (simp add: plenty_def)
  moreover have "length (km_oldMACKeys (c_keys c)) \<le> size (mac_keys (c_keys c))" by (simp add: mac_keys_def)
  ultimately show "room_to_send c" "room_to_receive c"
    using assms by (simp_all add: plenty_def room_to_send_def room_to_receive_def)
qed

abbreviation conv_uses :: "suite \<Rightarrow> conversation \<Rightarrow> conversation \<Rightarrow> bool" where
  "conv_uses S c c' \<equiv> uses S (c_keys c, c_Rand c) (c_keys c', c_Rand c')"

lemma plenty_uses:
  assumes "conv_uses S c c'" "plenty (Suc n) c"
  shows "plenty n c'"
proof -
  have "unat (ourCounterOf i j (c_keys c')) + 2 * n < 2 ^ 64" for i j
  proof -
    have "unat (ourCounterOf i j (c_keys c')) \<le> unat (ourCounterOf i j (c_keys c)) + 2" using assms(1) by (auto simp: uses_def)
    moreover have "unat (ourCounterOf i j (c_keys c)) + 2 * Suc n < 2 ^ 64" using assms(2) unfolding plenty_def by blast
    ultimately show ?thesis by simp
  qed
  moreover have "length (c_Rand c') = length (c_Rand c) \<or> length (c_Rand c') = length (c_Rand c) - 40" using assms(1) by (auto simp: uses_def)
  ultimately show ?thesis using assms unfolding plenty_def uses_def by auto
qed

lemma publics_uses:
  assumes "conv_uses S c c'"
  shows "publics S c' \<subseteq> publics S c"
proof -
  consider "ourCurrentDHKeys (c_keys c') = ourCurrentDHKeys (c_keys c)" "ourPreviousDHKeys (c_keys c') = ourPreviousDHKeys (c_keys c)"
      "c_Rand c' = c_Rand c"
    | "ourPreviousDHKeys (c_keys c') = ourCurrentDHKeys (c_keys c)" "40 \<le> length (c_Rand c)" "c_Rand c' = drop 40 (c_Rand c)"
      "kp_pub (ourCurrentDHKeys (c_keys c')) = Some (modExp S (dh_g1 S) (big_SetBytes (take 40 (c_Rand c))))"
    using assms unfolding uses_def by auto
  then show ?thesis
  proof cases
    case 2
    have "Some (modExp S (dh_g1 S) (big_SetBytes (take 40 (drop (40 * i) (c_Rand c'))))) \<in> publics S c" if "40 * Suc i \<le> length (c_Rand c')" for i
    proof -
      have "drop (40 * i) (c_Rand c') = drop (40 * Suc i) (c_Rand c)" "40 * Suc (Suc i) \<le> length (c_Rand c)"
        using 2(2,3) that by (simp_all add: add.commute)
      then show ?thesis unfolding publics_def by (intro UnI2) (auto intro!: exI [of _ "Suc i"])
    qed
    moreover have "kp_pub (ourCurrentDHKeys (c_keys c')) \<in> publics S c"
      using 2(2,4) unfolding publics_def by (intro UnI2) (auto intro!: exI [of _ 0])
    ultimately show ?thesis using 2(1) by (auto simp: publics_def)
  qed (simp add: publics_def)
qed

section \<open>Dialogues\<close>

text \<open>Each entry of a dialogue says whether the first side sends, and what. The wire message goes from \<open>Send\<close> on one
  side to \<open>Receive\<close> on the other; the result is what the receiver is shown for each entry. Heartbeats that
  a receiver emits are not carried back.\<close>

fun run_dialogue ::
    "suite \<Rightarrow> (bool \<times> bytes) list \<Rightarrow> conversation \<Rightarrow> conversation \<Rightarrow> (bytes option list \<times> conversation \<times> conversation) option" where
  "run_dialogue S [] a b = Some ([], a, b)"
| "run_dialogue S ((True, m) # ms) a b =
     (case c_Send S m [] a of
        Some (([w], None), a') \<Rightarrow>
          (case c_Receive S 1 w b of
             Finished (Some ((plain, _, None), b')) \<Rightarrow> map_option (\<lambda>(ps, ends). (plain # ps, ends)) (run_dialogue S ms a' b')
           | _ \<Rightarrow> None)
      | _ \<Rightarrow> None)"
| "run_dialogue S ((False, m) # ms) a b =
     (case c_Send S m [] b of
        Some (([w], None), b') \<Rightarrow>
          (case c_Receive S 1 w a of
             Finished (Some ((plain, _, None), a')) \<Rightarrow> map_option (\<lambda>(ps, ends). (plain # ps, ends)) (run_dialogue S ms a' b')
           | _ \<Rightarrow> None)
      | _ \<Rightarrow> None)"

text \<open>What a conversation shows its user for each message of a sequence, and where it ends up.\<close>

fun receive_all :: "suite \<Rightarrow> bytes list \<Rightarrow> conversation \<Rightarrow> (bytes option list \<times> conversation) option" where
  "receive_all S [] c = Some ([], c)"
| "receive_all S (m # ms) c =
     (case c_Receive S 1 m c of
        Finished (Some ((plain, _, _), c1)) \<Rightarrow>
          map_option (\<lambda>(plains, c'). (plain # plains, c')) (receive_all S ms c1)
      | _ \<Rightarrow> None)"

text \<open>The texts of a retransmission: as they were, or through the transformer.\<close>

definition resent_texts :: "bool \<Rightarrow> conversation \<Rightarrow> messageToResend list \<Rightarrow> bytes list" where
  "resent_texts resending c msgs = map (\<lambda>x. if resending then resendMessageTransformer c (mr_m x) else mr_m x) msgs"

lemma resent_texts_cong:
  "resendMessageTransformer c' = resendMessageTransformer c \<Longrightarrow> resent_texts resending c' msgs = resent_texts resending c msgs"
  by (simp add: resent_texts_def)

definition queued_texts :: "conversation \<Rightarrow> bytes list" where
  "queued_texts c = resent_texts (mayRetransmit (c_resend c) = retransmitWithPrefix) c (resend_m (c_resend c))"

definition shown :: "bytes \<Rightarrow> bytes option" where
  "shown m = (if m = [] then None else Some m)"

lemma channel_sym: "channel S v a b \<Longrightarrow> channel S v b a"
  by (auto simp: channel_def linked_sym)

lemma channel_publics:
  assumes "channel S v a b" "publics S a \<inter> publics S b = {}"
  shows "kp_pub (ourPreviousDHKeys (c_keys a)) \<noteq> theirCurrentDHPubKey (c_keys a)"
proof -
  have "theirCurrentDHPubKey (c_keys a) \<in> publics S b" using assms(1) by (auto simp: channel_def linked_def knows_def publics_def)
  then show ?thesis using assms(2) by (auto simp: publics_def)
qed

lemma channel_events:
  assumes "channel S v c b"
  shows "channel S v (fold (\<lambda>msgx. messageEvent e (mr_opaque msgx)) ms c) b
    \<and> c_resend (fold (\<lambda>msgx. messageEvent e (mr_opaque msgx)) ms c) = c_resend c"
proof -
  have "channel S v (messageEvent e t c) b = channel S v c b \<and> c_resend (messageEvent e t c) = c_resend c" for t c
    by (simp add: channel_def quiet_def ready_def tags_match_def messageEvent_def log_event_def)
  then show ?thesis using assms by (induction ms arbitrary: c) simp_all
qed

context dh_suite
begin

lemma dialogue_step:
  assumes "channel S v a b" "sendable m" "plenty (Suc n) a" "plenty (Suc n) b" "publics S a \<inter> publics S b = {}"
  shows "\<exists>w a' b' reply. c_Send S m [] a = Some (([w], None), a') \<and> c_Receive S 1 w b = Finished (Some ((shown m, reply, None), b'))
    \<and> channel S v a' b' \<and> plenty n a' \<and> plenty n b' \<and> publics S a' \<inter> publics S b' = {}"
proof -
  obtain w a' b' reply where st: "c_Send S m [] a = Some (([w], None), a')" "c_Receive S 1 w b = Finished (Some ((shown m, reply, None), b'))"
    "channel S v a' b'" "conv_uses S a a'" "conv_uses S b b'"
    using channel_delivers [OF assms(1,2) channel_publics [OF assms(1,5)] plenty_room(1) [OF assms(3)] plenty_room(2) [OF assms(4)], of "[]" 0]
    unfolding shown_def One_nat_def by blast
  then show ?thesis
    using plenty_uses [OF st(4) assms(3)] plenty_uses [OF st(5) assms(4)] publics_uses [OF st(4)] publics_uses [OF st(5)] assms(5) by blast
qed

text \<open>The messages of a queue are generated one after the other before the first is received.\<close>

lemma retransmit_loop_delivers:
  assumes "channel S v a b" "retransmitting (c_resend a)" "\<forall>m \<in> set (resent_texts resending a msgs). sendable m"
    "plenty (length msgs) a" "plenty (length msgs) b" "publics S a \<inter> publics S b = {}"
  shows "\<exists>ws a' b'. retransmit_loop S resending msgs a = Some (Inr (map Some ws), a')
    \<and> receive_all S (map encode ws) b = Some (map shown (resent_texts resending a msgs), b')
    \<and> channel S v a' b' \<and> resend_m (c_resend a') = resend_m (c_resend a)"
  using assms
proof (induction msgs arbitrary: a b)
  case (Cons x msgs)
  define m where "m = (if resending then resendMessageTransformer a (mr_m x) else mr_m x)"
  have q: "quiet v a" and l: "linked S (c_keys a) (c_keys b)" and m: "sendable m" using Cons.prems by (auto simp: channel_def resent_texts_def m_def)
  let ?D = "sent_msg S v m messageFlagNormal [] a"
  obtain ks k1 y k3 where calc:
      "keys_calculateDHSessionKeys S (km_ourKeyID (c_keys a) - 1) (km_theirKeyID (c_keys a)) v (c_keys a) = Some (Inr ks, k1)"
      "kp_pub (ourCurrentDHKeys (c_keys a)) = Some y" and s: "keys_sent (c_keys a) k3" "macs_ok k3" "sent_at_most_one (c_keys a) k3"
    and gen: "genDataMsg S m [] a = Some (Inr (?D ks y, extraKey ks), lastMessage m [] (updateMayRetransmitTo noRetransmit (a\<lparr>c_keys := k3\<rparr>)))"
      "wrap_dataMsg (?D ks y) (lastMessage m [] (updateMayRetransmitTo noRetransmit (a\<lparr>c_keys := k3\<rparr>)))
        = Some (Inr (wire_msg v a (?D ks y)), lastMessage m [] (updateMayRetransmitTo noRetransmit (a\<lparr>c_keys := k3\<rparr>)))"
    using genDataMsg_linked [OF q l, of m messageFlagNormal "[]"] unfolding genDataMsg_def by blast
  let ?a' = "lastMessage m [] (updateMayRetransmitTo noRetransmit (a\<lparr>c_keys := k3\<rparr>))" and ?w = "wire_msg v a (?D ks y)"
  have a': "quiet v ?a'" "same_peer a ?a'" "conv_uses S a ?a'" "retransmitting (c_resend ?a')" "resend_m (c_resend ?a') = resend_m (c_resend a)"
    "resendMessageTransformer ?a' = resendMessageTransformer a" "c_keys ?a' = k3"
    using q s(2) sent_uses [OF s(3)] Cons.prems(2)
    by (simp_all add: quiet_def ready_def same_peer_def lastMessage_def updateMayRetransmitTo_def later_def resendMessageTransformer_def)
  obtain b' reply where rcv: "c_Receive S 1 (encode ?w) b = Finished (Some ((shown m, reply, None), b'))"
    "quiet v b'" "linked S k3 (c_keys b')" "same_peer (learn_tag v a b) b'" "conv_uses S b b'"
    using receive_sent [OF Cons.prems(1) m channel_publics [OF Cons.prems(1,6)] plenty_room(1) plenty_room(2) s(1) calc, of "length msgs" "length msgs" 0]
      Cons.prems(4,5) unfolding shown_def One_nat_def by auto
  have ch: "channel S v ?a' b'" using channel_again [OF Cons.prems(1) a'(1,2) rcv(2)] rcv(3,4) a'(7) by simp
  have t: "resent_texts resending ?a' msgs = resent_texts resending a msgs" by (rule resent_texts_cong [OF a'(6)])
  have pl: "plenty (length msgs) ?a'" "plenty (length msgs) b'" "publics S ?a' \<inter> publics S b' = {}"
    using plenty_uses [OF a'(3)] plenty_uses [OF rcv(5)] Cons.prems(4,5) publics_uses [OF a'(3)] publics_uses [OF rcv(5)] Cons.prems(6)
    by (simp, simp, blast)
  have rest: "\<forall>m \<in> set (resent_texts resending a msgs). sendable m" using Cons.prems(3) by (simp add: resent_texts_def)
  obtain ws a2 b2 where ih: "retransmit_loop S resending msgs ?a' = Some (Inr (map Some ws), a2)"
    "receive_all S (map encode ws) b' = Some (map shown (resent_texts resending a msgs), b2)" "channel S v a2 b2"
    "resend_m (c_resend a2) = resend_m (c_resend a)"
    using Cons.IH [OF ch a'(4) _ pl] rest unfolding t a'(5) by blast
  have "retransmit_loop S resending (x # msgs) a = Some (Inr (map Some (?w # ws)), a2)"
    using gen ih(1) by (simp add: Let_def flip: m_def)
  moreover have "receive_all S (map encode (?w # ws)) b = Some (map shown (resent_texts resending a (x # msgs)), b2)"
    using rcv(1) ih(2) by (simp add: resent_texts_def flip: m_def)
  ultimately show ?case using ih(3,4) by blast
qed (simp add: resent_texts_def)

lemma retransmit_delivers:
  assumes "channel S v a b" "\<forall>m \<in> set (queued_texts a). sendable m"
    "plenty (length (resend_m (c_resend a))) a" "plenty (length (resend_m (c_resend a))) b" "publics S a \<inter> publics S b = {}"
  shows "\<exists>ws a' b'. retransmit S a = Some (Inr (map Some ws), a') \<and> receive_all S (map encode ws) b = Some (map shown (queued_texts a), b')
    \<and> channel S v a' b' \<and> resend_m (c_resend a') = []"
proof -
  let ?msgs = "resend_m (c_resend a)" and ?re = "mayRetransmit (c_resend a) = retransmitWithPrefix"
  let ?a = "set_retransmitting True (a\<lparr>c_resend := (c_resend a)\<lparr>resend_m := []\<rparr>\<rparr>)"
  have "channel S v ?a b" "retransmitting (c_resend ?a)" "resent_texts ?re ?a ?msgs = queued_texts a"
    "plenty (length ?msgs) ?a" "publics S ?a = publics S a"
    using assms(1,3) by (auto simp: channel_def quiet_def ready_def tags_match_def set_retransmitting_def queued_texts_def resent_texts_def
        resendMessageTransformer_def plenty_def publics_def)
  then obtain ws a1 b' where l: "retransmit_loop S ?re ?msgs ?a = Some (Inr (map Some ws), a1)"
    "receive_all S (map encode ws) b = Some (map shown (queued_texts a), b')" "channel S v a1 b'" "resend_m (c_resend a1) = []"
    using retransmit_loop_delivers [of v ?a b ?re ?msgs] assms(2,4,5) by (auto simp: set_retransmitting_def)
  define ev where "ev = (if ?re then MessageEventMessageResent else MessageEventMessageSent)"
  define a2 where "a2 = fold (\<lambda>msgx. messageEvent ev (mr_opaque msgx)) ?msgs a1"
  have "channel S v a2 b' \<and> resend_m (c_resend a2) = []" using channel_events [OF l(3), of ev ?msgs] l(4) unfolding a2_def by simp
  moreover have "retransmit S a = Some (Inr (map Some ws), set_retransmitting False (updateLastSent a2))"
    using l(1) by (simp add: retransmit_def Let_def a2_def ev_def)
  moreover have "channel S v (set_retransmitting False (updateLastSent c)) b' = channel S v c b'"
      "resend_m (c_resend (set_retransmitting False (updateLastSent c))) = resend_m (c_resend c)" for c
    by (simp_all add: channel_def quiet_def ready_def tags_match_def set_retransmitting_def updateLastSent_def time_Now_def)
  ultimately show ?thesis
    using l(2) by (intro exI [of _ ws] exI [of _ "set_retransmitting False (updateLastSent a2)"] exI [of _ b']) simp
qed

lemma dialogue_delivers:
  assumes "channel S v a b" "\<forall>(d, m) \<in> set ms. sendable m" "plenty (length ms) a" "plenty (length ms) b" "publics S a \<inter> publics S b = {}"
  shows "\<exists>a' b'. run_dialogue S ms a b = Some (map (shown \<circ> snd) ms, a', b') \<and> channel S v a' b'"
  using assms
proof (induction ms arbitrary: a b)
  case (Cons x ms)
  obtain d m where x: "x = (d, m)" by fastforce
  show ?case
  proof (cases d)
    case True
    obtain w a' b' reply where st: "c_Send S m [] a = Some (([w], None), a')" "c_Receive S 1 w b = Finished (Some ((shown m, reply, None), b'))"
      "channel S v a' b'" "plenty (length ms) a'" "plenty (length ms) b'" "publics S a' \<inter> publics S b' = {}"
      using dialogue_step [of v a b m "length ms"] Cons.prems x by auto
    then show ?thesis using Cons.IH [of a' b'] Cons.prems(2) x True by auto
  next
    case False
    have "publics S b \<inter> publics S a = {}" using Cons.prems(5) by blast
    then obtain w a' b' reply where st: "c_Send S m [] b = Some (([w], None), b')" "c_Receive S 1 w a = Finished (Some ((shown m, reply, None), a'))"
      "channel S v b' a'" "plenty (length ms) b'" "plenty (length ms) a'" "publics S b' \<inter> publics S a' = {}"
      using dialogue_step [of v b a m "length ms"] Cons.prems x channel_sym by auto
    moreover have "publics S a' \<inter> publics S b' = {}" using st(6) by blast
    ultimately show ?thesis using Cons.IH [of a' b'] Cons.prems(2) x False channel_sym [of S v b' a'] by auto
  qed
qed simp

end

section \<open>An example\<close>

definition sample_talker :: "byte \<Rightarrow> uint32 \<Rightarrow> byte \<Rightarrow> uint32 \<Rightarrow> conversation" where
  "sample_talker x tag y tag' = (sample_session x tag y tag')\<lparr>c_Rand := sample_exponents x,
     c_keys := first_keys sample_suite (uint x) (modExp sample_suite (dh_g1 sample_suite) (uint y)) (sample_exponents x)\<rparr>"

lemma sample_talker_fields [simp]:
  "c_ourInstanceTag (sample_talker x t y t') = t" "c_theirInstanceTag (sample_talker x t y t') = t'"
  "c_Rand (sample_talker x t y t') = sample_exponents x"
  "c_keys (sample_talker x t y t') = first_keys sample_suite (uint x) (modExp sample_suite (dh_g1 sample_suite) (uint y)) (sample_exponents x)"
  by (simp_all add: sample_talker_def)

lemma sample_talk: "channel sample_suite OtrV3 (sample_talker 200 256 130 257) (sample_talker 130 257 200 256)"
proof -
  have "quiet OtrV3 (sample_talker x t y t')" if "t \<noteq> 0" for x t y t'
    using sample_steady [OF that, of x] by (simp add: quiet_def steady_def ready_def sample_talker_def sample_session_def)
  then show ?thesis
    using first_keys_linked [of "uint (200 :: byte)" "uint (130 :: byte)" sample_suite "sample_exponents 200" "sample_exponents 130"]
    by (simp add: channel_def tags_match_def minValidInstanceTag_def)
qed

lemma sample_talker_plenty: "plenty 3 (sample_talker x t y t')"
  using sample_exponents_reads(3) [of x]
  by (simp add: plenty_def first_keys_def nil_keys_def counterOf_def mac_keys_def)

lemma sample_talker_publics: "publics sample_suite (sample_talker x t y t') \<subseteq> {Some (2 ^ nat (uint x))}"
proof -
  have "big_SetBytes (take 40 (drop (40 * i) (sample_exponents x))) = uint x" if "40 * Suc i \<le> length (sample_exponents x)" for i
  proof -
    have "i < 3" using that sample_exponents_reads(3) [of x] by simp
    then consider "i = 0" | "i = 1" | "i = 2" by linarith
    then show ?thesis by cases (simp_all add: sample_exponents_def numeral_eq_Suc big_SetBytes_def be_nat_def)
  qed
  then show ?thesis
    using sample_public [of x] sample_exponents_reads(1) [of x] by (auto simp: publics_def first_keys_def)
qed

text \<open>A conversation with one text to be sent again.\<close>

definition queueing :: "conversation \<Rightarrow> conversation" where
  "queueing c = c\<lparr>c_resend := (c_resend c)\<lparr>mayRetransmit := retransmitWithPrefix, resend_m := [\<lparr>mr_m = str ''hi'', mr_opaque = []\<rparr>]\<rparr>\<rparr>"

lemma queueing_keeps:
  "channel S v a b \<Longrightarrow> channel S v (queueing a) b" "publics S (queueing a) = publics S a" "plenty n (queueing a) = plenty n a"
  "length (resend_m (c_resend (queueing a))) = 1"
  by (simp_all add: queueing_def channel_def quiet_def ready_def tags_match_def publics_def plenty_def)

lemma queueing_texts: "messageTransform (c_resend c) = None \<Longrightarrow> queued_texts (queueing c) = [str ''[resent] hi'']"
  by (simp add: queued_texts_def resent_texts_def queueing_def resendMessageTransformer_def defaultResendMessageTransform_def str_def)

lemma plenty_mono: "plenty n c \<Longrightarrow> k \<le> n \<Longrightarrow> plenty k c"
proof -
  assume p: "plenty n c" and k: "k \<le> n"
  have "unat (ourCounterOf i j (c_keys c)) + 2 * k < 2 ^ 64" for i j
  proof -
    have "unat (ourCounterOf i j (c_keys c)) + 2 * n < 2 ^ 64" using p unfolding plenty_def by blast
    with k show ?thesis by simp
  qed
  then show ?thesis using p k unfolding plenty_def by auto
qed

end
