(* ===== verification/Interference.thy ===== *)
theory Interference
  imports Session_Security Dialogue
begin

text \<open>
  What somebody on the wire who knows no key can do to a conversation by injecting messages: keep
  \<^verbatim>\<open>Receive\<close> from returning, have a message shown twice, have the peer ignored, use up the
  peer's counters. The theory also says on which inputs \<^verbatim>\<open>Receive\<close> does return.
\<close>

declare not_None_eq [iff del]

section \<open>Nested fragments\<close>

text \<open>A message sent as its only fragment.\<close>

definition only_fragment :: "otrVersion \<Rightarrow> conversation \<Rightarrow> bytes \<Rightarrow> bytes" where
  "only_fragment v a data = fragmentPrefix v 0 1 (c_ourInstanceTag a) (c_theirInstanceTag a) @ data @ [44]"

lemma receive_only_fragment:
  assumes "c_version b = Some v" "tags_match v a b" "44 \<notin> set data"
  shows "receiveFragment ctx (only_fragment v a data) b = Some ((\<lparr>frag = data, currentIndex = 1, currentLen = 1\<rparr>, None), learn_tag v a b)"
    and "guessMessageType (only_fragment v a data) = msgGuessFragment"
proof -
  have f: "only_fragment v a data = tag_prefix v (c_ourInstanceTag a) (c_theirInstanceTag a) @ fragment_body data (length data) 1 0"
    using fragment_is_body [of v 0 1 _ _ data "length data"] by (simp add: only_fragment_def chunk_def)
  have "fragment_step (data, 1, 1) ctx = \<lparr>frag = data, currentIndex = 1, currentLen = 1\<rparr>"
    by (simp add: fragment_step_def fragment_defs)
  then show "receiveFragment ctx (only_fragment v a data) b = Some ((\<lparr>frag = data, currentIndex = 1, currentLen = 1\<rparr>, None), learn_tag v a b)"
    using receiveFragment_match [OF assms, of 0 1 ctx "length data"] by (simp add: f chunk_def)
  show "guessMessageType (only_fragment v a data) = msgGuessFragment" by (simp add: f guess_fragment)
qed

text \<open>A text that looks like a fragment and is none, for either version.\<close>

definition fake_fragment :: bytes where
  "fake_fragment = str ''?OTR|''"

lemma fake_fragment_guess: "guessMessageType fake_fragment = msgGuessFragment"
  by code_simp

lemma fake_fragment_ignored:
  assumes "c_version c = Some v"
  shows "receiveFragment ctx fake_fragment c = Some ((ctx, Some (newOtrError ''invalid OTR fragment'')), c)"
proof -
  have "parseFragment [] = None" by code_simp
  then show ?thesis using assms
    by (cases v) (simp_all add: receiveFragment_def parseFragmentPrefix_def resolveVersionFromFragment_def commitToVersionFrom_def
      fake_fragment_def str_def)
qed

lemma fake_fragment_diverges:
  "c_version c = Some v \<Longrightarrow> isOTREnabled (c_Policies c) \<Longrightarrow> fragmentsFinished (c_fragmentationContext c)
    \<Longrightarrow> frag (c_fragmentationContext c) = fake_fragment
    \<Longrightarrow> receiveUnit S fuel fake_fragment b c = OutOfFuel"
proof (induction fuel arbitrary: b c)
  case (Suc fuel)
  have "c\<lparr>c_fragmentationContext := c_fragmentationContext c\<rparr> = c" by simp
  then show ?case using Suc by (simp add: fake_fragment_guess fake_fragment_ignored Let_def)
qed simp

text \<open>C25. A single fragment can hang the receiver. A complete fragment, number 1 of 1, that carries
  \<^verbatim>\<open>?OTR|\<close> makes \<open>Receive\<close> recurse without end: the reassembled text looks like a fragment, is no
  valid one, leaves the finished context as it is and is therefore received again. No key is needed to send it.\<close>

theorem nested_fragment_diverges:
  assumes "c_version b = Some v" "isOTREnabled (c_Policies b)" "tags_match v a b"
  shows "c_Receive S fuel (only_fragment v a fake_fragment) b = OutOfFuel"
proof (cases fuel)
  case (Suc k)
  let ?b = "(learn_tag v a b)\<lparr>c_fragmentationContext := \<lparr>frag = fake_fragment, currentIndex = 1, currentLen = 1\<rparr>\<rparr>"
  have "(44 :: byte) \<notin> set fake_fragment" by code_simp
  note r = receive_only_fragment [OF assms(1,3) this]
  have "receiveUnit S k fake_fragment False ?b = OutOfFuel"
    using assms by (intro fake_fragment_diverges [of _ v]) (simp_all add: fragmentsFinished_def learn_tag_def)
  then show ?thesis using assms(2) by (simp add: c_Receive_def Suc r fragmentsFinished_def Let_def)
qed (simp add: c_Receive_def)

text \<open>Two parties of version 3 that have not heard of each other.\<close>

definition sample_v3 :: "byte \<Rightarrow> uint32 \<Rightarrow> conversation" where
  "sample_v3 x tag = (sample_peer x tag)\<lparr>c_version := Some OtrV3\<rparr>"

lemma sample_v3_ready:
  "c_version (sample_v3 x tag) = Some OtrV3" "isOTREnabled (c_Policies (sample_v3 x tag))"
  "tags_match OtrV3 (sample_v3 200 256) (sample_v3 130 257)"
  by (simp_all add: sample_v3_def sample_peer_def sample_party_def isOTREnabled_def has_policy_def policy_defs
    tags_match_def nil_conversation_def minValidInstanceTag_def)

theorem nested_fragment_diverges_witness:
  "\<forall>fuel. c_Receive sample_suite fuel (only_fragment OtrV3 (sample_v3 200 256) fake_fragment) (sample_v3 130 257) = OutOfFuel"
  using nested_fragment_diverges [OF sample_v3_ready] by simp

section \<open>Termination\<close>

lemma receiveUnit_once:
  "guessMessageType m \<noteq> msgGuessFragment \<Longrightarrow> receiveUnit S (Suc k) m b c \<noteq> OutOfFuel"
  by (simp split: messageTypeGuess.splits)



section \<open>Fragments received twice\<close>

lemma receive_finished_fragment:
  assumes "isOTREnabled (c_Policies c)" "guessMessageType m = msgGuessFragment" "c_injections c = []"
    "receiveFragment (c_fragmentationContext c) m c = Some ((ctx, err), c1)" "fragmentsFinished ctx"
    "guessMessageType (frag ctx) = msgGuessNotOTR" "c_Policies c1 = c_Policies c" "c_injections c1 = []" "c_version c1 = Some v"
  shows "\<exists>c'. c_Receive S 2 m c = Finished (Some ((Some (frag ctx), [], None), c'))
    \<and> c_fragmentationContext c' = ctx \<and> c_Policies c' = c_Policies c \<and> c_version c' = Some v \<and> c_injections c' = []"
  using assms
  by (simp add: c_Receive_def numeral_2_eq_2 Let_def receivePlaintext_def finish_receive_def toSendEncoded_def withInjectionsPlain_def
      withInjects_def checkPlaintextPolicies_def messageEventWithMessage_def log_event_def)



section \<open>Instance tags\<close>

text \<open>Encoded messages of version 3, of every type, with any tags and any body.\<close>

definition v3_messages :: "bytes set" where
  "v3_messages = {encode (header_bytes OtrV3 sender receiver ty @ body) | sender receiver ty body. ake_type ty \<or> ty = msgTypeData}"

lemma v3_messagesI: "ake_type ty \<or> ty = msgTypeData \<Longrightarrow> encode (header_bytes OtrV3 x y ty @ body) \<in> v3_messages"
  unfolding v3_messages_def by blast

lemma parseMessageHeader_tags:
  assumes "c_version b = Some OtrV3"
  shows "parseMessageHeader (header_bytes OtrV3 x y ty @ m) b =
    (case verifyInstanceTags x y b of (Some e, b') \<Rightarrow> Some (Inl e, b') | (None, b') \<Rightarrow> Some (Inr (header_bytes OtrV3 x y ty, m), b'))"
proof -
  have parts: "drop 3 (header_bytes OtrV3 x y ty @ m) = SerializeWord x @ SerializeWord y @ m"
    "drop 7 (header_bytes OtrV3 x y ty @ m) = SerializeWord y @ m"
    "take 11 (header_bytes OtrV3 x y ty @ m) = header_bytes OtrV3 x y ty" "drop 11 (header_bytes OtrV3 x y ty @ m) = m" by simp_all
  show ?thesis using assms
    by (simp add: parseMessageHeader_def Let_def parts del: header_bytes.simps split: prod.split option.split) simp
qed

lemma receive_bad_tags:
  assumes "c_version b = Some OtrV3" "isOTREnabled (c_Policies b)" "verifyInstanceTags x y b = (Some e, b1)"
    "ake_type ty \<or> ty = msgTypeData"
  shows "\<exists>err. c_Receive S (Suc k) (encode (header_bytes OtrV3 x y ty @ body)) b =
    Finished (Some ((None, c_injections b1, err), b1\<lparr>c_fragmentationContext := forgetFragment, c_injections := []\<rparr>))"
proof -
  let ?err = "if e = errReceivedMessageForOtherInstance then None else Some e"
  let ?m = "encode (header_bytes OtrV3 x y ty @ body)"
  have "guessMessageType ?m \<in> {msgGuessDHCommit, msgGuessDHKey, msgGuessRevealSig, msgGuessSignature, msgGuessData}"
    using assms(4) guessMessageType_encode by (auto simp: ake_type_def simp del: header_bytes.simps)
  moreover have "receiveEncoded S ?m b = Some ((None, [], ?err), b1)"
    using checkVersion_header [OF assms(1)] assms(3) parseMessageHeader_tags [OF assms(1), of x y ty body]
    by (simp add: receiveEncoded_def decode_encode receiveDecoded_def del: header_bytes.simps)
  moreover have "finish_receive True ((None, [], ?err), b1) =
      Some ((None, c_injections b1, ?err), b1\<lparr>c_fragmentationContext := forgetFragment, c_injections := []\<rparr>)"
    by (simp add: finish_receive_def toSendEncoded_def withInjectionsPlain_def withInjects_def Let_def)
  ultimately show ?thesis using assms(2)
    by (auto simp: c_Receive_def simp del: header_bytes.simps)
qed

text \<open>The same session: the fields that decide about it are untouched.\<close>

definition session_kept :: "conversation \<Rightarrow> conversation \<Rightarrow> bool" where
  "session_kept c c' \<longleftrightarrow> c_version c' = c_version c \<and> c_Policies c' = c_Policies c \<and> c_msgState c' = c_msgState c
     \<and> c_keys c' = c_keys c \<and> c_ake c' = c_ake c \<and> c_smp c' = c_smp c \<and> c_theirKey c' = c_theirKey c"

lemma verifyInstanceTags_refuses:
  assumes "c_theirInstanceTag b = 0 \<and> 0 < x \<and> x < minValidInstanceTag \<or> 0 < c_theirInstanceTag b \<and> c_theirInstanceTag b < minValidInstanceTag"
  shows "\<exists>e b1. verifyInstanceTags x y b = (Some e, b1) \<and> session_kept b b1
    \<and> 0 < c_theirInstanceTag b1 \<and> c_theirInstanceTag b1 < minValidInstanceTag"
proof -
  have "x = c_theirInstanceTag b \<Longrightarrow> 0 < c_theirInstanceTag b \<Longrightarrow> c_theirInstanceTag b < minValidInstanceTag \<Longrightarrow> x < minValidInstanceTag"
    by simp
  then show ?thesis using assms
    by (auto simp: verifyInstanceTags_def Let_def session_kept_def malformedMessage_def generatePotentialErrorMessage_def
        injectMessage_def messageEvent_def log_event_def split: option.splits)
qed

lemma receive_all_refused:
  assumes "set ms \<subseteq> v3_messages" "c_version b = Some OtrV3" "isOTREnabled (c_Policies b)"
    "c_theirInstanceTag b = 0 \<and> (\<exists>x y ty body. ms \<noteq> [] \<and> hd ms = encode (header_bytes OtrV3 x y ty @ body) \<and> 0 < x \<and> x < minValidInstanceTag \<and> (ake_type ty \<or> ty = msgTypeData))
     \<or> 0 < c_theirInstanceTag b \<and> c_theirInstanceTag b < minValidInstanceTag"
  shows "\<exists>b'. receive_all S ms b = Some (replicate (length ms) None, b') \<and> session_kept b b'"
  using assms
proof (induction ms arbitrary: b)
  case (Cons m ms)
  obtain x y ty body where m: "m = encode (header_bytes OtrV3 x y ty @ body)" "ake_type ty \<or> ty = msgTypeData"
    "c_theirInstanceTag b = 0 \<and> 0 < x \<and> x < minValidInstanceTag \<or> 0 < c_theirInstanceTag b \<and> c_theirInstanceTag b < minValidInstanceTag"
    using Cons.prems(1,4) unfolding v3_messages_def by fastforce
  obtain e b1 where b1: "verifyInstanceTags x y b = (Some e, b1)" "session_kept b b1"
    "0 < c_theirInstanceTag b1" "c_theirInstanceTag b1 < minValidInstanceTag"
    using verifyInstanceTags_refuses [OF m(3)] by blast
  let ?b1 = "b1\<lparr>c_fragmentationContext := forgetFragment, c_injections := []\<rparr>"
  obtain err where r: "c_Receive S (Suc 0) m b = Finished (Some ((None, c_injections b1, err), ?b1))"
    using receive_bad_tags [OF Cons.prems(2,3) b1(1) m(2)] m(1) by blast
  have "\<exists>b'. receive_all S ms ?b1 = Some (replicate (length ms) None, b') \<and> session_kept ?b1 b'"
    using b1 Cons.prems(1-3) by (intro Cons.IH) (simp_all add: session_kept_def)
  then show ?case using r b1(2) by (auto simp: session_kept_def)
qed (simp add: session_kept_def)

text \<open>C33. One forged message silences the peer for good. While the peer's instance tag is not known yet, a message
  with an invalid sender tag (between 1 and 255), of any type and content, is refused but its tag
  is stored all the same. From then on every encoded message, whoever sends it, is refused or ignored:
  nothing is shown, the session and the key exchange do not move.\<close>

theorem invalid_tag_silences_peer:
  assumes "c_version b = Some OtrV3" "isOTREnabled (c_Policies b)" "c_theirInstanceTag b = 0"
    "0 < x" "x < minValidInstanceTag" "ake_type ty \<or> ty = msgTypeData" "set ms \<subseteq> v3_messages"
  shows "\<exists>b'. receive_all S (encode (header_bytes OtrV3 x y ty @ body) # ms) b = Some (replicate (Suc (length ms)) None, b')
    \<and> session_kept b b'"
proof -
  show ?thesis
    using v3_messagesI [OF assms(6)] receive_all_refused [of "encode (header_bytes OtrV3 x y ty @ body) # ms" b S] assms by auto
qed

theorem invalid_tag_silences_peer_witness:
  "\<exists>b'. receive_all sample_suite [encode (header_bytes OtrV3 5 0 msgTypeData @ []), encode (header_bytes OtrV3 256 0 msgTypeDHCommit @ [])]
      (sample_v3 130 257) = Some ([None, None], b')
    \<and> session_kept (sample_v3 130 257) b'"
proof -
  have "c_theirInstanceTag (sample_v3 130 257) = 0"
    by (simp add: sample_v3_def sample_peer_def sample_party_def nil_conversation_def)
  then show ?thesis
    using v3_messagesI [of msgTypeDHCommit 256 0 "[]"] invalid_tag_silences_peer [OF sample_v3_ready(1,2), of 130 257 5 msgTypeData "[encode (header_bytes OtrV3 256 0 msgTypeDHCommit @ [])]" sample_suite 0 "[]"]
    by (simp add: minValidInstanceTag_def del: header_bytes.simps receive_all.simps)
qed

section \<open>Counters\<close>

lemma receive_data_refused:
  assumes "c_version b = Some v" "isOTREnabled (c_Policies b)" "ready v a" "tags_match v a b"
    "processDataMessageWithRawErrors S (header_bytes v (c_ourInstanceTag a) (c_theirInstanceTag a) msgTypeData) body (learn_tag v a b)
       = Some ((None, None, Some e), b1)"
  shows "\<exists>ms err b'. c_Receive S (Suc k) (encode (header_bytes v (c_ourInstanceTag a) (c_theirInstanceTag a) msgTypeData @ body)) b
      = Finished (Some ((None, ms, err), b'))
    \<and> session_kept b1 b' \<and> c_theirInstanceTag b' = c_theirInstanceTag b1 \<and> c_ourInstanceTag b' = c_ourInstanceTag b1"
proof -
  let ?hdr = "header_bytes v (c_ourInstanceTag a) (c_theirInstanceTag a) msgTypeData"
  have heart: "maybeHeartbeat S (None, None, err) b1 = Some ((None, [], err), b1)" for err
    by (cases err) (simp_all add: maybeHeartbeat_def potentialHeartbeat_def)
  obtain err b2 where "receiveDataMessage S ?hdr body (learn_tag v a b) = Some ((None, [], err), b2)"
    "session_kept b1 b2" "c_theirInstanceTag b2 = c_theirInstanceTag b1" "c_ourInstanceTag b2 = c_ourInstanceTag b1"
    using assms(5) heart by (auto simp: receiveDataMessage_def processDataMessage_def Let_def notifyDataMessageError_def
        session_kept_def generatePotentialErrorMessage_def injectMessage_def messageEvent_def log_event_def split: option.splits if_splits)
  moreover have "finish_receive True ((None, [], err), b2) =
      Some ((None, c_injections b2, err), b2\<lparr>c_fragmentationContext := forgetFragment, c_injections := []\<rparr>)"
    by (simp add: finish_receive_def toSendEncoded_def withInjectionsPlain_def withInjects_def Let_def)
  moreover have "receiveEncoded S (encode (?hdr @ body)) b = receiveDataMessage S ?hdr body (learn_tag v a b)"
    using checkVersion_header [OF assms(1)] parseMessageHeader_match [OF assms(3,1,4)]
    by (simp add: receiveEncoded_def decode_encode receiveDecoded_def)
  ultimately show ?thesis using assms(2) guessMessageType_encode(5) by (simp add: c_Receive_def session_kept_def)
qed

definition message_counter_of :: "dataMsg \<Rightarrow> uint64" where
  "message_counter_of dm = of_nat (be_nat (dm_topHalfCtr dm))"

text \<open>C34. A forged message can use up the counter. In an encrypted session a data message whose MAC is wrong is
  refused, but its counter has already been recorded: a genuine message of the same pair of keys that
  arrives after it with a counter that is not larger is refused as a replay and never shown.\<close>

theorem forged_counter_blocks_peer:
  assumes "quiet v b" "ready v a" "tags_match v a b"
    "dataMsg_deserialize forged v = Some (Inr dm)" "dataMsg_deserialize genuine v = Some (Inr dm')"
    "dm_recipientKeyID dm' = dm_recipientKeyID dm" "dm_senderKeyID dm' = dm_senderKeyID dm"
    "message_counter_of dm' \<le> message_counter_of dm"
    "checkMessageCounter dm (c_keys b) = (None, k1)"
    "keys_calculateDHSessionKeys S (dm_recipientKeyID dm) (dm_senderKeyID dm) v k1 = Some (Inr ks, k2)"
    "checkSign S dm (receivingMACKey ks) (header_bytes v (c_ourInstanceTag a) (c_theirInstanceTag a) msgTypeData) v \<noteq> None"
  shows "\<exists>b'. receive_all S [encode (header_bytes v (c_ourInstanceTag a) (c_theirInstanceTag a) msgTypeData @ forged),
      encode (header_bytes v (c_ourInstanceTag a) (c_theirInstanceTag a) msgTypeData @ genuine)] b = Some ([None, None], b')"
proof -
  let ?hdr = "header_bytes v (c_ourInstanceTag a) (c_theirInstanceTag a) msgTypeData"
  have b: "c_version b = Some v" "isOTREnabled (c_Policies b)" "c_msgState b = encrypted"
    using assms(1) by (simp_all add: quiet_def ready_def)
  have "\<exists>e. processDataMessageWithRawErrors S ?hdr forged (learn_tag v a b) = Some ((None, None, Some e), (learn_tag v a b)\<lparr>c_keys := k2\<rparr>)"
    using b assms(4,9-11) by (auto simp: processDataMessageWithRawErrors_def not_None_eq)
  then obtain ms err b1 where r1: "c_Receive S (Suc 0) (encode (?hdr @ forged)) b = Finished (Some ((None, ms, err), b1))"
    and s1: "session_kept ((learn_tag v a b)\<lparr>c_keys := k2\<rparr>) b1" "c_theirInstanceTag b1 = c_theirInstanceTag (learn_tag v a b)"
      "c_ourInstanceTag b1 = c_ourInstanceTag b"
    using receive_data_refused [OF b(1,2) assms(2,3), of S forged _ _ 0] by fastforce
  have b1: "c_version b1 = Some v" "isOTREnabled (c_Policies b1)" "c_msgState b1 = encrypted" "c_keys b1 = k2" "tags_match v a b1"
    using s1 b assms(3) by (auto simp: session_kept_def tags_match_def learn_tag_def)
  have "theirCounterOf i j k2 = theirCounterOf i j k1" for i j
    using keys_calculate_adds assms(10) by fastforce
  then have "theirCounterOf (dm_recipientKeyID dm') (dm_senderKeyID dm') k2 = message_counter_of dm"
    using checkMessageCounter_spec(2) [OF assms(9)] assms(6,7) by (simp add: message_counter_of_def)
  then obtain e k3 where "checkMessageCounter dm' k2 = (Some e, k3)"
    using checkMessageCounter_spec(1) [of dm' k2] assms(8) by (cases "checkMessageCounter dm' k2") (auto simp: message_counter_of_def)
  then have "processDataMessageWithRawErrors S ?hdr genuine (learn_tag v a b1) = Some ((None, None, Some e), (learn_tag v a b1)\<lparr>c_keys := k3\<rparr>)"
    using b1 assms(5) by (simp add: processDataMessageWithRawErrors_def)
  then obtain ms' err' b2 where "c_Receive S (Suc 0) (encode (?hdr @ genuine)) b1 = Finished (Some ((None, ms', err'), b2))"
    using receive_data_refused [OF b1(1,2) assms(2) b1(5), of S genuine _ _ 0] by blast
  with r1 show ?thesis by simp
qed

text \<open>A session over the toy group, a message with counter 9 without a valid MAC and one with counter 1.\<close>

definition toy_session :: "uint32 \<Rightarrow> uint32 \<Rightarrow> conversation" where
  "toy_session tag tag' = (nil_conversation [] (\<lambda>_. 0) 1)\<lparr>c_version := Some OtrV3, c_msgState := encrypted, c_Policies := 4,
     c_ourInstanceTag := tag, c_theirInstanceTag := tag', c_keys := toy_keys\<lparr>macKeyHistory := []\<rparr>\<rparr>"

definition toy_data :: "byte \<Rightarrow> dataMsg" where
  "toy_data n = (let dm = toy_message\<lparr>dm_topHalfCtr := [0, 0, 0, 0, 0, 0, 0, n], dm_authenticator := replicate 20 7\<rparr>
     in dm\<lparr>dm_serializeUnsignedCache := Some (serializeUnsigned dm)\<rparr>)"

theorem forged_counter_blocks_peer_witness:
  "\<exists>b'. receive_all toy_suite [encode (header_bytes OtrV3 256 257 msgTypeData @ dataMsg_serialize (toy_data 9) OtrV3),
      encode (header_bytes OtrV3 256 257 msgTypeData @ dataMsg_serialize (toy_data 1) OtrV3)]
     (toy_session 257 256) = Some ([None, None], b')"
proof -
  let ?b = "toy_session 257 256" and ?a = "toy_session 256 257"
  have d: "dataMsg_deserialize (dataMsg_serialize (toy_data n) OtrV3) OtrV3 = Some (Inr (toy_data n))" if "n \<noteq> 0" for n
  proof -
    have "length (big_Bytes 4) < 4294967296" "0 < be_nat [0, 0, 0, 0, 0, 0, 0, n]"
      using that by (simp_all add: big_Bytes_def nat_bytes_pos be_nat_def unat_gt_0)
    then show ?thesis
      by (intro dataMsg_roundtrip) (simp_all add: toy_data_def toy_message_def dataMsg_ok_def Let_def mpi_ok_def data_ok_def serializeUnsigned_def)
  qed
  have q: "quiet OtrV3 ?b" "ready OtrV3 ?a" "tags_match OtrV3 ?a ?b"
    by (simp_all add: quiet_def ready_def toy_session_def nil_conversation_def tags_match_def minValidInstanceTag_def isOTREnabled_def
      has_policy_def policy_defs macs_ok_def toy_keys_def nil_keys_def)
  have c: "checkMessageCounter (toy_data 9) (c_keys ?b) = (None, snd (checkMessageCounter (toy_data 9) (c_keys ?b)))" (is "_ = (None, ?k1)")
    by (simp add: checkMessageCounter_def findCounterFor_def toy_session_def toy_keys_def nil_keys_def toy_data_def toy_message_def be_nat_def Let_def)
  have "\<exists>ks k2. keys_calculateDHSessionKeys toy_suite 2 1 OtrV3 ?k1 = Some (Inr ks, k2)"
    by (simp add: checkMessageCounter_def findCounterFor_def toy_session_def toy_keys_def nil_keys_def toy_data_def toy_message_def be_nat_def Let_def
       keys_calculateDHSessionKeys_def pickOurKeys_def pickTheirKey_def calculateDHSessionKeys_def split: prod.split)
  then obtain ks k2 where k: "keys_calculateDHSessionKeys toy_suite 2 1 OtrV3 ?k1 = Some (Inr ks, k2)" by blast
  have s: "checkSign toy_suite (toy_data 9) (receivingMACKey ks) h OtrV3 \<noteq> None" for h
    by (simp add: checkSign_def toy_suite_def hmac_def Let_def toy_data_def)
  have f: "dm_recipientKeyID (toy_data n) = 2" "dm_senderKeyID (toy_data n) = 1" "message_counter_of (toy_data n) = of_nat (unat n)" for n
    by (simp_all add: toy_data_def toy_message_def message_counter_of_def be_nat_def Let_def)
  have t: "c_ourInstanceTag ?a = 256" "c_theirInstanceTag ?a = 257" by (simp_all add: toy_session_def)
  show ?thesis
    using forged_counter_blocks_peer [OF q d d, of 9 1 _ toy_suite ks k2] c k s unfolding f t by simp
qed

declare not_None_eq [iff]

end
