(* ===== verification/Negotiation.thy ===== *)
theory Negotiation
  imports Sample
begin

text \<open>
  How two conversations come to a version: one offers what its policy allows, in a query message or in a whitespace
  tag behind a text, and the other commits to the highest version that it allows as well. The messages that follow
  then carry the version and their type in a header, by which \<^verbatim>\<open>guessMessageType\<close> tells them apart.
\<close>

unbundle bit_operations_syntax

section \<open>Versions as bits\<close>

lemma and_bit3: "0 < (n :: int) AND 8 \<longleftrightarrow> bit n 3" and and_bit2: "0 < (n :: int) AND 4 \<longleftrightarrow> bit n 2"
  using and_exp_eq_0_iff_not_bit [of n 3] and_exp_eq_0_iff_not_bit [of n 2] by (auto simp: less_le)

lemma bits_8_4: "bit (8 :: int) 3" "\<not> bit (8 :: int) 2" "bit (4 :: int) 2" "\<not> bit (4 :: int) 3"
  by code_simp+

text \<open>What a set of version bits lets a conversation commit to.\<close>

definition negotiated :: "bool \<Rightarrow> bool \<Rightarrow> int \<Rightarrow> otrVersion option" where
  "negotiated offers2 offers3 p =
     (if offers3 \<and> has_policy p allowV3 then Some OtrV3 else if offers2 \<and> has_policy p allowV2 then Some OtrV2 else None)"

definition commits :: "otrVersion option \<Rightarrow> conversation \<Rightarrow> go_error option \<times> conversation" where
  "commits v c = (case v of None \<Rightarrow> (Some errUnsupportedOTRVersion, c)
     | Some w \<Rightarrow> (None, c\<lparr>c_version := Some w, c_ourCurrentKey := Some (hd (c_ourKeys c))\<rparr>))"

lemma first_key_hd: "ks \<noteq> [] \<Longrightarrow> first_key (protocolVersion v) ks = Some (hd ks)"
  by (cases ks; cases v) (simp_all add: IsAvailableForVersion_def)

lemma commitToVersionFrom_bits:
  assumes "c_version c = None" "c_ourKeys c \<noteq> []"
  shows "commitToVersionFrom n c = commits (negotiated (bit n 2) (bit n 3) (c_Policies c)) c"
  using assms first_key_hd [OF assms(2), of OtrV2] first_key_hd [OF assms(2), of OtrV3]
  by (simp add: commitToVersionFrom_def negotiated_def commits_def setKeyMatchingVersion_def and_bit2 and_bit3 conj_commute)

section \<open>Query messages\<close>

lemma query_versions_bits:
  "bit (query_versions p vs n) 3 \<longleftrightarrow> bit n 3 \<or> 3 \<in> set vs \<and> has_policy p allowV3"
  "bit (query_versions p vs n) 2 \<longleftrightarrow> bit n 2 \<or> 2 \<in> set vs \<and> has_policy p allowV2"
  by (induction p vs n rule: query_versions.induct) (auto simp: bit_or_iff bits_8_4)

lemma Atoi_digit: "Atoi [c] = (if 48 \<le> unat c \<and> unat c \<le> 57 then Some (int (unat c - 48)) else None)"
  by (auto simp: Atoi_def ParseInt_def parse_uint_def digit_val_def Let_def)

lemma digit_byte: "uint (c :: byte) = n \<Longrightarrow> c = of_int n"
  by auto

lemma set_query_digits: "v \<in> set (query_digits cs) \<longleftrightarrow> (\<exists>c \<in> set cs. Atoi [c] = Some v)"
  by (induction cs) (auto split: option.split)

lemma query_digits_mem: "2 \<in> set (query_digits cs) \<longleftrightarrow> 50 \<in> set cs" "3 \<in> set (query_digits cs) \<longleftrightarrow> 51 \<in> set cs"
proof -
  have "Atoi [c] = Some 2 \<longleftrightarrow> c = 50" "Atoi [c] = Some 3 \<longleftrightarrow> c = 51" for c
    using digit_byte [of c 50] digit_byte [of c 51] by (auto simp: Atoi_digit)
  then show "2 \<in> set (query_digits cs) \<longleftrightarrow> 50 \<in> set cs" "3 \<in> set (query_digits cs) \<longleftrightarrow> 51 \<in> set cs"
    by (simp_all add: set_query_digits)
qed

text \<open>A query message offers a version when the policy of its sender allows it, or when the digit of the version occurs
  in the friendly text behind it.\<close>

definition query_offers :: "int \<Rightarrow> byte \<Rightarrow> conversation \<Rightarrow> bool" where
  "query_offers allow digit a \<longleftrightarrow> has_policy (c_Policies a) allow \<or> digit \<in> set (c_friendlyQueryMessage a)"

lemma parse_QueryMessage:
  "2 \<in> set (parseOTRQueryMessage (QueryMessage a)) \<longleftrightarrow> query_offers allowV2 50 a"
  "3 \<in> set (parseOTRQueryMessage (QueryMessage a)) \<longleftrightarrow> query_offers allowV3 51 a"
proof -
  define rest where "rest = (if has_policy (c_Policies a) allowV2 then [50] else []) @ (if has_policy (c_Policies a) allowV3 then [51] else [])
    @ (if c_friendlyQueryMessage a \<noteq> [] then str ''? '' @ c_friendlyQueryMessage a else str ''?'')"
  have "QueryMessage a = queryMarker @ 118 # rest" by (simp add: QueryMessage_def queryMarker_def rest_def str_def)
  then have p: "parseOTRQueryMessage (QueryMessage a) = query_digits (118 # rest)"
    by (simp add: parseOTRQueryMessage_def HasPrefix_def)
  show "2 \<in> set (parseOTRQueryMessage (QueryMessage a)) \<longleftrightarrow> query_offers allowV2 50 a"
    "3 \<in> set (parseOTRQueryMessage (QueryMessage a)) \<longleftrightarrow> query_offers allowV3 51 a"
    unfolding p query_digits_mem by (auto simp: rest_def query_offers_def str_def)
qed

text \<open>C21. Negotiation by query. A conversation without a version that receives the query message of another commits to the
  highest version that it allows and the message offers, with its first key, or refuses when
  there is none. Offered is what the sender's policy allows, and also every version whose digit occurs in the
  friendly text behind the offer.\<close>

theorem query_negotiates:
  assumes "c_version b = None" "c_ourKeys b \<noteq> []"
  shows "commitToVersionFrom (extractVersionsFromQueryMessage (c_Policies b) (QueryMessage a)) b
    = commits (negotiated (query_offers allowV2 50 a) (query_offers allowV3 51 a) (c_Policies b)) b"
proof -
  have "bit (extractVersionsFromQueryMessage (c_Policies b) (QueryMessage a)) 2 \<longleftrightarrow> query_offers allowV2 50 a \<and> has_policy (c_Policies b) allowV2"
    "bit (extractVersionsFromQueryMessage (c_Policies b) (QueryMessage a)) 3 \<longleftrightarrow> query_offers allowV3 51 a \<and> has_policy (c_Policies b) allowV3"
    by (simp_all add: extractVersionsFromQueryMessage_def query_versions_bits parse_QueryMessage)
  then show ?thesis by (simp add: commitToVersionFrom_bits [OF assms] negotiated_def)
qed

text \<open>A sender that allows version 2 only but greets with a three, and a sender and a receiver that allow both.\<close>

definition sample_greeter :: conversation where
  "sample_greeter = (nil_conversation [] (\<lambda>n. 0) 1)\<lparr>c_Policies := 2, c_friendlyQueryMessage := str ''3 cheers''\<rparr>"

definition sample_open :: conversation where
  "sample_open = (nil_conversation [] (\<lambda>n. 0) 1)\<lparr>c_Policies := 22, c_ourKeys := [sample_key]\<rparr>"

theorem query_negotiates_witness:
  "c_version (snd (commitToVersionFrom (extractVersionsFromQueryMessage 22 (QueryMessage sample_greeter)) sample_open)) = Some OtrV3
    \<and> \<not> has_policy (c_Policies sample_greeter) allowV3"
  using query_negotiates [of sample_open sample_greeter]
  by (simp add: sample_open_def sample_greeter_def nil_conversation_def commits_def negotiated_def query_offers_def has_policy_def
     allowV2_def allowV3_def str_def)

section \<open>Whitespace tags\<close>

lemma tag_versions:
  "whitespace_versions ((if x then whitespaceTag OtrV2 else []) @ (if y then whitespaceTag OtrV3 else [])) 0
    = ([], (if x then 4 else 0) + (if y then 8 else 0))"
proof -
  have "whitespace_versions [] 0 = ([], 0)" "whitespace_versions (whitespaceTag OtrV2) 0 = ([], 4)"
    "whitespace_versions (whitespaceTag OtrV3) 0 = ([], 8)" "whitespace_versions (whitespaceTag OtrV2 @ whitespaceTag OtrV3) 0 = ([], 12)"
    by code_simp+
  then show ?thesis by (cases x; cases y) simp_all
qed

text \<open>C22. Negotiation by whitespace tag. When a text is sent with a whitespace tag behind it and the tag is the first
  place that looks like one, the receiver recovers exactly the text that was sent, and a receiver without a version
  commits to the highest version both policies allow.\<close>

theorem whitespace_tag_negotiates:
  assumes "appendWhitespaceTag m a = (w, a')" "has_policy (c_Policies a) sendWhitespaceTag" "c_whitespaceState a \<noteq> whitespaceRejected"
    "bytes_Index w whitespaceTagHeader = Some (length m)" "c_version b = None" "c_ourKeys b \<noteq> []"
  shows "\<exists>vs. extractWhitespaceTag w = Some (m, vs)
    \<and> commitToVersionFrom vs b = commits (negotiated (has_policy (c_Policies a) allowV2) (has_policy (c_Policies a) allowV3) (c_Policies b)) b"
proof -
  let ?x = "has_policy (c_Policies a) allowV2" and ?y = "has_policy (c_Policies a) allowV3"
  let ?vs = "(if ?x then 4 else 0) + (if ?y then 8 else 0) :: int"
  have w: "w = m @ genWhitespaceTag (c_Policies a)" using assms(1-3) by (simp add: appendWhitespaceTag_def)
  have d: "drop (length m + length whitespaceTagHeader) w = (if ?x then whitespaceTag OtrV2 else []) @ (if ?y then whitespaceTag OtrV3 else [])"
    by (simp add: w genWhitespaceTag_def)
  have "extractWhitespaceTag w = Some (m, ?vs)"
    using assms(4) unfolding extractWhitespaceTag_def by (simp only: bind.bind_lunit d tag_versions Let_def prod.case) (simp add: w)
  moreover have "bit ?vs 2 = ?x" "bit ?vs 3 = ?y" by (cases ?x; cases ?y; simp; code_simp)+
  ultimately show ?thesis
    using commitToVersionFrom_bits [OF assms(5,6), of ?vs] by (intro exI [of _ ?vs] conjI) (simp only:)+
qed

theorem whitespace_tag_negotiates_witness:
  "\<exists>vs. extractWhitespaceTag (fst (appendWhitespaceTag (str ''hello'') sample_open)) = Some (str ''hello'', vs)
    \<and> commitToVersionFrom vs sample_open = (None, sample_open\<lparr>c_version := Some OtrV3, c_ourCurrentKey := Some sample_key\<rparr>)"
proof -
  have "bytes_Index (fst (appendWhitespaceTag (str ''hello'') sample_open)) whitespaceTagHeader = Some (length (str ''hello''))"
    by code_simp
  then show ?thesis
    using whitespace_tag_negotiates [of "str ''hello''" sample_open "fst (appendWhitespaceTag (str ''hello'') sample_open)"
        "snd (appendWhitespaceTag (str ''hello'') sample_open)" sample_open]
    by (simp add: sample_open_def nil_conversation_def commits_def negotiated_def has_policy_def allowV2_def allowV3_def sendWhitespaceTag_def)
qed

section \<open>Types of messages\<close>

definition message_types :: "(byte \<times> messageTypeGuess) list" where
  "message_types = [(msgTypeDHCommit, msgGuessDHCommit), (msgTypeDHKey, msgGuessDHKey), (msgTypeRevealSig, msgGuessRevealSig),
     (msgTypeSig, msgGuessSignature), (msgTypeData, msgGuessData)]"

lemma wrapped_header:
  assumes "wrapMessageHeader t m c = Some (Inr w, c')"
  obtains v where "c_version c = Some v" "w = header_bytes v (c_ourInstanceTag c') (c_theirInstanceTag c') t @ m"
  using assms by (auto simp: wrapMessageHeader_def andThen_def messageHeader_def AppendWord_def
      split: Option.bind_splits option.splits otrVersion.splits prod.splits sum.splits)

text \<open>C23. Every message that is wrapped for the wire has the type it was given: in either version, whatever its body and
  the instance tags, the receiver of the encoded message takes it for the kind of message its header names.\<close>

theorem wire_messages_typed:
  assumes "wrapMessageHeader t m c = Some (Inr w, c')" "(t, g) \<in> set message_types"
  shows "guessMessageType (encode w) = g"
proof -
  obtain v where w: "w = header_bytes v (c_ourInstanceTag c') (c_theirInstanceTag c') t @ m"
    using wrapped_header [OF assms(1)] by blast
  consider "t = msgTypeDHCommit" "g = msgGuessDHCommit" | "t = msgTypeDHKey" "g = msgGuessDHKey"
    | "t = msgTypeRevealSig" "g = msgGuessRevealSig" | "t = msgTypeSig" "g = msgGuessSignature" | "t = msgTypeData" "g = msgGuessData"
    using assms(2) unfolding message_types_def by auto
  then show ?thesis by cases (simp_all only: w guessMessageType_encode)
qed

theorem wire_messages_typed_witness:
  "guessMessageType (encode (header_bytes OtrV3 256 0 msgTypeData @ [0])) = msgGuessData"
proof -
  have "wrapMessageHeader msgTypeData [0] (sample_party 200 256)
      = Some (Inr (header_bytes OtrV3 256 0 msgTypeData @ [0]), sample_party 200 256)"
    by (simp add: wrapMessageHeader_def andThen_def messageHeader_def AppendWord_def generateInstanceTag_def sample_party_def
        nil_conversation_def)
  then show ?thesis by (rule wire_messages_typed) (simp add: message_types_def)
qed

end
