(* ===== verification/Smp_Run.thy ===== *)
theory Smp_Run
  imports Smp_State_Machine Key_Rotation
begin

text \<open>
  A whole run of the socialist millionaires' protocol through the state machines of two conversations
  that follow it: which messages are exchanged, which states are passed, and that the comparison at
  the end tells whether the two secrets agree. The exponents are those the two sides read from
  their random sources.
\<close>

section \<open>What the two sides draw\<close>

definition draw :: "nat \<Rightarrow> bytes \<Rightarrow> nat \<Rightarrow> int" where
  "draw n r i = big_SetBytes (take n (drop (i * n) r))"

lemma draw_nonneg [simp]: "0 \<le> draw n r i"
  by (simp add: draw_def)

lemma randMPIs_drawn:
  "k * n \<le> length r \<Longrightarrow> randMPIs k n r = (map (\<lambda>i. Inr (draw n r i)) [0 ..< k], drop (k * n) r)"
proof (induction k arbitrary: r)
  case (Suc k)
  then have "n \<le> length r" by simp
  moreover have "randMPIs k n (drop n r) = (map (\<lambda>i. Inr (draw n r (Suc i))) [0 ..< k], drop (Suc k * n) r)"
    using Suc by (simp add: draw_def add.commute)
  moreover have "[0 ..< Suc k] = 0 # map Suc [0 ..< k]" by (simp add: map_Suc_upt upt_conv_Cons del: upt_Suc)
  ultimately show ?case by (simp add: randMPI_ok draw_def comp_def del: upt_Suc)
qed simp

lemma all_values_Inr: "all_values (map (\<lambda>i. Inr (f i)) xs) = Inr (map f xs)"
  by (induction xs) simp_all

text \<open>The states of the two sides before a message is made from them.\<close>

definition drawn1 :: "otrVersion \<Rightarrow> bytes \<Rightarrow> smp1State" where
  "drawn1 v r = (let d = draw (parameterLength v) r in
     \<lparr>s1_a2 = d 0, s1_a3 = d 1, s1_r2 = d 2, s1_r3 = d 3, s1_msg = nil_smp1Message\<rparr>)"

definition drawn2 :: "otrVersion \<Rightarrow> int \<Rightarrow> bytes \<Rightarrow> smp2State" where
  "drawn2 v y r = (let d = draw (parameterLength v) r in
     \<lparr>s2_y = y, s2_b2 = d 0, s2_b3 = d 1, s2_r2 = d 2, s2_r3 = d 3, s2_r4 = d 4, s2_r5 = d 5, s2_r6 = d 6,
      s2_g3a = 0, s2_g2 = 0, s2_g3 = 0, s2_pb = 0, s2_qb = 0, s2_msg = nil_smp2Message\<rparr>)"

definition drawn3 :: "otrVersion \<Rightarrow> int \<Rightarrow> bytes \<Rightarrow> smp3State" where
  "drawn3 v x r = (let d = draw (parameterLength v) r in
     \<lparr>s3_x = x, s3_g3b = 0, s3_r4 = d 0, s3_r5 = d 1, s3_r6 = d 2, s3_r7 = d 3, s3_qaqb = 0, s3_papb = 0,
      s3_msg = nil_smp3Message\<rparr>)"

lemma drawn_states_ok:
  "smp1State_ok (drawn1 v r)" "0 \<le> y \<Longrightarrow> smp2State_ok (drawn2 v y r)" "0 \<le> x \<Longrightarrow> smp3State_ok (drawn3 v x r)"
  by (simp_all add: drawn1_def drawn2_def drawn3_def smp1State_ok_def smp2State_ok_def smp3State_ok_def Let_def)

lemma generate_parameters:
  "4 * parameterLength v \<le> length r \<Longrightarrow> generateSMP1Parameters v r = (Inr (drawn1 v r), drop (4 * parameterLength v) r)"
  "7 * parameterLength v \<le> length r \<Longrightarrow> generateSMP2Parameters v r = (Inr (drawn2 v 0 r), drop (7 * parameterLength v) r)"
  "4 * parameterLength v \<le> length r \<Longrightarrow> generateSMP3Parameters v r = (Inr (drawn3 v 0 r), drop (4 * parameterLength v) r)"
  by (simp_all add: generateSMP1Parameters_def generateSMP2Parameters_def generateSMP3Parameters_def randMPIs_drawn all_values_Inr
      drawn1_def drawn2_def drawn3_def Let_def numeral_2_eq_2 del: upt_Suc upt_rec_numeral)

section \<open>The steps of a run\<close>

text \<open>A side of a run: encrypted, with its own and the peer's long-term key.\<close>

definition smp_party :: "otrVersion \<Rightarrow> DSAPrivateKey \<Rightarrow> DSAPublicKey \<Rightarrow> conversation \<Rightarrow> bool" where
  "smp_party v sk tk c \<longleftrightarrow> c_version c = Some v \<and> IsEncrypted c \<and> c_ourCurrentKey c = Some sk \<and> c_theirKey c = Some tk
     \<and> c_smpEventHandler c \<and> smp_state (c_smp c) = Some smpStateExpect1"

definition has_event :: "SMPEvent \<Rightarrow> conversation \<Rightarrow> bool" where
  "has_event e c \<longleftrightarrow> EvSMP e 100 [] \<in> set (c_events c)"

lemma start_step:
  assumes a: "smp_party v sk tk a" "4 * parameterLength v \<le> length (c_Rand a)"
  shows "\<exists>s1 a1. startAuthenticate S smpStateExpect1 q sa a = Some (Inr [smp1_tlv (s1_msg s1)], a1)
    \<and> smp_state (c_smp a1) = Some smpStateExpect2 \<and> smp_s1 (c_smp a1) = Some s1
    \<and> smp_secret (c_smp a1) = Some (generateSMPSecret S (Fingerprint S (sk_DSAPublicKey sk)) (Fingerprint S tk) (c_ssid a) sa v)
    \<and> c_Rand a1 = drop (4 * parameterLength v) (c_Rand a) \<and> c_version a1 = Some v \<and> c_smpEventHandler a1
    \<and> s1_a2 s1 = s1_a2 (drawn1 v (c_Rand a)) \<and> s1_a3 s1 = s1_a3 (drawn1 v (c_Rand a)) \<and> smp1State_ok s1
    \<and> verifySMP1 S v (s1_msg s1) = verifySMP1 S v (generateSMP1Message S (drawn1 v (c_Rand a)) v)
    \<and> m1_g2a (s1_msg s1) = gexp S (s1_a2 s1) \<and> m1_g3a (s1_msg s1) = gexp S (s1_a3 s1)"
  using a drawn_states_ok(1) [of v "c_Rand a"]
  by (simp add: startAuthenticate_def startAuthenticate_Expect1_def smp_party_def generateSMP1_def generate_parameters(1) Let_def
      smp1_message_fields verifySMP1_def smp1State_ok_def)

lemma answer_step:
  fixes sb :: bytes
  assumes b: "smp_party v sk tk b" "7 * parameterLength v \<le> length (c_Rand b)" and m1: "verifySMP1 S v m1 = None"
  defines "y \<equiv> generateSMPSecret S (Fingerprint S tk) (Fingerprint S (sk_DSAPublicKey sk)) (c_ssid b) sb v"
  shows "\<exists>b1 s2 m2 b2. receivedMessage S (Smp1 m1) b = Some ((None, None), b1)
    \<and> continueSMP S sb b1 = Some (Inr (smp2_tlv m2), b2) \<and> generateSMP2Message S (drawn2 v y (c_Rand b)) m1 v = (s2, m2)
    \<and> smp_s2 (c_smp b2) = Some (s2\<lparr>s2_msg := m2\<rparr>) \<and> smp_state (c_smp b2) = Some smpStateExpect3
    \<and> c_Rand b2 = drop (7 * parameterLength v) (c_Rand b) \<and> c_version b2 = Some v \<and> c_smpEventHandler b2"
proof -
  obtain s2 m2 where g: "generateSMP2Message S (drawn2 v y (c_Rand b)) m1 v = (s2, m2)" by fastforce
  have d: "(drawn2 v 0 (c_Rand b))\<lparr>s2_y := y\<rparr> = drawn2 v y (c_Rand b)" by (simp add: drawn2_def Let_def)
  obtain b1 where b1: "receivedMessage S (Smp1 m1) b = Some ((None, None), b1)" "smp_state (c_smp b1) = Some (smpStateWaitingForSecret m1)"
    "c_version b1 = Some v" "c_msgState b1 = encrypted" "c_ourCurrentKey b1 = Some sk" "c_theirKey b1 = Some tk" "c_ssid b1 = c_ssid b"
    "c_Rand b1 = c_Rand b" "c_smpEventHandler b1"
    using b(1) m1
    by (cases "m1_hasQuestion m1") (simp_all add: receivedMessage_def receiveMessage1_def smp_party_def set_smp_state_def
        smpEvent_def smpEventWithQuestion_def log_event_def IsEncrypted_def)
  have "\<exists>b2. continueSMP S sb b1 = Some (Inr (smp2_tlv m2), b2) \<and> smp_s2 (c_smp b2) = Some (s2\<lparr>s2_msg := m2\<rparr>)
    \<and> smp_state (c_smp b2) = Some smpStateExpect3 \<and> c_Rand b2 = drop (7 * parameterLength v) (c_Rand b) \<and> c_version b2 = Some v \<and> c_smpEventHandler b2"
    using b(2) b1 g
    by (simp add: continueSMP_def continueMessage1_def set_smp_state_def IsEncrypted_def generateSMP2_def generate_parameters(2) d Let_def y_def [symmetric])
  then show ?thesis using b1(1) g by blast
qed

lemma third_step:
  assumes a: "smp_state (c_smp a) = Some smpStateExpect2" "smp_s1 (c_smp a) = Some s1" "smp_secret (c_smp a) = Some x"
    "c_version a = Some v" "c_smpEventHandler a" "4 * parameterLength v \<le> length (c_Rand a)"
    and m2: "verifySMP2 S v s1 m2 = None" and g: "generateSMP3Message S (drawn3 v x (c_Rand a)) s1 m2 v = Some (s3, m3)"
  shows "\<exists>a2. receivedMessage S (Smp2 m2) a = Some ((Some (Smp3 m3), None), a2)
    \<and> smp_state (c_smp a2) = Some smpStateExpect4 \<and> smp_s1 (c_smp a2) = Some s1 \<and> smp_s3 (c_smp a2) = Some (s3\<lparr>s3_msg := m3\<rparr>)
    \<and> c_version a2 = Some v \<and> c_smpEventHandler a2"
proof -
  have d: "(drawn3 v 0 (c_Rand a))\<lparr>s3_x := x\<rparr> = drawn3 v x (c_Rand a)" by (simp add: drawn3_def Let_def)
  show ?thesis
    using assms by (simp add: receivedMessage_def receiveMessage2_def generateSMP3_def generate_parameters(3) d set_smp_state_def
        smpEvent_def smpEventWithQuestion_def log_event_def Let_def)
qed

lemma fourth_step:
  assumes b: "smp_state (c_smp b) = Some smpStateExpect3" "smp_s2 (c_smp b) = Some (s2\<lparr>s2_msg := m2\<rparr>)"
    "c_version b = Some v" "c_smpEventHandler b" "parameterLength v \<le> length (c_Rand b)"
    and m3: "verifySMP3 S v s2 m3 = Some None" "verifySMP3ProtocolSuccess S s2 m3 = Some (if same then None else Some e)"
    and m4: "generateSMP4Message S (draw (parameterLength v) (c_Rand b) 0) s2 m3 v = Some m4"
  shows "\<exists>b'. receivedMessage S (Smp3 m3) b = Some ((Some (if same then Smp4 m4 else SmpAbort), None), b')
    \<and> smp_state (c_smp b') = Some smpStateExpect1 \<and> has_event (if same then SMPEventSuccess else SMPEventFailure) b'"
proof -
  have r: "randMPI (parameterLength v) (c_Rand b) = (Inr (draw (parameterLength v) (c_Rand b) 0), drop (parameterLength v) (c_Rand b))"
    using b(5) by (simp add: randMPI_ok draw_def)
  have f: "verifySMP3 S v (s2\<lparr>s2_msg := m2\<rparr>) m3 = verifySMP3 S v s2 m3"
    "verifySMP3ProtocolSuccess S (s2\<lparr>s2_msg := m2\<rparr>) m3 = verifySMP3ProtocolSuccess S s2 m3"
    "generateSMP4Message S k (s2\<lparr>s2_msg := m2\<rparr>) m3 v = generateSMP4Message S k s2 m3 v" for k
    by (simp_all add: verifySMP3_def verifySMP3ProtocolSuccess_def generateSMP4Message_def)
  show ?thesis
    using assms by (simp add: receivedMessage_def receiveMessage3_def f generateSMP4_def generateSMP4Parameters_def r set_smp_state_def
        smpEvent_def smpEventWithQuestion_def log_event_def Let_def smp_wipe_def has_event_def sendSMPAbortAndRestartStateMachine_def abortState_def)
qed

lemma last_step:
  assumes a: "smp_state (c_smp a) = Some smpStateExpect4" "smp_s1 (c_smp a) = Some s1" "smp_s3 (c_smp a) = Some (s3\<lparr>s3_msg := m3\<rparr>)"
    "c_version a = Some v" "c_smpEventHandler a"
    and m4: "verifySMP4 S v s3 m4 = None" "verifySMP4ProtocolSuccess S s1 s3 m4 = None"
  shows "\<exists>a'. receivedMessage S (Smp4 m4) a = Some ((None, None), a') \<and> smp_state (c_smp a') = Some smpStateExpect1
    \<and> has_event SMPEventSuccess a'"
proof -
  have "verifySMP4 S v (s3\<lparr>s3_msg := m3\<rparr>) m4 = verifySMP4 S v s3 m4"
    "verifySMP4ProtocolSuccess S s1 (s3\<lparr>s3_msg := m3\<rparr>) m4 = verifySMP4ProtocolSuccess S s1 s3 m4"
    by (simp_all add: verifySMP4_def verifySMP4ProtocolSuccess_def)
  then show ?thesis
    using assms by (simp add: receivedMessage_def receiveMessage4_def set_smp_state_def
        smpEvent_def smpEventWithQuestion_def log_event_def smp_wipe_def has_event_def)
qed

section \<open>The comparison\<close>

text \<open>The generator has no smaller order than \<open>q\<close>.\<close>

definition exact_order :: "suite \<Rightarrow> bool" where
  "exact_order S \<longleftrightarrow> (\<forall>n. dh_g1 S ^ n mod dh_p S = 1 \<longrightarrow> dh_q S dvd int n)"

lemma gexp_one: "exact_order S \<Longrightarrow> 0 \<le> n \<Longrightarrow> gexp S n = 1 \<Longrightarrow> dh_q S dvd n"
  unfolding exact_order_def modExp_def big_Exp_def by (drule spec [of _ "nat n"]) simp

lemma gexp_eq_less:
  assumes "group_ok S" "exact_order S" "0 \<le> w" "coprime w (dh_q S)" "0 \<le> y" "y \<le> x" "gexp S (w * x) = gexp S (w * y)"
  shows "x mod dh_q S = y mod dh_q S"
proof -
  have nn: "0 \<le> w * (x - y)" "0 \<le> w * y" using assms by simp_all
  have sum: "w * (x - y) + w * y = w * x" by (simp add: right_diff_distrib)
  have "gexp S (w * (x - y)) * gexp S (w * y) mod dh_p S = gexp S (w * x)"
    using gexp_mul [OF nn, of S] unfolding sum bn_defs .
  also have "\<dots> = 1 * gexp S (w * y) mod dh_p S" using assms(7) gexp_range [OF assms(1), of "w * y"] by simp
  finally have eq: "gexp S (w * (x - y)) * gexp S (w * y) mod dh_p S = 1 * gexp S (w * y) mod dh_p S" .
  have p: "1 < dh_p S" using assms(1) by (simp add: group_ok_def)
  have "gexp S (w * (x - y)) = 1"
    by (rule gexp_cancel [OF assms(1) nn(2) _ _ _ _ eq]) (use gexp_range [OF assms(1), of "w * (x - y)"] p in simp_all)
  then have "dh_q S dvd w * (x - y)" using gexp_one [OF assms(2) nn(1)] by blast
  then have "dh_q S dvd x - y" using assms(4) by (simp add: coprime_commute coprime_dvd_mult_right_iff)
  then show ?thesis by (simp add: mod_eq_dvd_iff)
qed

lemma gexp_eq_iff:
  assumes "group_ok S" "exact_order S" "0 \<le> w" "coprime w (dh_q S)" "0 \<le> x" "0 \<le> y"
  shows "gexp S (w * x) = gexp S (w * y) \<longleftrightarrow> x mod dh_q S = y mod dh_q S"
proof
  assume "gexp S (w * x) = gexp S (w * y)"
  then show "x mod dh_q S = y mod dh_q S"
    using gexp_eq_less [OF assms(1-4), of y x] gexp_eq_less [OF assms(1-4), of x y] assms(5,6) by (cases "y \<le> x") auto
next
  assume "x mod dh_q S = y mod dh_q S"
  then have "(w * x) mod dh_q S = (w * y) mod dh_q S" by (metis mod_mult_right_eq)
  then show "gexp S (w * x) = gexp S (w * y)" using gexp_cong [OF assms(1)] assms by simp
qed

section \<open>A whole run\<close>

text \<open>The powers of the generator that the two sides send; version 3 checks each of them for being in the
  group. \<open>e\<close> is the logarithm of the quotient of \<open>Qa\<close> and \<open>Qb\<close>.\<close>

definition smp_logs :: "suite \<Rightarrow> smp1State \<Rightarrow> smp2State \<Rightarrow> smp3State \<Rightarrow> int list" where
  "smp_logs S s1 s2 s3 =
     (let k2 = s1_a2 s1 * s2_b2 s2; k3 = s1_a3 s1 * s2_b3 s2;
          ea = s3_r4 s3 + k2 * s3_x s3; eb = s2_r4 s2 + k2 * s2_y s2; e = (ea - eb) mod dh_q S
      in [s1_a2 s1, s1_a3 s1, s2_b2 s2, s2_b3 s2, k3 * s2_r4 s2, eb, k3 * s3_r4 s3, ea, e * s1_a3 s1, e * s2_b3 s2])"

definition smp_draws_ok :: "suite \<Rightarrow> otrVersion \<Rightarrow> smp1State \<Rightarrow> smp2State \<Rightarrow> smp3State \<Rightarrow> bool" where
  "smp_draws_ok S v s1 s2 s3 \<longleftrightarrow> list_all (\<lambda>l. v_isGroupElement S v (gexp S l)) (smp_logs S s1 s2 s3)
     \<and> coprime (s1_a2 s1 * s2_b2 s2 * (s1_a3 s1 * s2_b3 s2)) (dh_q S)"

text \<open>C7. The socialist millionaires' protocol compares the secrets. Two encrypted conversations that know each other's keys
  run the protocol through their state machines: the first starts with its secret, the second is asked for and
  gives its own, every proof of knowledge verifies and every message is answered by the next one. When
  the two secrets are equal modulo the group order, both sides finish with a success event; otherwise the second side
  reports failure and answers with an abort. Equal texts entered under the same session id give
  equal secrets.\<close>

theorem smp_compares_secrets:
  fixes sa sb q :: bytes
  assumes grp: "group_ok S" "exact_order S"
    and a: "smp_party v ska tka a" "8 * parameterLength v \<le> length (c_Rand a)"
    and b: "smp_party v skb tkb b" "8 * parameterLength v \<le> length (c_Rand b)"
  defines "x \<equiv> generateSMPSecret S (Fingerprint S (sk_DSAPublicKey ska)) (Fingerprint S tka) (c_ssid a) sa v"
    and "y \<equiv> generateSMPSecret S (Fingerprint S tkb) (Fingerprint S (sk_DSAPublicKey skb)) (c_ssid b) sb v"
  assumes draws: "smp_draws_ok S v (drawn1 v (c_Rand a)) (drawn2 v y (c_Rand b)) (drawn3 v x (drop (4 * parameterLength v) (c_Rand a)))"
  shows "\<exists>m1 a1 b1 m2 b2 m3 a2 m4 b3.
      startAuthenticate S smpStateExpect1 q sa a = Some (Inr [smp1_tlv m1], a1)
    \<and> receivedMessage S (Smp1 m1) b = Some ((None, None), b1) \<and> continueSMP S sb b1 = Some (Inr (smp2_tlv m2), b2)
    \<and> receivedMessage S (Smp2 m2) a1 = Some ((Some (Smp3 m3), None), a2)
    \<and> receivedMessage S (Smp3 m3) b2 = Some ((Some (if x mod dh_q S = y mod dh_q S then Smp4 m4 else SmpAbort), None), b3)
    \<and> has_event (if x mod dh_q S = y mod dh_q S then SMPEventSuccess else SMPEventFailure) b3
    \<and> (x mod dh_q S = y mod dh_q S \<longrightarrow>
        (\<exists>a3. receivedMessage S (Smp4 m4) a2 = Some ((None, None), a3) \<and> has_event SMPEventSuccess a3))
    \<and> (Fingerprint S tka = Fingerprint S (sk_DSAPublicKey skb) \<and> Fingerprint S tkb = Fingerprint S (sk_DSAPublicKey ska)
        \<and> c_ssid a = c_ssid b \<and> sa = sb \<longrightarrow> x = y)"
proof -
  let ?L = "parameterLength v" let ?ra = "drop (4 * ?L) (c_Rand a)" let ?rb = "drop (7 * ?L) (c_Rand b)"
  have nn: "0 \<le> x" "0 \<le> y" by (simp_all add: x_def y_def generateSMPSecret_def)
  obtain s1 a1 where st: "startAuthenticate S smpStateExpect1 q sa a = Some (Inr [smp1_tlv (s1_msg s1)], a1)"
      "smp_state (c_smp a1) = Some smpStateExpect2" "smp_s1 (c_smp a1) = Some s1" "smp_secret (c_smp a1) = Some x" "c_Rand a1 = ?ra"
      "c_version a1 = Some v" "c_smpEventHandler a1"
    and s1: "s1_a2 s1 = s1_a2 (drawn1 v (c_Rand a))" "s1_a3 s1 = s1_a3 (drawn1 v (c_Rand a))" "smp1State_ok s1"
      "verifySMP1 S v (s1_msg s1) = verifySMP1 S v (generateSMP1Message S (drawn1 v (c_Rand a)) v)"
      "m1_g2a (s1_msg s1) = gexp S (s1_a2 s1)" "m1_g3a (s1_msg s1) = gexp S (s1_a3 s1)"
    using start_step [OF a(1), of S q sa] a(2) x_def by auto
  let ?d2 = "drawn2 v y (c_Rand b)" and ?d3 = "drawn3 v x ?ra"
  note ok = s1(3) drawn_states_ok(2) [OF nn(2), of v "c_Rand b"] drawn_states_ok(3) [OF nn(1), of v ?ra]
  have g: "list_all (\<lambda>l. v_isGroupElement S v (gexp S l)) (smp_logs S s1 ?d2 ?d3)"
    and cop: "coprime (s1_a2 s1 * s2_b2 ?d2 * (s1_a3 s1 * s2_b3 ?d2)) (dh_q S)"
    using draws s1(1,2) by (simp_all add: smp_draws_ok_def smp_logs_def Let_def)
  note g = g [unfolded smp_logs_def Let_def, simplified]
  have v1: "verifySMP1 S v (s1_msg s1) = None"
    using smp1_message [OF grp(1) drawn_states_ok(1), of v v "c_Rand a"] g s1(1,2,4) by simp
  obtain b1 s2 m2 b2 where an: "receivedMessage S (Smp1 (s1_msg s1)) b = Some ((None, None), b1)" "continueSMP S sb b1 = Some (Inr (smp2_tlv m2), b2)"
      "generateSMP2Message S ?d2 (s1_msg s1) v = (s2, m2)" "smp_s2 (c_smp b2) = Some (s2\<lparr>s2_msg := m2\<rparr>)"
      "smp_state (c_smp b2) = Some smpStateExpect3" "c_Rand b2 = ?rb" "c_version b2 = Some v" "c_smpEventHandler b2"
    using answer_step [OF b(1) _ v1, of sb] b(2) y_def by auto
  note c2 = smp2_computed [OF grp(1) ok(1,2) s1(5,6) an(3)]
  have v2: "verifySMP2 S v s1 m2 = None"
    using verifySMP2_honest [OF grp(1) ok(1,2) s1(5,6) an(3)] g c2 by (simp add: smp2_computed_def)
  obtain s3 m3 where c3: "generateSMP3Message S ?d3 s1 m2 v = Some (s3, m3)" "smp3_computed S s1 ?d2 ?d3 s3 m3"
    using smp3_computed [OF grp(1) ok c2, of v] by blast
  have v3: "verifySMP3 S v s2 m3 = Some None"
    using verifySMP3_honest [OF grp(1) ok c2 c3(1)] g c3(2) by (simp add: smp3_computed_def Let_def)
  have la: "4 * ?L \<le> length (c_Rand a1)" and lb: "?L \<le> length (c_Rand b2)" using a(2) b(2) by (simp_all add: st(5) an(6))
  obtain a2 where a2: "receivedMessage S (Smp2 m2) a1 = Some ((Some (Smp3 m3), None), a2)" "smp_state (c_smp a2) = Some smpStateExpect4"
      "smp_s1 (c_smp a2) = Some s1" "smp_s3 (c_smp a2) = Some (s3\<lparr>s3_msg := m3\<rparr>)" "c_version a2 = Some v" "c_smpEventHandler a2"
    using third_step [OF st(2-4,6,7) la v2, of s3 m3] c3(1) st(5) by auto
  let ?w = "s1_a2 s1 * s2_b2 ?d2 * (s1_a3 s1 * s2_b3 ?d2)"
  have w: "0 \<le> ?w" using ok(1,2) by (simp add: smp1State_ok_def smp2State_ok_def)
  have xy: "s3_x ?d3 = x" "s2_y ?d2 = y" by (simp_all add: drawn2_def drawn3_def Let_def)
  note same = gexp_eq_iff [OF grp w cop nn]
  obtain m4 where m4: "generateSMP4Message S (draw ?L ?rb 0) s2 m3 v = Some m4"
      "verifySMP4 S v s3 m4 = (if \<not> v_isGroupElement S v (m4_rb m4) then Some (newOtrError ''Rb is an invalid group element'') else None)"
      "verifySMP4ProtocolSuccess S s1 s3 m4 = (if x mod dh_q S = y mod dh_q S then None else Some (newOtrError ''protocol failed: x != y''))"
      "m4_rb m4 = gexp S ((s3_r4 ?d3 + s1_a2 s1 * s2_b2 ?d2 * s3_x ?d3 - (s2_r4 ?d2 + s1_a2 s1 * s2_b2 ?d2 * s2_y ?d2)) mod dh_q S * s2_b3 ?d2)"
    using smp4_honest [OF grp(1) ok draw_nonneg c2 c3(2), of ?L ?rb 0 v] same xy by auto
  have "verifySMP3ProtocolSuccess S s2 m3 = Some (if x mod dh_q S = y mod dh_q S then None else Some (newOtrError ''protocol failed: x != y''))"
    using smp_secrets_match [OF grp(1) ok c2 c3(2)] same xy by simp
  then obtain b3 where b3: "receivedMessage S (Smp3 m3) b2 = Some ((Some (if x mod dh_q S = y mod dh_q S then Smp4 m4 else SmpAbort), None), b3)"
      "has_event (if x mod dh_q S = y mod dh_q S then SMPEventSuccess else SMPEventFailure) b3"
    using fourth_step [OF an(5,4,7,8) lb v3, of "x mod dh_q S = y mod dh_q S"] m4(1) an(6) by fastforce
  have "v_isGroupElement S v (m4_rb m4)" using g m4(4) xy by simp
  then have "\<exists>a3. receivedMessage S (Smp4 m4) a2 = Some ((None, None), a3) \<and> has_event SMPEventSuccess a3" if "x mod dh_q S = y mod dh_q S"
    using last_step [OF a2(2-6)] m4(2,3) that by auto
  moreover have "x = y" if "Fingerprint S tka = Fingerprint S (sk_DSAPublicKey skb)" "Fingerprint S tkb = Fingerprint S (sk_DSAPublicKey ska)"
      "c_ssid a = c_ssid b" "sa = sb" using that by (simp add: x_def y_def)
  ultimately show ?thesis using st(1) an(1,2) a2(1) b3
    by (intro exI [of _ "s1_msg s1"] exI [of _ a1] exI [of _ b1] exI [of _ m2] exI [of _ b2] exI [of _ m3] exI [of _ a2] exI [of _ m4] exI [of _ b3]) simp
qed

text \<open>Two sides over the toy group whose exponents are all 1.\<close>

definition toy_draws :: bytes where
  "toy_draws = concat (replicate 8 (replicate 15 0 @ [1]))"

definition toy_long_term :: DSAPrivateKey where
  "toy_long_term = (let pub = \<lparr>pk_loc = 0, pk_P = Some 7, pk_Q = Some 3, pk_G = Some 2, pk_Y = Some 4\<rparr>
     in \<lparr>sk_DSAPublicKey = pub, sk_P = Some 7, sk_Q = Some 3, sk_G = Some 2, sk_Y = Some 4, sk_X = Some 2\<rparr>)"

definition toy_smp_side :: conversation where
  "toy_smp_side = (nil_conversation toy_draws (\<lambda>_. 0) 1)\<lparr>c_version := Some OtrV2, c_msgState := encrypted,
     c_ourCurrentKey := Some toy_long_term, c_theirKey := Some (sk_DSAPublicKey toy_long_term), c_smpEventHandler := True,
     c_smp := nil_smp\<lparr>smp_state := Some smpStateExpect1\<rparr>\<rparr>"

lemma toy_group: "group_ok toy_suite" "exact_order toy_suite"
proof -
  show "group_ok toy_suite" by (simp add: group_ok_def toy_suite_def)
  have "(2 :: int) ^ n mod 23 = 2 ^ (n mod 11) mod 23" for n
  proof -
    have "(2 :: int) ^ n = (2 ^ 11) ^ (n div 11) * 2 ^ (n mod 11)"
      unfolding power_mult [symmetric] power_add [symmetric] by (simp only: mult_div_mod_eq)
    moreover have "((2 :: int) ^ 11) ^ k mod 23 = 1" for k
      using power_mod [of "(2 :: int) ^ 11" 23 k] by simp
    ultimately show ?thesis by (metis mod_mult_left_eq mult_1)
  qed
  moreover have "(2 :: int) ^ r mod 23 \<noteq> 1" if "r \<noteq> 0" "r < 11" for r
  proof -
    have "r = 1 \<or> r = 2 \<or> r = 3 \<or> r = 4 \<or> r = 5 \<or> r = 6 \<or> r = 7 \<or> r = 8 \<or> r = 9 \<or> r = 10" using that by arith
    then show ?thesis by auto
  qed
  ultimately have "11 dvd n" if "(2 :: int) ^ n mod 23 = 1" for n
    using that by (metis mod_eq_0_iff_dvd mod_less_divisor zero_less_numeral)
  then show "exact_order toy_suite" by (auto simp: exact_order_def toy_suite_def) (metis int_dvd_int_iff of_nat_numeral)
qed

lemma toy_side:
  "smp_party OtrV2 toy_long_term (sk_DSAPublicKey toy_long_term) toy_smp_side" "8 * parameterLength OtrV2 \<le> length (c_Rand toy_smp_side)"
proof -
  have "length toy_draws = 128" by (simp add: toy_draws_def numeral_eq_Suc)
  then show "smp_party OtrV2 toy_long_term (sk_DSAPublicKey toy_long_term) toy_smp_side" "8 * parameterLength OtrV2 \<le> length (c_Rand toy_smp_side)"
    by (simp_all add: smp_party_def toy_smp_side_def nil_conversation_def IsEncrypted_def)
qed

theorem smp_compares_secrets_witness:
  "\<exists>m1 a1 b1 m2 b2 m3 a2 m4 b3 a3. startAuthenticate toy_suite smpStateExpect1 [] (str ''s'') toy_smp_side = Some (Inr [smp1_tlv m1], a1)
    \<and> receivedMessage toy_suite (Smp1 m1) toy_smp_side = Some ((None, None), b1) \<and> continueSMP toy_suite (str ''s'') b1 = Some (Inr (smp2_tlv m2), b2)
    \<and> receivedMessage toy_suite (Smp2 m2) a1 = Some ((Some (Smp3 m3), None), a2)
    \<and> receivedMessage toy_suite (Smp3 m3) b2 = Some ((Some (Smp4 m4), None), b3) \<and> has_event SMPEventSuccess b3
    \<and> receivedMessage toy_suite (Smp4 m4) a2 = Some ((None, None), a3) \<and> has_event SMPEventSuccess a3"
proof -
  have "draw 16 toy_draws 0 = 1" "draw 16 toy_draws 1 = 1" by code_simp+
  then have d: "smp_draws_ok toy_suite OtrV2 (drawn1 OtrV2 (c_Rand toy_smp_side)) (drawn2 OtrV2 y (c_Rand toy_smp_side)) s3" for y s3
    by (simp add: smp_draws_ok_def smp_logs_def drawn1_def drawn2_def Let_def toy_smp_side_def nil_conversation_def)
  show ?thesis
    using smp_compares_secrets [OF toy_group toy_side toy_side d, of "[]" "str ''s''" "str ''s''"] by (simp only: if_True simp_thms refl) blast
qed

section \<open>Version 2 does not check the group\<close>

text \<open>Messages of somebody who knows no secret: every power sent is 1 and every proof has response 0.\<close>

definition forged_smp1 :: "suite \<Rightarrow> smp1Message" where
  "forged_smp1 S = nil_smp1Message\<lparr>m1_g2a := 1, m1_g3a := 1, m1_c2 := hashMPIsBN (v_hash2 S OtrV2) 1 [1], m1_d2 := 0,
     m1_c3 := hashMPIsBN (v_hash2 S OtrV2) 2 [1], m1_d3 := 0\<rparr>"

definition forged_smp3 :: "suite \<Rightarrow> smp3Message" where
  "forged_smp3 S = \<lparr>m3_pa = 1, m3_qa = 1, m3_cp = hashMPIsBN (v_hash2 S OtrV2) 6 [1, 1], m3_d5 = 0, m3_d6 = 0, m3_d7 = 0,
     m3_ra = 1, m3_cr = hashMPIsBN (v_hash2 S OtrV2) 7 [1, 1]\<rparr>"

lemma modExp_trivial: "group_ok S \<Longrightarrow> modExp S 1 e = 1" "group_ok S \<Longrightarrow> modExp S g 0 = 1" "group_ok S \<Longrightarrow> mulMod 1 1 (dh_p S) = 1"
  by (simp_all add: group_ok_def modExp_def big_Exp_def bn_defs)

text \<open>C35. In version 2 anybody passes the comparison. There the code accepts every number as a group element, so a peer who
  sends 1 for each power and trivially valid proofs makes all checks succeed: whatever secret the
  user enters, the state machine accepts both messages, reports success and answers with the last message.\<close>

theorem smp_v2_forgery:
  assumes "group_ok S" "smp_party OtrV2 sk tk b" "8 * parameterLength OtrV2 \<le> length (c_Rand b)"
  shows "\<exists>b1 t b2 m4 b3. receivedMessage S (Smp1 (forged_smp1 S)) b = Some ((None, None), b1) \<and> continueSMP S secret b1 = Some (Inr t, b2)
    \<and> receivedMessage S (Smp3 (forged_smp3 S)) b2 = Some ((Some (Smp4 m4), None), b3) \<and> has_event SMPEventSuccess b3"
proof -
  note e = modExp_trivial [OF assms(1)]
  define y where "y = generateSMPSecret S (Fingerprint S tk) (Fingerprint S (sk_DSAPublicKey sk)) (c_ssid b) secret OtrV2"
  let ?d = "drawn2 OtrV2 y (c_Rand b)"
  have v1: "verifySMP1 S OtrV2 (forged_smp1 S) = None"
    by (simp add: verifySMP1_def forged_smp1_def verifyZKP_def e eq_def)
  obtain b1 s2 m2 b2 where an: "receivedMessage S (Smp1 (forged_smp1 S)) b = Some ((None, None), b1)" "continueSMP S secret b1 = Some (Inr (smp2_tlv m2), b2)"
      "generateSMP2Message S ?d (forged_smp1 S) OtrV2 = (s2, m2)" "smp_s2 (c_smp b2) = Some (s2\<lparr>s2_msg := m2\<rparr>)"
      "smp_state (c_smp b2) = Some smpStateExpect3" "c_Rand b2 = drop (7 * parameterLength OtrV2) (c_Rand b)" "c_version b2 = Some OtrV2" "c_smpEventHandler b2"
    using answer_step [OF assms(2) _ v1, of secret] assms(3) y_def by auto
  have lb: "parameterLength OtrV2 \<le> length (c_Rand b2)" using assms(3) by (simp add: an(6))
  have r4: "0 \<le> s2_r4 ?d" by (simp add: drawn2_def Let_def)
  have s2: "s2_g2 s2 = 1" "s2_g3 s2 = 1" "s2_g3a s2 = 1" "s2_pb s2 = 1" "s2_qb s2 = gexp S (s2_r4 ?d)"
    using an(3) gexp_range [OF assms(1), of "s2_r4 ?d"]
    by (auto simp: generateSMP2Message_def forged_smp1_def e split_def Let_def mulMod_def mul_def)
  obtain qaqb where q: "divMod 1 (s2_qb s2) (dh_p S) = Some qaqb"
    using divMod_gexp [OF assms(1), of 0 "s2_r4 ?d"] r4 s2(5) gexp_0 [OF assms(1)] by auto
  have p: "divMod 1 (s2_pb s2) (dh_p S) = Some 1"
    using divMod_gexp [OF assms(1), of 0 0] s2(4) gexp_0 [OF assms(1)] by simp
  have v3: "verifySMP3 S OtrV2 s2 (forged_smp3 S) = Some None"
    using q by (simp add: verifySMP3_def forged_smp3_def verifyZKP3_def verifyZKP4_def s2(1-3) e eq_def mul_def)
  have "verifySMP3ProtocolSuccess S s2 (forged_smp3 S) = Some (if True then None else Some errShortRandomRead)"
    using p by (simp add: verifySMP3ProtocolSuccess_def forged_smp3_def e eq_def)
  moreover obtain m4 where "generateSMP4Message S (draw (parameterLength OtrV2) (c_Rand b2) 0) s2 (forged_smp3 S) OtrV2 = Some m4"
    using q by (auto simp: generateSMP4Message_def forged_smp3_def Let_def)
  ultimately obtain b3 where "receivedMessage S (Smp3 (forged_smp3 S)) b2 = Some ((Some (if True then Smp4 m4 else SmpAbort), None), b3)"
      "has_event (if True then SMPEventSuccess else SMPEventFailure) b3"
    using fourth_step [OF an(5,4,7,8) lb v3, of True] by blast
  with an(1,2) show ?thesis
    by (intro exI [of _ b1] exI [of _ "smp2_tlv m2"] exI [of _ b2] exI [of _ m4] exI [of _ b3]) simp
qed

theorem smp_v2_forgery_witness:
  "\<exists>b1 t b2 m4 b3. receivedMessage toy_suite (Smp1 (forged_smp1 toy_suite)) toy_smp_side = Some ((None, None), b1)
    \<and> continueSMP toy_suite (str ''only we know'') b1 = Some (Inr t, b2)
    \<and> receivedMessage toy_suite (Smp3 (forged_smp3 toy_suite)) b2 = Some ((Some (Smp4 m4), None), b3) \<and> has_event SMPEventSuccess b3"
  by (rule smp_v2_forgery [OF toy_group(1) toy_side])

end
