(* ===== verification/Sexp.thy ===== *)
theory Sexp
  imports Go_Std "HOL-Library.Monad_Syntax" "HOL-Library.Sublist"
begin

text \<open>
  The package \<^verbatim>\<open>sexp\<close>: s-expression values, their printed form and the reader that the key
  files of libotr are read with. The reader works on a \<^verbatim>\<open>bufio.Reader\<close> over a byte string that
  ends with EOF. The recursion of the reader need not end, so \<^verbatim>\<open>ReadValue\<close>, \<^verbatim>\<open>ReadList\<close> and
  \<^verbatim>\<open>ReadListItem\<close> take fuel, the depth of the stack, and \<open>None\<close> is a stack that is too deep.
\<close>

section \<open>bufio.Reader\<close>

text \<open>The bytes still to be read and the byte that \<^verbatim>\<open>UnreadByte\<close> would put back: the last one read,
  unless it was put back already. A read at EOF does not change it.\<close>

record Reader =
  rd_last :: "byte option"
  rd_rest :: bytes

definition NewReader :: "bytes \<Rightarrow> Reader" where
  "NewReader b = \<lparr>rd_last = None, rd_rest = b\<rparr>"

definition ReadByte :: "Reader \<Rightarrow> byte option \<times> Reader" where
  "ReadByte r = (case rd_rest r of [] \<Rightarrow> (None, r) | c # cs \<Rightarrow> (Some c, \<lparr>rd_last = Some c, rd_rest = cs\<rparr>))"

definition UnreadByte :: "Reader \<Rightarrow> Reader" where
  "UnreadByte r = (case rd_last r of None \<Rightarrow> r | Some c \<Rightarrow> \<lparr>rd_last = None, rd_rest = c # rd_rest r\<rparr>)"

section \<open>sexp.go: peeking, white space, delimiters\<close>

definition peek :: "Reader \<Rightarrow> byte option \<times> Reader" where
  "peek r = (case ReadByte r of (None, r1) \<Rightarrow> (None, r1) | (Some c, r1) \<Rightarrow> (Some c, UnreadByte r1))"

definition isWhitespace :: "byte \<Rightarrow> bool" where
  "isWhitespace c \<longleftrightarrow> c = 32 \<or> c = 9 \<or> c = 10 \<or> c = 13"

definition isNotSymbolCharacter :: "byte \<Rightarrow> bool" where
  "isNotSymbolCharacter c \<longleftrightarrow> isWhitespace c \<or> c = 40 \<or> c = 41"

lemma peek_simps [simp]:
  "rd_rest r = [] \<Longrightarrow> peek r = (None, r)"
  "rd_rest r = c # cs \<Longrightarrow> peek r = (Some c, \<lparr>rd_last = None, rd_rest = c # cs\<rparr>)"
  by (simp_all add: peek_def ReadByte_def UnreadByte_def)

lemma peek_rest: "rd_rest (snd (peek r)) = rd_rest r"
  by (cases "rd_rest r") simp_all

function ReadWhitespace :: "Reader \<Rightarrow> Reader" where
  "ReadWhitespace r =
     (case peek r of
        (None, r1) \<Rightarrow> r1
      | (Some c, r1) \<Rightarrow> if isWhitespace c then ReadWhitespace (snd (ReadByte r1)) else r1)"
  by pat_completeness auto
termination
  by (relation "measure (\<lambda>r. length (rd_rest r))")
     (auto simp: peek_def ReadByte_def UnreadByte_def split: list.splits)

declare ReadWhitespace.simps [simp del]

definition expect :: "byte \<Rightarrow> Reader \<Rightarrow> bool \<times> Reader" where
  "expect c r =
     (case ReadByte (ReadWhitespace r) of (b, r1) \<Rightarrow>
        let res = (case b of None \<Rightarrow> 0 | Some x \<Rightarrow> x);
            r2 = (if res \<noteq> c then UnreadByte r1 else r1)
        in (res = c \<and> b \<noteq> None, r2))"

definition untilFixed :: "byte \<Rightarrow> byte \<Rightarrow> bool" where
  "untilFixed b until \<longleftrightarrow> until = b"

function ReadDataUntil :: "(byte \<Rightarrow> bool) \<Rightarrow> Reader \<Rightarrow> bytes \<times> Reader" where
  "ReadDataUntil until r =
     (case peek r of
        (None, r1) \<Rightarrow> ([], r1)
      | (Some c, r1) \<Rightarrow>
          if until c then ([], r1)
          else (case ReadDataUntil until (snd (ReadByte r1)) of (result, r2) \<Rightarrow> (c # result, r2)))"
  by pat_completeness auto
termination
  by (relation "measure (\<lambda>(u, r). length (rd_rest r))")
     (auto simp: peek_def ReadByte_def UnreadByte_def split: list.splits)

declare ReadDataUntil.simps [simp del]

section \<open>Values\<close>

text \<open>The implementations of the interface \<^verbatim>\<open>Value\<close>; a nil interface is \<open>None\<close>. A number that
  does not parse is a nil \<^verbatim>\<open>*big.Int\<close>.\<close>

datatype Value =
    Cons (cons_first: "Value option") (cons_second: "Value option")
  | Snil
  | Sstring bytes
  | BigNum "int option"
  | Symbol bytes

text \<open>\<^verbatim>\<open>First\<close> and \<^verbatim>\<open>Second\<close> panic on atoms, \<^verbatim>\<open>String\<close> on a nil interface inside a cell.\<close>

fun First :: "Value \<Rightarrow> Value option option" where
  "First (Cons a b) = Some a"
| "First Snil = Some (Some Snil)"
| "First (BigNum n) = None"
| "First (Sstring s) = None"
| "First (Symbol s) = None"

fun Second :: "Value \<Rightarrow> Value option option" where
  "Second (Cons a b) = Some b"
| "Second Snil = Some (Some Snil)"
| "Second (BigNum n) = None"
| "Second (Sstring s) = None"
| "Second (Symbol s) = None"

text \<open>\<^verbatim>\<open>fmt.Sprintf("%X", n)\<close> of a \<^verbatim>\<open>*big.Int\<close>.\<close>

definition fmt_X :: "int option \<Rightarrow> bytes" where
  "fmt_X v =
     (case v of
        None \<Rightarrow> str ''<nil>''
      | Some n \<Rightarrow> (if n < 0 then [45] else []) @ map upper (fmt_num 16 1 (nat \<bar>n\<bar>)))"

fun Value_String :: "Value \<Rightarrow> bytes option" where
  "Value_String (Cons a b) =
     (case (a, b) of
        (Some x, Some y) \<Rightarrow>
          do { sx \<leftarrow> Value_String x; sy \<leftarrow> Value_String y; Some ([40] @ sx @ str '' . '' @ sy @ [41]) }
      | _ \<Rightarrow> None)"
| "Value_String Snil = Some (str ''()'')"
| "Value_String (Sstring s) = Some ([34] @ s @ [34])"
| "Value_String (BigNum n) = Some ([35] @ fmt_X n @ [35])"
| "Value_String (Symbol s) = Some s"

fun sexp_List :: "Value option list \<Rightarrow> Value" where
  "sexp_List [] = Snil"
| "sexp_List (v # vs) = Cons v (Some (sexp_List vs))"

text \<open>\<^verbatim>\<open>big.Int.SetString(s, 16)\<close>: an optional sign and at least one digit.\<close>

definition big_SetString16 :: "bytes \<Rightarrow> int option" where
  "big_SetString16 s =
     (let neg = (s \<noteq> [] \<and> hd s = 45);
          ds = (if s \<noteq> [] \<and> (hd s = 43 \<or> hd s = 45) then tl s else s)
      in map_option (\<lambda>n. if neg then - int n else int n) (parse_uint 16 ds))"

definition NewBigNum :: "bytes \<Rightarrow> Value" where
  "NewBigNum s = BigNum (big_SetString16 s)"

section \<open>Reading\<close>

definition ReadListStart :: "Reader \<Rightarrow> bool \<times> Reader" where
  "ReadListStart r = expect 40 r"

definition ReadListEnd :: "Reader \<Rightarrow> bool \<times> Reader" where
  "ReadListEnd r = expect 41 r"

definition ReadBigNumStart :: "Reader \<Rightarrow> bool \<times> Reader" where
  "ReadBigNumStart r = expect 35 r"

definition ReadBigNumEnd :: "Reader \<Rightarrow> bool \<times> Reader" where
  "ReadBigNumEnd r = expect 35 r"

definition ReadStringStart :: "Reader \<Rightarrow> bool \<times> Reader" where
  "ReadStringStart r = expect 34 r"

definition ReadStringEnd :: "Reader \<Rightarrow> bool \<times> Reader" where
  "ReadStringEnd r = expect 34 r"

definition ReadBigNum :: "Reader \<Rightarrow> Value option \<times> Reader" where
  "ReadBigNum r =
     (case ReadBigNumStart (ReadWhitespace r) of (ok1, r1) \<Rightarrow>
        if \<not> ok1 then (None, r1)
        else (case ReadDataUntil (untilFixed 35) r1 of (result, r2) \<Rightarrow>
              (case ReadBigNumEnd r2 of (ok2, r3) \<Rightarrow>
                 if \<not> ok2 then (None, r3) else (Some (NewBigNum result), r3))))"

definition ReadString :: "Reader \<Rightarrow> Value option \<times> Reader" where
  "ReadString r =
     (case ReadStringStart (ReadWhitespace r) of (ok1, r1) \<Rightarrow>
        if \<not> ok1 then (None, r1)
        else (case ReadDataUntil (untilFixed 34) r1 of (result, r2) \<Rightarrow>
              (case ReadStringEnd r2 of (ok2, r3) \<Rightarrow>
                 if \<not> ok2 then (None, r3) else (Some (Sstring result), r3))))"

definition ReadSymbol :: "Reader \<Rightarrow> Value option \<times> Reader" where
  "ReadSymbol r =
     (case ReadDataUntil isNotSymbolCharacter (ReadWhitespace r) of (result, r1) \<Rightarrow> (Some (Symbol result), r1))"

fun ReadValue :: "nat \<Rightarrow> Reader \<Rightarrow> ((Value option \<times> bool) \<times> Reader) option"
  and ReadList :: "nat \<Rightarrow> Reader \<Rightarrow> (Value option \<times> Reader) option"
  and ReadListItem :: "nat \<Rightarrow> Reader \<Rightarrow> (Value \<times> Reader) option" where
  "ReadValue 0 r = None"
| "ReadValue (Suc n) r =
     (case peek (ReadWhitespace r) of
        (None, r1) \<Rightarrow> Some ((None, True), r1)
      | (Some c, r1) \<Rightarrow>
          if c = 40 then do { (v, r2) \<leftarrow> ReadList n r1; Some ((v, False), r2) }
          else if c = 41 then Some ((None, True), r1)
          else if c = 34 then (case ReadString r1 of (v, r2) \<Rightarrow> Some ((v, False), r2))
          else if c = 35 then (case ReadBigNum r1 of (v, r2) \<Rightarrow> Some ((v, False), r2))
          else (case ReadSymbol r1 of (v, r2) \<Rightarrow> Some ((v, False), r2)))"
| "ReadList 0 r = None"
| "ReadList (Suc n) r =
     (case ReadListStart (ReadWhitespace r) of (ok1, r1) \<Rightarrow>
        if \<not> ok1 then Some (None, r1)
        else do { (result, r2) \<leftarrow> ReadListItem n r1;
                  case ReadListEnd r2 of (ok2, r3) \<Rightarrow>
                    if \<not> ok2 then Some (None, r3) else Some (Some result, r3) })"
| "ReadListItem 0 r = None"
| "ReadListItem (Suc n) r =
     do { ((val, end), r1) \<leftarrow> ReadValue n (ReadWhitespace r);
          if end then Some (Snil, r1)
          else do { (rest, r2) \<leftarrow> ReadListItem n r1; Some (Cons val (Some rest), r2) } }"

definition sexp_Read :: "nat \<Rightarrow> Reader \<Rightarrow> (Value option \<times> Reader) option" where
  "sexp_Read n r = do { ((res, _), r1) \<leftarrow> ReadValue n r; Some (res, r1) }"

section \<open>Positions\<close>

text \<open>A reader over the input \<open>s\<close> that has read \<open>i\<close> bytes: what \<^verbatim>\<open>UnreadByte\<close> puts back is the
  byte before its position.\<close>

definition reader_at :: "bytes \<Rightarrow> nat \<Rightarrow> Reader \<Rightarrow> bool" where
  "reader_at s i r \<longleftrightarrow> i \<le> length s \<and> rd_rest r = drop i s \<and> (rd_last r = None \<or> 0 < i \<and> rd_last r = Some (s ! (i - 1)))"

lemma reader_at_New: "reader_at s 0 (NewReader s)"
  by (simp add: reader_at_def NewReader_def)

lemma reader_at_end: "reader_at s i r \<Longrightarrow> rd_rest r = [] \<longleftrightarrow> i = length s"
  by (auto simp: reader_at_def)

lemma reader_at_next: "reader_at s i r \<Longrightarrow> i < length s \<Longrightarrow> rd_rest r = s ! i # drop (Suc i) s"
  by (simp add: reader_at_def Cons_nth_drop_Suc)

lemma ReadByte_at:
  assumes "reader_at s i r"
  shows "i < length s \<Longrightarrow> \<exists>r'. ReadByte r = (Some (s ! i), r') \<and> reader_at s (Suc i) r'" "\<not> i < length s \<Longrightarrow> ReadByte r = (None, r)"
proof -
  assume i: "i < length s"
  then show "\<exists>r'. ReadByte r = (Some (s ! i), r') \<and> reader_at s (Suc i) r'"
    by (simp add: ReadByte_def reader_at_next [OF assms i] reader_at_def)
qed (use assms in \<open>simp add: ReadByte_def reader_at_def\<close>)

lemma peek_at:
  assumes "reader_at s i r"
  shows "i < length s \<Longrightarrow> \<exists>r'. peek r = (Some (s ! i), r') \<and> reader_at s i r'" "\<not> i < length s \<Longrightarrow> peek r = (None, r)"
proof -
  assume i: "i < length s"
  then show "\<exists>r'. peek r = (Some (s ! i), r') \<and> reader_at s i r'"
    using peek_simps(2) [OF reader_at_next [OF assms i]] by (simp add: reader_at_def Cons_nth_drop_Suc)
qed (use assms in \<open>simp add: reader_at_def\<close>)

lemma ReadWhitespace_at:
  "reader_at s i r \<Longrightarrow> \<exists>j \<ge> i. reader_at s j (ReadWhitespace r) \<and> (j < length s \<longrightarrow> \<not> isWhitespace (s ! j))"
proof (induction "length s - i" arbitrary: i r)
  case 0
  then have "\<not> i < length s" by simp
  from peek_at(2) [OF 0(2) this] 0 show ?case by (auto simp: ReadWhitespace.simps [of r])
next
  case (Suc n)
  then have i: "i < length s" by simp
  obtain r1 where p: "peek r = (Some (s ! i), r1)" "reader_at s i r1" using peek_at(1) [OF Suc(3) i] by blast
  obtain r2 where b: "ReadByte r1 = (Some (s ! i), r2)" "reader_at s (Suc i) r2" using ReadByte_at(1) [OF p(2) i] by blast
  have "n = length s - Suc i" using Suc(2) by simp
  from Suc(1) [OF this b(2)] obtain j where "Suc i \<le> j" "reader_at s j (ReadWhitespace r2)"
      "j < length s \<longrightarrow> \<not> isWhitespace (s ! j)" by blast
  then have "\<exists>j \<ge> i. reader_at s j (ReadWhitespace r2) \<and> (j < length s \<longrightarrow> \<not> isWhitespace (s ! j))" by (intro exI [of _ j]) simp
  then show ?case using p b by (cases "isWhitespace (s ! i)") (auto simp: ReadWhitespace.simps [of r])
qed

lemma ReadDataUntil_at:
  "reader_at s i r \<Longrightarrow> \<exists>j \<ge> i. reader_at s j (snd (ReadDataUntil u r)) \<and> (i < length s \<and> \<not> u (s ! i) \<longrightarrow> i < j)"
proof (induction "length s - i" arbitrary: i r)
  case 0
  then have "\<not> i < length s" by simp
  from peek_at(2) [OF 0(2) this] 0 show ?case by (auto simp: ReadDataUntil.simps [of u r])
next
  case (Suc n)
  then have i: "i < length s" by simp
  obtain r1 where p: "peek r = (Some (s ! i), r1)" "reader_at s i r1" using peek_at(1) [OF Suc(3) i] by blast
  obtain r2 where b: "ReadByte r1 = (Some (s ! i), r2)" "reader_at s (Suc i) r2" using ReadByte_at(1) [OF p(2) i] by blast
  have "n = length s - Suc i" using Suc(2) by simp
  from Suc(1) [OF this b(2)] obtain j where "Suc i \<le> j" "reader_at s j (snd (ReadDataUntil u r2))" by blast
  then have "\<exists>j \<ge> i. reader_at s j (snd (ReadDataUntil u r2)) \<and> i < j" by (intro exI [of _ j]) simp
  then show ?case using p b by (cases "u (s ! i)") (auto simp: ReadDataUntil.simps [of u r] split_def)
qed

lemma UnreadByte_at:
  assumes "reader_at s i r" shows "reader_at s i (UnreadByte r) \<or> 0 < i \<and> reader_at s (i - 1) (UnreadByte r)"
proof (cases "rd_last r")
  case (Some c)
  then have "0 < i" "c = s ! (i - 1)" "i \<le> length s" "rd_rest r = drop i s" using assms by (auto simp: reader_at_def)
  then show ?thesis using Some Cons_nth_drop_Suc [of "i - 1" s] by (auto simp: UnreadByte_def reader_at_def)
qed (use assms in \<open>simp add: UnreadByte_def\<close>)

text \<open>A delimiter that is there is consumed. Otherwise the reader is where it was after white space,
  or at the end of the input one byte back.\<close>

lemma expect_at:
  assumes "reader_at s i r" "c \<noteq> 0"
  shows "\<exists>j ok r'. expect c r = (ok, r') \<and> reader_at s j r' \<and> min i (length s - 1) \<le> j \<and> (ok \<longrightarrow> i < j \<and> s ! (j - 1) = c)
    \<and> (i < length s \<and> s ! i = c \<and> \<not> isWhitespace c \<longrightarrow> ok)"
proof -
  let ?w = "ReadWhitespace r"
  obtain j where j: "i \<le> j" "reader_at s j ?w" using ReadWhitespace_at [OF assms(1)] by blast
  have here: "j = i" if i: "i < length s" "\<not> isWhitespace (s ! i)"
  proof -
    obtain r1 where "peek r = (Some (s ! i), r1)" "reader_at s i r1" using peek_at(1) [OF assms(1) i(1)] by blast
    then have "reader_at s i ?w" using i(2) by (simp add: ReadWhitespace.simps [of r])
    then have "length (rd_rest ?w) = length s - i" "i \<le> length s" by (simp_all add: reader_at_def)
    moreover have "length (rd_rest ?w) = length s - j" "j \<le> length s" using j(2) by (simp_all add: reader_at_def)
    ultimately show ?thesis by linarith
  qed
  show ?thesis
  proof (cases "j < length s")
    case True
    obtain r1 where b: "ReadByte ?w = (Some (s ! j), r1)" "reader_at s (Suc j) r1" using ReadByte_at(1) [OF j(2) True] by blast
    have e: "expect c r = (s ! j = c, if s ! j \<noteq> c then UnreadByte r1 else r1)" using b(1) by (simp add: expect_def Let_def)
    show ?thesis
    proof (cases "s ! j = c")
      case True
      show ?thesis
        by (rule exI [of _ "Suc j"], rule exI [of _ True], rule exI [of _ r1]) (use e b(2) j(1) True in simp)
    next
      case False
      obtain k where k: "reader_at s k (UnreadByte r1)" "j \<le> k" using UnreadByte_at [OF b(2)] by force
      have "\<not> (i < length s \<and> s ! i = c \<and> \<not> isWhitespace c)" using False here by blast
      then show ?thesis
        by (intro exI [of _ k] exI [of _ False] exI [of _ "UnreadByte r1"]) (use e k j(1) False in simp)
    qed
  next
    case False
    then have len: "j = length s" using j(2) by (simp add: reader_at_def)
    have e: "expect c r = (False, UnreadByte ?w)" using ReadByte_at(2) [OF j(2) False] assms(2) by (simp add: expect_def Let_def)
    obtain k where k: "reader_at s k (UnreadByte ?w)" "j - 1 \<le> k" using UnreadByte_at [OF j(2)] by force
    have "\<not> (i < length s \<and> s ! i = c \<and> \<not> isWhitespace c)" using here False by blast
    then show ?thesis
      by (intro exI [of _ k] exI [of _ False] exI [of _ "UnreadByte ?w"]) (use e k len in simp)
  qed
qed

lemma expect_floor: "reader_at s i r \<Longrightarrow> c \<noteq> 0 \<Longrightarrow> \<exists>j. reader_at s j (snd (expect c r)) \<and> min i (length s - 1) \<le> j"
  using expect_at [of s i r c] by (metis snd_conv)

section \<open>Where the reader terminates\<close>

text \<open>At the end of the input a missing delimiter puts the last byte back, whoever read it. If that byte opens
  a value, the value is read again and again; otherwise every value read makes progress.\<close>

definition ends_well :: "bytes \<Rightarrow> bool" where
  "ends_well s \<longleftrightarrow> s = [] \<or> last s \<notin> {40, 34, 35}"

lemma ends_well_before: "ends_well s \<Longrightarrow> i < length s \<Longrightarrow> s ! i \<in> {40, 34, 35} \<Longrightarrow> Suc i \<le> length s - 1"
proof -
  assume s: "ends_well s" "i < length s" "s ! i \<in> {40, 34, 35}"
  then have "s \<noteq> []" by auto
  then have "i \<noteq> length s - 1" using s by (auto simp: ends_well_def last_conv_nth)
  then show ?thesis using s(2) by linarith
qed

lemma delimited_at:
  assumes "ends_well s" "reader_at s i r" "i < length s" "s ! i = c" "c \<in> {34, 35}"
  shows "\<exists>j ok r1 r2 res. expect c (ReadWhitespace r) = (ok, r1) \<and> ReadDataUntil (untilFixed c) r1 = (res, r2)
    \<and> reader_at s j (snd (expect c r2)) \<and> i < j \<and> ok"
proof -
  have c: "c \<noteq> 0" "\<not> isWhitespace c" using assms(5) by (auto simp: isWhitespace_def)
  obtain r0 where "peek r = (Some (s ! i), r0)" "reader_at s i r0" using peek_at(1) [OF assms(2,3)] by blast
  then have w: "reader_at s i (ReadWhitespace r)" using c(2) assms(4) by (simp add: ReadWhitespace.simps [of r])
  obtain j1 ok r1 where e1: "expect c (ReadWhitespace r) = (ok, r1)" "reader_at s j1 r1" "ok" "i < j1"
    using expect_at [OF w c(1)] assms(3,4) c(2) by blast
  obtain res r2 where d: "ReadDataUntil (untilFixed c) r1 = (res, r2)" by fastforce
  obtain j2 where j2: "j1 \<le> j2" "reader_at s j2 r2" using ReadDataUntil_at [OF e1(2), of "untilFixed c"] d by auto
  obtain j3 where "reader_at s j3 (snd (expect c r2))" "min j2 (length s - 1) \<le> j3" using expect_floor [OF j2(2) c(1)] by blast
  moreover have "Suc i \<le> length s - 1" using ends_well_before [OF assms(1,3)] assms(4,5) by blast
  ultimately show ?thesis using e1 d j2(1)
    by (intro exI [of _ j3] exI [of _ ok] exI [of _ r1] exI [of _ r2] exI [of _ res]) simp
qed

definition value_returns :: "bytes \<Rightarrow> nat \<Rightarrow> bool" where
  "value_returns s n \<longleftrightarrow> (\<forall>i r. reader_at s i r \<longrightarrow> 3 * (length s - i) + 1 \<le> n \<longrightarrow>
     (\<exists>v e r' j. ReadValue n r = Some ((v, e), r') \<and> reader_at s j r' \<and> i \<le> j \<and> (\<not> e \<longrightarrow> i < j)))"

definition list_returns :: "bytes \<Rightarrow> nat \<Rightarrow> bool" where
  "list_returns s n \<longleftrightarrow> (\<forall>i r. reader_at s i r \<longrightarrow> i < length s \<longrightarrow> s ! i = 40 \<longrightarrow> 3 * (length s - i) \<le> n \<longrightarrow>
     (\<exists>v r' j. ReadList n r = Some (v, r') \<and> reader_at s j r' \<and> i < j))"

definition item_returns :: "bytes \<Rightarrow> nat \<Rightarrow> bool" where
  "item_returns s n \<longleftrightarrow> (\<forall>i r. reader_at s i r \<longrightarrow> 3 * (length s - i) + 2 \<le> n \<longrightarrow>
     (\<exists>v r' j. ReadListItem n r = Some (v, r') \<and> reader_at s j r' \<and> i \<le> j))"

lemma value_returns_step:
  assumes "ends_well s" "list_returns s n" shows "value_returns s (Suc n)"
proof (unfold value_returns_def, intro allI impI)
  fix i r assume r: "reader_at s i r" and n: "3 * (length s - i) + 1 \<le> Suc n"
  obtain k where k: "i \<le> k" "reader_at s k (ReadWhitespace r)" "k < length s \<longrightarrow> \<not> isWhitespace (s ! k)"
    using ReadWhitespace_at [OF r] by blast
  show "\<exists>v e r' j. ReadValue (Suc n) r = Some ((v, e), r') \<and> reader_at s j r' \<and> i \<le> j \<and> (\<not> e \<longrightarrow> i < j)"
  proof (cases "k < length s")
    case True
    then obtain r1 where p: "peek (ReadWhitespace r) = (Some (s ! k), r1)" "reader_at s k r1" using peek_at(1) [OF k(2)] by blast
    consider "s ! k = 40" | "s ! k = 41" | "s ! k = 34" | "s ! k = 35" | "s ! k \<notin> {40, 41, 34, 35}" by blast
    then show ?thesis
    proof cases
      case 1
      have f: "3 * (length s - k) \<le> n" using n k(1) True by linarith
      obtain v r' j where "ReadList n r1 = Some (v, r')" "reader_at s j r'" "k < j" using assms(2) p(2) True 1 f unfolding list_returns_def by blast
      then show ?thesis using p 1 k(1) by (intro exI [of _ v] exI [of _ False] exI [of _ r'] exI [of _ j]) simp
    next
      case 2
      then show ?thesis using p k(1) by (intro exI [of _ None] exI [of _ True] exI [of _ r1] exI [of _ k]) simp
    next
      case 3
      obtain j ok r2 res r3 where "expect 34 (ReadWhitespace r1) = (ok, r2)" "ReadDataUntil (untilFixed 34) r2 = (res, r3)"
          "reader_at s j (snd (expect 34 r3))" "k < j" ok
        using delimited_at [OF assms(1) p(2) True 3] by blast
      then show ?thesis using p 3 k(1)
        by (intro exI [of _ j] exI [of _ False] exI [of _ "snd (expect 34 r3)"] exI [of _ "fst (ReadString r1)"])
           (simp add: ReadString_def ReadStringStart_def ReadStringEnd_def split_def)
    next
      case 4
      obtain j ok r2 res r3 where "expect 35 (ReadWhitespace r1) = (ok, r2)" "ReadDataUntil (untilFixed 35) r2 = (res, r3)"
          "reader_at s j (snd (expect 35 r3))" "k < j" ok
        using delimited_at [OF assms(1) p(2) True 4] by blast
      then show ?thesis using p 4 k(1)
        by (intro exI [of _ j] exI [of _ False] exI [of _ "snd (expect 35 r3)"] exI [of _ "fst (ReadBigNum r1)"])
           (simp add: ReadBigNum_def ReadBigNumStart_def ReadBigNumEnd_def split_def)
    next
      case 5
      have nw: "\<not> isWhitespace (s ! k)" using k(3) True by simp
      obtain r0 where "peek r1 = (Some (s ! k), r0)" "reader_at s k r0" using peek_at(1) [OF p(2) True] by blast
      then have w: "reader_at s k (ReadWhitespace r1)" using nw by (simp add: ReadWhitespace.simps [of r1])
      have "\<not> isNotSymbolCharacter (s ! k)" using nw 5 by (simp add: isNotSymbolCharacter_def)
      then obtain j where "reader_at s j (snd (ReadDataUntil isNotSymbolCharacter (ReadWhitespace r1)))" "k < j"
        using ReadDataUntil_at [OF w, of isNotSymbolCharacter] True by blast
      then show ?thesis using p 5 k(1)
        by (intro exI [of _ j] exI [of _ False] exI [of _ "snd (ReadSymbol r1)"] exI [of _ "fst (ReadSymbol r1)"])
           (simp add: ReadSymbol_def split_def)
    qed
  next
    case False
    then show ?thesis using peek_at(2) [OF k(2) False] k
      by (intro exI [of _ None] exI [of _ True] exI [of _ "ReadWhitespace r"] exI [of _ k]) simp
  qed
qed

lemma list_returns_step:
  assumes "ends_well s" "item_returns s n" shows "list_returns s (Suc n)"
proof (unfold list_returns_def, intro allI impI)
  fix i r assume r: "reader_at s i r" "i < length s" "s ! i = 40" and n: "3 * (length s - i) \<le> Suc n"
  obtain r0 where "peek r = (Some (s ! i), r0)" "reader_at s i r0" using peek_at(1) [OF r(1,2)] by blast
  then have w: "reader_at s i (ReadWhitespace r)" using r(3) by (simp add: ReadWhitespace.simps [of r] isWhitespace_def)
  have "\<not> isWhitespace 40" by (simp add: isWhitespace_def)
  then obtain k r1 where k: "ReadListStart (ReadWhitespace r) = (True, r1)" "reader_at s k r1" "i < k"
    using expect_at [OF w, of 40] r unfolding ReadListStart_def by auto
  have f: "3 * (length s - k) + 2 \<le> n" using n k(3) r(2) by linarith
  obtain v r2 j where j: "ReadListItem n r1 = Some (v, r2)" "reader_at s j r2" "k \<le> j" using assms(2) k(2) f unfolding item_returns_def by blast
  obtain m where m: "reader_at s m (snd (ReadListEnd r2))" "min j (length s - 1) \<le> m"
    using expect_floor [OF j(2), of 41] unfolding ReadListEnd_def by auto
  have "Suc i \<le> length s - 1" using ends_well_before [OF assms(1) r(2)] r(3) by blast
  then have "i < m" using k(3) j(3) m(2) by (simp add: min_def split: if_splits)
  then show "\<exists>v r' j. ReadList (Suc n) r = Some (v, r') \<and> reader_at s j r' \<and> i < j"
    using k j m(1) by (intro exI [of _ m] exI [of _ "snd (ReadListEnd r2)"] exI [of _ "if fst (ReadListEnd r2) then Some v else None"])
       (simp add: split_def)
qed

lemma item_returns_step:
  assumes "value_returns s n" "item_returns s n" shows "item_returns s (Suc n)"
proof (unfold item_returns_def, intro allI impI)
  fix i r assume r: "reader_at s i r" and n: "3 * (length s - i) + 2 \<le> Suc n"
  obtain k where k: "i \<le> k" "reader_at s k (ReadWhitespace r)" using ReadWhitespace_at [OF r] by blast
  have f: "3 * (length s - k) + 1 \<le> n" using n k(1) by linarith
  obtain val e r1 j where j: "ReadValue n (ReadWhitespace r) = Some ((val, e), r1)" "reader_at s j r1" "k \<le> j" "\<not> e \<longrightarrow> k < j"
    using assms(1) k(2) f unfolding value_returns_def by blast
  show "\<exists>v r' j. ReadListItem (Suc n) r = Some (v, r') \<and> reader_at s j r' \<and> i \<le> j"
  proof (cases e)
    case True
    then show ?thesis using j k(1) by (intro exI [of _ Snil] exI [of _ r1] exI [of _ j]) simp
  next
    case False
    then have "k < j" "j \<le> length s" using j by (simp_all add: reader_at_def)
    then have f: "3 * (length s - j) + 2 \<le> n" using n k(1) by linarith
    obtain v r2 m where "ReadListItem n r1 = Some (v, r2)" "reader_at s m r2" "j \<le> m" using assms(2) j(2) f unfolding item_returns_def by blast
    then show ?thesis using j k(1) False by (intro exI [of _ "Cons val (Some v)"] exI [of _ r2] exI [of _ m]) simp
  qed
qed

lemma reader_returns:
  assumes "ends_well s" shows "value_returns s n \<and> list_returns s n \<and> item_returns s n"
proof (induction n)
  case 0
  then show ?case by (simp add: value_returns_def list_returns_def item_returns_def)
qed (simp add: assms value_returns_step list_returns_step item_returns_step)

lemma ReadValue_returns:
  assumes "ends_well s" "reader_at s i r" "3 * (length s - i) + 1 \<le> n"
  shows "\<exists>v e r' j. ReadValue n r = Some ((v, e), r') \<and> reader_at s j r' \<and> i \<le> j \<and> (\<not> e \<longrightarrow> i < j)"
  using reader_returns [OF assms(1), of n] assms(2,3) unfolding value_returns_def by blast

section \<open>Where it does not\<close>

text \<open>With an opening parenthesis as the last byte, the list it opens ends at EOF, the byte is put back, and the
  list is there to be read again.\<close>

abbreviation stuck :: Reader where
  "stuck \<equiv> \<lparr>rd_last = None, rd_rest = [40]\<rparr>"

abbreviation opened_at_end :: Reader where
  "opened_at_end \<equiv> \<lparr>rd_last = Some 40, rd_rest = []\<rparr>"

lemma ReadWhitespace_eof [simp]: "rd_rest r = [] \<Longrightarrow> ReadWhitespace r = r"
  by (simp add: ReadWhitespace.simps [of r])

lemma stuck_simps [simp]:
  "ReadWhitespace stuck = stuck" "expect 40 stuck = (True, opened_at_end)" "expect 41 stuck = (False, stuck)"
  "c \<noteq> 0 \<Longrightarrow> expect c opened_at_end = (False, stuck)"
  by (simp_all add: ReadWhitespace.simps [of stuck] isWhitespace_def expect_def ReadByte_def UnreadByte_def)

lemma ReadValue_opened_at_end: "ReadValue n opened_at_end = (if n = 0 then None else Some ((None, True), opened_at_end))"
  by (cases n) simp_all

lemma ReadListItem_opened_at_end: "ReadListItem n opened_at_end = (if n < 2 then None else Some (Snil, opened_at_end))"
  by (cases n) (simp_all add: ReadValue_opened_at_end)

lemma ReadList_stuck: "ReadList n stuck = (if n < 3 then None else Some (None, stuck))"
  by (cases n) (simp_all add: ReadListStart_def ReadListEnd_def ReadListItem_opened_at_end)

lemma ReadValue_stuck: "ReadValue n stuck = (if n < 4 then None else Some ((None, False), stuck))"
  by (cases n) (simp_all add: ReadList_stuck)

lemma ReadListItem_stuck: "ReadListItem n stuck = None"
  by (induction n) (simp_all add: ReadValue_stuck)

lemma ReadList_diverges: "ReadList n \<lparr>rd_last = l, rd_rest = [40, 40]\<rparr> = None"
proof (cases n)
  case (Suc m)
  have "ReadWhitespace \<lparr>rd_last = l, rd_rest = [40, 40]\<rparr> = \<lparr>rd_last = None, rd_rest = [40, 40]\<rparr>"
    "ReadWhitespace \<lparr>rd_last = None, rd_rest = [40, 40]\<rparr> = \<lparr>rd_last = None, rd_rest = [40, 40]\<rparr>"
    by (simp_all add: ReadWhitespace.simps [of "\<lparr>rd_last = x, rd_rest = [40, 40]\<rparr>" for x] isWhitespace_def)
  moreover have "ReadListItem m \<lparr>rd_last = Some 40, rd_rest = [40]\<rparr> = None"
  proof (cases m)
    case (Suc k)
    have "ReadWhitespace \<lparr>rd_last = Some 40, rd_rest = [40]\<rparr> = stuck"
      by (simp add: ReadWhitespace.simps [of "\<lparr>rd_last = Some 40, rd_rest = [40]\<rparr>"] isWhitespace_def)
    then show ?thesis using Suc by (simp add: ReadValue_stuck ReadListItem_stuck)
  qed simp
  ultimately show ?thesis using Suc by (simp add: ReadListStart_def expect_def ReadByte_def)
qed simp

lemma sexp_Read_diverges: "sexp_Read n (NewReader (str ''(('')) = None"
proof (cases n)
  case (Suc m)
  have s: "str ''(('' = [40, 40]" by (simp add: str_def of_char_def)
  then show ?thesis using Suc ReadList_diverges [of m]
    by (simp add: sexp_Read_def NewReader_def ReadWhitespace.simps [of "\<lparr>rd_last = None, rd_rest = [40, 40]\<rparr>"] isWhitespace_def)
qed (simp add: sexp_Read_def)

section \<open>Reading what was written\<close>

lemma ReadWhitespace_skip [simp]:
  "list_all isWhitespace w \<Longrightarrow> \<not> isWhitespace d \<Longrightarrow> rd_rest r = w @ d # s \<Longrightarrow> ReadWhitespace r = \<lparr>rd_last = None, rd_rest = d # s\<rparr>"
  by (induction w arbitrary: r) (simp_all add: ReadWhitespace.simps ReadByte_def)

lemma ReadWhitespace_here [simp]: "\<not> isWhitespace d \<Longrightarrow> rd_rest r = d # s \<Longrightarrow> ReadWhitespace r = \<lparr>rd_last = None, rd_rest = d # s\<rparr>"
  using ReadWhitespace_skip [of "[]"] by simp

lemma expect_skip:
  "list_all isWhitespace w \<Longrightarrow> \<not> isWhitespace c \<Longrightarrow> rd_rest r = w @ c # s \<Longrightarrow> expect c r = (True, \<lparr>rd_last = Some c, rd_rest = s\<rparr>)"
  by (simp add: expect_def ReadByte_def)

lemma expect_other:
  "list_all isWhitespace w \<Longrightarrow> \<not> isWhitespace d \<Longrightarrow> d \<noteq> c \<Longrightarrow> rd_rest r = w @ d # s \<Longrightarrow> expect c r = (False, \<lparr>rd_last = None, rd_rest = d # s\<rparr>)"
  by (simp add: expect_def ReadByte_def UnreadByte_def)

lemma ReadDataUntil_data:
  "list_all (\<lambda>c. \<not> u c) x \<Longrightarrow> u d \<Longrightarrow> rd_rest r = x @ d # s \<Longrightarrow> ReadDataUntil u r = (x, \<lparr>rd_last = None, rd_rest = d # s\<rparr>)"
  by (induction x arbitrary: r) (simp_all add: ReadDataUntil.simps ReadByte_def)

definition symbol_ok :: "bytes \<Rightarrow> bool" where
  "symbol_ok x \<longleftrightarrow> x \<noteq> [] \<and> hd x \<notin> {34, 35} \<and> list_all (\<lambda>c. \<not> isNotSymbolCharacter c) x"

lemma ReadValue_Symbol:
  assumes "list_all isWhitespace w" "symbol_ok x" "isNotSymbolCharacter d" "rd_rest r = w @ x @ d # s"
  shows "ReadValue (Suc n) r = Some ((Some (Symbol x), False), \<lparr>rd_last = None, rd_rest = d # s\<rparr>)"
proof -
  obtain c y where x: "x = c # y" "\<not> isNotSymbolCharacter c" "c \<noteq> 34" "c \<noteq> 35"
    using assms(2) by (cases x) (auto simp: symbol_ok_def)
  then have "\<not> isWhitespace c" "c \<noteq> 40" "c \<noteq> 41" by (auto simp: isNotSymbolCharacter_def)
  moreover have "list_all (\<lambda>c. \<not> isNotSymbolCharacter c) x" using assms(2) by (simp add: symbol_ok_def)
  then have "ReadDataUntil isNotSymbolCharacter \<lparr>rd_last = None, rd_rest = c # y @ d # s\<rparr> = (x, \<lparr>rd_last = None, rd_rest = d # s\<rparr>)"
    using x(1) assms(3) by (intro ReadDataUntil_data) simp_all
  ultimately show ?thesis using assms(1,4) x by (simp add: ReadSymbol_def)
qed

lemma ReadValue_Sstring:
  assumes "list_all isWhitespace w" "34 \<notin> set x" "rd_rest r = w @ 34 # x @ 34 # s"
  shows "ReadValue (Suc n) r = Some ((Some (Sstring x), False), \<lparr>rd_last = Some 34, rd_rest = s\<rparr>)"
proof -
  have "ReadDataUntil (untilFixed 34) \<lparr>rd_last = Some 34, rd_rest = x @ 34 # s\<rparr> = (x, \<lparr>rd_last = None, rd_rest = 34 # s\<rparr>)"
    using assms(2) by (intro ReadDataUntil_data) (auto simp: untilFixed_def list_all_iff)
  moreover have w: "\<not> isWhitespace 34" by (simp add: isWhitespace_def)
  moreover have "expect 34 \<lparr>rd_last = l, rd_rest = 34 # t\<rparr> = (True, \<lparr>rd_last = Some 34, rd_rest = t\<rparr>)" for l t
    using w by (intro expect_skip [of "[]"]) simp_all
  ultimately show ?thesis using assms by (simp add: ReadString_def ReadStringStart_def ReadStringEnd_def)
qed

lemma upper_digit:
  assumes "d < 16"
  shows "digit_val (upper (digit_char d)) = Some d \<and> unat (upper (digit_char d)) \<noteq> 35
    \<and> unat (upper (digit_char d)) \<noteq> 43 \<and> unat (upper (digit_char d)) \<noteq> 45"
proof -
  have "list_all (\<lambda>d. digit_val (upper (digit_char d)) = Some d \<and> unat (upper (digit_char d)) \<noteq> 35
    \<and> unat (upper (digit_char d)) \<noteq> 43 \<and> unat (upper (digit_char d)) \<noteq> 45) [0..<16]" by code_simp
  then show ?thesis using assms by (simp add: list_all_iff)
qed

lemma hex_digits:
  "parse_uint 16 (map upper (fmt_num 16 1 m)) = Some m" "c \<in> set (map upper (fmt_num 16 1 m)) \<Longrightarrow> c \<notin> {35, 43, 45}"
proof -
  have ds: "\<exists>d < 16. c = digit_char d" if "c \<in> set (fmt_num 16 1 m)" for c
  proof -
    from that obtain d where "c = digit_char d" "d = 0 \<or> d \<in> set (to_base 16 m)" by (auto simp: fmt_num_def Let_def split: if_splits)
    then show ?thesis using to_base_digits [of 16 d m] by (intro exI [of _ d]) auto
  qed
  have "parse_digits b a (map upper cs) = parse_digits b a cs" if "\<forall>c \<in> set cs. \<exists>d < 16. c = digit_char d" for b a cs
    using that by (induction cs arbitrary: a) (auto simp: upper_digit split: option.split)
  then show "parse_uint 16 (map upper (fmt_num 16 1 m)) = Some m"
    using parse_uint_fmt [of 16 1 m] ds by (simp add: parse_uint_def)
  show "c \<notin> {35, 43, 45}" if "c \<in> set (map upper (fmt_num 16 1 m))" using that ds upper_digit by fastforce
qed

lemma big_SetString16_fmt_X: "big_SetString16 (fmt_X (Some n)) = Some n"
proof -
  let ?ds = "map upper (fmt_num 16 1 (nat \<bar>n\<bar>))"
  have "?ds \<noteq> []" "hd ?ds \<in> set ?ds" by (simp_all add: hd_map)
  with hex_digits(2) [of "hd ?ds" "nat \<bar>n\<bar>"] have "hd ?ds \<noteq> 43" "hd ?ds \<noteq> 45" by blast+
  then show ?thesis using hex_digits(1) [of "nat \<bar>n\<bar>"]
    by (cases "n < 0") (auto simp: big_SetString16_def fmt_X_def Let_def hd_map)
qed

lemma fmt_X_no_hash: "35 \<notin> set (fmt_X v)"
proof (cases v)
  case None
  then show ?thesis by (simp add: fmt_X_def str_def of_char_def)
next
  case (Some n)
  have "35 \<notin> set (map upper (fmt_num 16 1 (nat \<bar>n\<bar>)))" using hex_digits(2) by blast
  then show ?thesis using Some by (simp add: fmt_X_def)
qed

lemma ReadValue_BigNum:
  assumes "list_all isWhitespace w" "rd_rest r = w @ 35 # fmt_X (Some v) @ 35 # s"
  shows "ReadValue (Suc n) r = Some ((Some (BigNum (Some v)), False), \<lparr>rd_last = Some 35, rd_rest = s\<rparr>)"
proof -
  have "ReadDataUntil (untilFixed 35) \<lparr>rd_last = Some 35, rd_rest = fmt_X (Some v) @ 35 # s\<rparr>
      = (fmt_X (Some v), \<lparr>rd_last = None, rd_rest = 35 # s\<rparr>)"
    using fmt_X_no_hash [of "Some v"] by (intro ReadDataUntil_data) (auto simp: untilFixed_def list_all_iff)
  moreover have w: "\<not> isWhitespace 35" by (simp add: isWhitespace_def)
  moreover have "expect 35 \<lparr>rd_last = l, rd_rest = 35 # t\<rparr> = (True, \<lparr>rd_last = Some 35, rd_rest = t\<rparr>)" for l t
    using w by (intro expect_skip [of "[]"]) simp_all
  ultimately show ?thesis using assms big_SetString16_fmt_X [of v] by (simp add: ReadBigNum_def ReadBigNumStart_def ReadBigNumEnd_def NewBigNum_def)
qed

end
