(* ===== verification/Key_Files.thy ===== *)
theory Key_Files
  imports Sexp Keys
begin

text \<open>
  Private keys on disk, the rest of \<^verbatim>\<open>keys.go\<close>: accounts in libotr's file format, read with the
  package \<^verbatim>\<open>sexp\<close> and written as text, the import of a single key, the generation of keys. The
  functions that read take fuel: the depth of the reader's stack and the number of rounds of a
  loop; \<open>None\<close> is a run that does not end within it. Opening and closing files is left out: a
  file is its contents.
\<close>

section \<open>Reading parameters and keys\<close>

text \<open>The key of an account is an interface value: \<open>None\<close> is nil.\<close>

record Account =
  ac_Name :: bytes
  ac_Protocol :: bytes
  ac_Key :: "DSAPrivateKey option"

definition readPotentialBigNum :: "nat \<Rightarrow> Reader \<Rightarrow> ((int option \<times> bool) \<times> Reader) option" where
  "readPotentialBigNum n r =
     do { ((res, _), r1) \<leftarrow> ReadValue n r;
          Some (case res of Some (BigNum v) \<Rightarrow> (v, True) | _ \<Rightarrow> (None, False), r1) }"

definition readPotentialSymbol :: "nat \<Rightarrow> Reader \<Rightarrow> ((bytes \<times> bool) \<times> Reader) option" where
  "readPotentialSymbol n r =
     do { ((res, _), r1) \<leftarrow> ReadValue n r;
          Some (case res of Some (Symbol s) \<Rightarrow> (s, True) | _ \<Rightarrow> ([], False), r1) }"

definition readPotentialString :: "nat \<Rightarrow> Reader \<Rightarrow> ((bytes \<times> bool) \<times> Reader) option" where
  "readPotentialString n r =
     do { ((res, _), r1) \<leftarrow> ReadValue n r;
          Some (case res of Some (Sstring s) \<Rightarrow> (s, True) | _ \<Rightarrow> ([], False), r1) }"

definition readPotentialStringOrSymbol :: "nat \<Rightarrow> Reader \<Rightarrow> ((bytes \<times> bool) \<times> Reader) option" where
  "readPotentialStringOrSymbol n r =
     do { ((res, _), r1) \<leftarrow> ReadValue n r;
          Some (case res of Some (Sstring s) \<Rightarrow> (s, True) | Some (Symbol s) \<Rightarrow> (s, True) | _ \<Rightarrow> ([], False), r1) }"

definition readSymbolAndExpect :: "nat \<Rightarrow> bytes \<Rightarrow> Reader \<Rightarrow> (bool \<times> Reader) option" where
  "readSymbolAndExpect n s r = do { ((res, ok), r1) \<leftarrow> readPotentialSymbol n r; Some (ok \<and> res = s, r1) }"

text \<open>\<^verbatim>\<open>dsa.PrivateKey\<close>: parameters, public and private number.\<close>

record dsa_PrivateKey =
  dk_P :: "int option"
  dk_Q :: "int option"
  dk_G :: "int option"
  dk_Y :: "int option"
  dk_X :: "int option"

definition nil_dsa_PrivateKey :: dsa_PrivateKey where
  "nil_dsa_PrivateKey = \<lparr>dk_P = None, dk_Q = None, dk_G = None, dk_Y = None, dk_X = None\<rparr>"

definition assignParameter :: "dsa_PrivateKey \<Rightarrow> bytes \<Rightarrow> int option \<Rightarrow> bool \<times> dsa_PrivateKey" where
  "assignParameter k s v =
     (if s = str ''g'' then (True, k\<lparr>dk_G := v\<rparr>)
      else if s = str ''p'' then (True, k\<lparr>dk_P := v\<rparr>)
      else if s = str ''q'' then (True, k\<lparr>dk_Q := v\<rparr>)
      else if s = str ''x'' then (True, k\<lparr>dk_X := v\<rparr>)
      else if s = str ''y'' then (True, k\<lparr>dk_Y := v\<rparr>)
      else (False, k))"

text \<open>The result is \<^verbatim>\<open>tag\<close>, \<^verbatim>\<open>value\<close>, \<^verbatim>\<open>end\<close> and \<^verbatim>\<open>ok\<close>.\<close>

definition readParameter :: "nat \<Rightarrow> Reader \<Rightarrow> ((bytes \<times> int option \<times> bool \<times> bool) \<times> Reader) option" where
  "readParameter n r =
     (case ReadListStart r of (started, r1) \<Rightarrow>
        if \<not> started then Some (([], None, True, True), r1)
        else do { ((tag, ok1), r2) \<leftarrow> readPotentialSymbol n r1;
                  ((value, ok2), r3) \<leftarrow> readPotentialBigNum n r2;
                  case ReadListEnd r3 of (ended, r4) \<Rightarrow>
                    if \<not> ended then Some (([], None, True, True), r4)
                    else Some ((tag, value, False, ok1 \<and> ok2), r4) })"

text \<open>The loop of \<^verbatim>\<open>readDSAPrivateKey\<close>; \<open>Inl\<close> is its early return.\<close>

fun readParameters :: "nat \<Rightarrow> nat \<Rightarrow> dsa_PrivateKey \<Rightarrow> Reader \<Rightarrow> ((unit + dsa_PrivateKey) \<times> Reader) option" where
  "readParameters n 0 k r = None"
| "readParameters n (Suc m) k r =
     do { ((tag, value, end, ok), r1) \<leftarrow> readParameter n r;
          if \<not> ok then Some (Inl (), r1)
          else if end then Some (Inr k, r1)
          else (case assignParameter k tag value of (assigned, k') \<Rightarrow>
                  if \<not> assigned then Some (Inl (), r1) else readParameters n m k' r1) }"

definition readDSAPrivateKey :: "nat \<Rightarrow> Reader \<Rightarrow> ((dsa_PrivateKey option \<times> bool) \<times> Reader) option" where
  "readDSAPrivateKey n r =
     (case ReadListStart r of (_, r1) \<Rightarrow>
        do { (ok1, r2) \<leftarrow> readSymbolAndExpect n (str ''dsa'') r1;
             (res, r3) \<leftarrow> readParameters n n nil_dsa_PrivateKey r2;
             case res of
               Inl _ \<Rightarrow> Some ((None, False), r3)
             | Inr k \<Rightarrow> (case ReadListEnd r3 of (ok2, r4) \<Rightarrow> Some ((Some k, ok1 \<and> ok2), r4)) })"

text \<open>The \<^verbatim>\<open>DSAPrivateKey\<close> that is allocated, at \<open>loc\<close>, stays empty when its parameters do not parse.\<close>

definition from_dsa :: "nat \<Rightarrow> dsa_PrivateKey \<Rightarrow> DSAPrivateKey" where
  "from_dsa loc k =
     \<lparr>sk_DSAPublicKey = \<lparr>pk_loc = loc, pk_P = dk_P k, pk_Q = dk_Q k, pk_G = dk_G k, pk_Y = dk_Y k\<rparr>,
      sk_P = dk_P k, sk_Q = dk_Q k, sk_G = dk_G k, sk_Y = dk_Y k, sk_X = dk_X k\<rparr>"

definition readPrivateKey :: "nat \<Rightarrow> nat \<Rightarrow> Reader \<Rightarrow> ((DSAPrivateKey \<times> bool) \<times> Reader) option" where
  "readPrivateKey n loc r =
     (case ReadListStart r of (_, r1) \<Rightarrow>
        do { (ok1, r2) \<leftarrow> readSymbolAndExpect n (str ''private-key'') r1;
             ((res, ok2), r3) \<leftarrow> readDSAPrivateKey n r2;
             let k = (case res of Some d \<Rightarrow> if ok2 then from_dsa loc d else nil_DSAPrivateKey loc
                      | None \<Rightarrow> nil_DSAPrivateKey loc) in
             case ReadListEnd r3 of (ok3, r4) \<Rightarrow> Some ((k, ok1 \<and> ok2 \<and> ok3), r4) })"

definition readAccountName :: "nat \<Rightarrow> Reader \<Rightarrow> ((bytes \<times> bool) \<times> Reader) option" where
  "readAccountName n r =
     (case ReadListStart r of (_, r1) \<Rightarrow>
        do { (ok1, r2) \<leftarrow> readSymbolAndExpect n (str ''name'') r1;
             ((nm, ok2), r3) \<leftarrow> readPotentialStringOrSymbol n r2;
             case ReadListEnd r3 of (ok3, r4) \<Rightarrow> Some ((nm, ok1 \<and> ok2 \<and> ok3), r4) })"

definition readAccountProtocol :: "nat \<Rightarrow> Reader \<Rightarrow> ((bytes \<times> bool) \<times> Reader) option" where
  "readAccountProtocol n r =
     (case ReadListStart r of (_, r1) \<Rightarrow>
        do { (ok1, r2) \<leftarrow> readSymbolAndExpect n (str ''protocol'') r1;
             ((nm, ok2), r3) \<leftarrow> readPotentialSymbol n r2;
             case ReadListEnd r3 of (ok3, r4) \<Rightarrow> Some ((nm, ok1 \<and> ok2 \<and> ok3), r4) })"

text \<open>The account (nil at the end of the list), \<^verbatim>\<open>ok\<close> and \<^verbatim>\<open>atEnd\<close>.\<close>

definition readAccount :: "nat \<Rightarrow> nat \<Rightarrow> Reader \<Rightarrow> ((Account option \<times> bool \<times> bool) \<times> Reader) option" where
  "readAccount n loc r =
     (case ReadListStart r of (started, r1) \<Rightarrow>
        if \<not> started then Some ((None, True, True), r1)
        else do { (ok1, r2) \<leftarrow> readSymbolAndExpect n (str ''account'') r1;
                  ((name, ok2), r3) \<leftarrow> readAccountName n r2;
                  ((protocol, ok3), r4) \<leftarrow> readAccountProtocol n r3;
                  ((key, ok4), r5) \<leftarrow> readPrivateKey n loc r4;
                  case ReadListEnd r5 of (ok5, r6) \<Rightarrow>
                    Some ((Some \<lparr>ac_Name = name, ac_Protocol = protocol, ac_Key = Some key\<rparr>,
                           ok1 \<and> ok2 \<and> ok3 \<and> ok4 \<and> ok5, False), r6) })"

fun readAccountList :: "nat \<Rightarrow> nat \<Rightarrow> nat \<Rightarrow> Reader \<Rightarrow> ((Account option list \<times> bool) \<times> Reader) option" where
  "readAccountList n 0 loc r = None"
| "readAccountList n (Suc m) loc r =
     do { ((a, ok, atEnd), r1) \<leftarrow> readAccount n loc r;
          if atEnd then Some (([], ok), r1)
          else do { ((as, ok2), r2) \<leftarrow> readAccountList n m (Suc loc) r1; Some ((a # as, ok \<and> ok2), r2) } }"

definition readAccounts :: "nat \<Rightarrow> nat \<Rightarrow> Reader \<Rightarrow> ((Account option list \<times> bool) \<times> Reader) option" where
  "readAccounts n loc r =
     (case ReadListStart r of (_, r0) \<Rightarrow>
        do { (ok1, r1) \<leftarrow> readSymbolAndExpect n (str ''privkeys'') r0;
             ((as, ok2), r2) \<leftarrow> readAccountList n n loc r1;
             case ReadListEnd r2 of (ok3, r3) \<Rightarrow> Some ((as, ok1 \<and> ok2 \<and> ok3), r3) })"

definition ImportKeys :: "nat \<Rightarrow> nat \<Rightarrow> bytes \<Rightarrow> (bytes + Account option list) option" where
  "ImportKeys n loc file =
     do { ((res, ok), _) \<leftarrow> readAccounts n loc (NewReader file);
          Some (if ok then Inr res else Inl (str ''couldn't import data into private key'')) }"

section \<open>Writing accounts\<close>

definition exportName :: "bytes \<Rightarrow> bytes" where
  "exportName n = str ''    '' @ str ''(name '' @ [34] @ n @ [34] @ str '')'' @ [10]"

definition exportProtocol :: "bytes \<Rightarrow> bytes" where
  "exportProtocol n = str ''    '' @ str ''(protocol '' @ n @ str '')'' @ [10]"

definition exportParameter :: "bytes \<Rightarrow> int option \<Rightarrow> bytes" where
  "exportParameter name val = str ''        '' @ str ''('' @ name @ str '' #'' @ fmt_X val @ str ''#)'' @ [10]"

definition exportDSAPrivateKey :: "DSAPrivateKey \<Rightarrow> bytes" where
  "exportDSAPrivateKey key =
     str ''      '' @ str ''(dsa'' @ [10]
     @ exportParameter (str ''p'') (sk_P key) @ exportParameter (str ''q'') (sk_Q key)
     @ exportParameter (str ''g'') (sk_G key) @ exportParameter (str ''y'') (sk_Y key)
     @ exportParameter (str ''x'') (sk_X key)
     @ str ''      '' @ str '')'' @ [10]"

text \<open>The type assertion panics on a nil key.\<close>

definition exportPrivateKey :: "DSAPrivateKey option \<Rightarrow> bytes option" where
  "exportPrivateKey key =
     do { k \<leftarrow> key; Some (str ''    '' @ str ''(private-key'' @ [10] @ exportDSAPrivateKey k @ str ''    '' @ str '')'' @ [10]) }"

definition exportAccount :: "Account \<Rightarrow> bytes option" where
  "exportAccount a =
     do { k \<leftarrow> exportPrivateKey (ac_Key a);
          Some (str ''  '' @ str ''(account'' @ [10] @ exportName (ac_Name a) @ exportProtocol (ac_Protocol a)
            @ k @ str ''  '' @ str '')'' @ [10]) }"

fun exportAccountList :: "Account list \<Rightarrow> bytes option" where
  "exportAccountList [] = Some []"
| "exportAccountList (a # as) = do { x \<leftarrow> exportAccount a; y \<leftarrow> exportAccountList as; Some (x @ y) }"

definition exportAccounts :: "Account list \<Rightarrow> bytes option" where
  "exportAccounts as = do { x \<leftarrow> exportAccountList as; Some (str ''(privkeys'' @ [10] @ x @ str '')'' @ [10]) }"

section \<open>Importing one key, generating keys\<close>

definition notHex :: "byte \<Rightarrow> bool" where
  "notHex r \<longleftrightarrow> \<not> (48 \<le> unat r \<and> unat r \<le> 57 \<or> 97 \<le> unat r \<and> unat r \<le> 102 \<or> 65 \<le> unat r \<and> unat r \<le> 70)"

text \<open>\<^verbatim>\<open>hex.Decode\<close> of an even number of hexadecimal digits.\<close>

fun hex_Decode :: "bytes \<Rightarrow> bytes option" where
  "hex_Decode [] = Some []"
| "hex_Decode [a] = None"
| "hex_Decode (a # b # cs) =
     do { x \<leftarrow> digit_val a; y \<leftarrow> digit_val b;
          if 16 \<le> x \<or> 16 \<le> y then None else do { r \<leftarrow> hex_Decode cs; Some (of_nat (16 * x + y) # r) } }"

text \<open>One round of the loop of \<^verbatim>\<open>Import\<close>: the number after the next \<^verbatim>\<open>" #"\<close> and the rest of the input.\<close>

definition import_mpi :: "bytes \<Rightarrow> (int \<times> bytes) option" where
  "import_mpi inp =
     do { start \<leftarrow> bytes_Index inp (str '' #'');
          let in1 = drop (start + 2) inp; hexBytes = takeWhile (\<lambda>c. \<not> notHex c) in1; in2 = dropWhile (\<lambda>c. \<not> notHex c) in1 in
          if in2 = [] then None
          else if odd (length hexBytes) then None
          else do { mpiBytes \<leftarrow> hex_Decode hexBytes; Some (big_SetBytes mpiBytes, in2) } }"

fun import_mpis :: "nat \<Rightarrow> bytes \<Rightarrow> int list option" where
  "import_mpis 0 inp = Some []"
| "import_mpis (Suc n) inp = do { (x, in2) \<leftarrow> import_mpi inp; xs \<leftarrow> import_mpis n in2; Some (x # xs) }"

definition key_Import :: "DSAPrivateKey \<Rightarrow> bytes \<Rightarrow> bool \<times> DSAPrivateKey" where
  "key_Import priv inp =
     (case import_mpis 5 inp of
        Some [p, q, g, y, x] \<Rightarrow>
          (big_Exp g x p = y,
           priv\<lparr>sk_P := Some p, sk_Q := Some q, sk_G := Some g, sk_Y := Some y, sk_X := Some x,
                sk_DSAPublicKey := \<lparr>pk_loc = pk_loc (sk_DSAPublicKey priv), pk_P = Some p, pk_Q = Some q, pk_G = Some g, pk_Y = Some y\<rparr>\<rparr>)
      | _ \<Rightarrow> (False, priv))"

text \<open>\<^verbatim>\<open>dsa.GenerateParameters\<close> and \<^verbatim>\<open>dsa.GenerateKey\<close> are parameters: \<open>gp\<close> yields
  \<open>(p, q, g)\<close> of the random source or an error, \<open>gk\<close> from these the pair \<open>(y, x)\<close>. A failing
  second step leaves the parameters in the key.\<close>

definition key_Generate ::
  "(bytes \<Rightarrow> (bytes + int \<times> int \<times> int) \<times> bytes) \<Rightarrow> (int \<Rightarrow> int \<Rightarrow> int \<Rightarrow> bytes \<Rightarrow> (bytes + int \<times> int) \<times> bytes)
   \<Rightarrow> DSAPrivateKey \<Rightarrow> bytes \<Rightarrow> bytes option \<times> DSAPrivateKey \<times> bytes" where
  "key_Generate gp gk priv rnd =
     (case gp rnd of
        (Inl e, rnd1) \<Rightarrow> (Some e, priv, rnd1)
      | (Inr (p, q, g), rnd1) \<Rightarrow>
          let priv1 = priv\<lparr>sk_P := Some p, sk_Q := Some q, sk_G := Some g\<rparr> in
          (case gk p q g rnd1 of
             (Inl e, rnd2) \<Rightarrow> (Some e, priv1, rnd2)
           | (Inr (y, x), rnd2) \<Rightarrow>
               (None, priv1\<lparr>sk_Y := Some y, sk_X := Some x,
                  sk_DSAPublicKey := \<lparr>pk_loc = pk_loc (sk_DSAPublicKey priv), pk_P = Some p, pk_Q = Some q, pk_G = Some g, pk_Y = Some y\<rparr>\<rparr>,
                rnd2)))"

definition GenerateMissingKeys ::
  "(bytes \<Rightarrow> (bytes + int \<times> int \<times> int) \<times> bytes) \<Rightarrow> (int \<Rightarrow> int \<Rightarrow> int \<Rightarrow> bytes \<Rightarrow> (bytes + int \<times> int) \<times> bytes)
   \<Rightarrow> nat \<Rightarrow> bytes list \<Rightarrow> bytes \<Rightarrow> bytes + DSAPrivateKey list" where
  "GenerateMissingKeys gp gk loc existing rnd =
     (if \<exists>x \<in> set existing. (case ExtractShort x of Some (_, typeTag) \<Rightarrow> typeTag = dsaKeyTypeValue | None \<Rightarrow> False)
      then Inr []
      else (case key_Generate gp gk (nil_DSAPrivateKey loc) rnd of
              (Some e, _, _) \<Rightarrow> Inl e
            | (None, priv, _) \<Rightarrow> Inr [priv]))"

definition key_PublicKey :: "DSAPrivateKey \<Rightarrow> DSAPublicKey" where
  "key_PublicKey priv = sk_DSAPublicKey priv"

section \<open>Import terminates on a file that ends well\<close>

text \<open>A call returns with the reader at or behind position \<open>i\<close>.\<close>

definition reads :: "bytes \<Rightarrow> nat \<Rightarrow> ('a \<times> Reader) option \<Rightarrow> bool" where
  "reads s i m \<longleftrightarrow> (\<exists>x r j. m = Some (x, r) \<and> reader_at s j r \<and> i \<le> j)"

lemma reads_Some [simp]: "reads s i (Some (x, r)) \<longleftrightarrow> (\<exists>j. reader_at s j r \<and> i \<le> j)"
  by (auto simp: reads_def)

lemma reads_bind:
  "reads s i m \<Longrightarrow> (\<And>x r j. reader_at s j r \<Longrightarrow> i \<le> j \<Longrightarrow> reads s i (f (x, r))) \<Longrightarrow> reads s i (Option.bind m f)"
  by (auto simp: reads_def)

lemma delimiter_reads:
  assumes "reader_at s j r" "i \<le> j" "i \<le> length s - 1"
  shows "\<exists>k. reader_at s k (snd (ReadListStart r)) \<and> i \<le> k" "\<exists>k. reader_at s k (snd (ReadListEnd r)) \<and> i \<le> k"
  using expect_floor [OF assms(1), of 40] expect_floor [OF assms(1), of 41] assms(2,3)
  by (auto simp: ReadListStart_def ReadListEnd_def min_def split: if_splits)

lemma ReadListStart_at:
  assumes "ends_well s" "reader_at s j r" "ReadListStart r = (True, r1)"
  shows "\<exists>k. reader_at s k r1 \<and> j < k \<and> k \<le> length s - 1"
proof -
  obtain k where k: "reader_at s k r1" "j < k" "s ! (k - 1) = 40"
    using expect_at [OF assms(2), of 40] assms(3) by (auto simp: ReadListStart_def)
  then have "k - 1 < length s" by (auto simp: reader_at_def)
  then have "Suc (k - 1) \<le> length s - 1" using ends_well_before [OF assms(1), of "k - 1"] k(3) by blast
  then show ?thesis using k by auto
qed

lemma ReadValue_reads:
  assumes "ends_well s" "3 * length s + 1 \<le> n" "reader_at s j r" "i \<le> j" shows "reads s i (ReadValue n r)"
proof -
  have "3 * (length s - j) + 1 \<le> n" using assms(2) by linarith
  from ReadValue_returns [OF assms(1,3) this] obtain x r' k where "ReadValue n r = Some (x, r')" "reader_at s k r'" "j \<le> k" by blast
  then show ?thesis using assms(4) unfolding reads_def by (intro exI [of _ x] exI [of _ r'] exI [of _ k]) simp
qed

lemma potential_reads:
  assumes "ends_well s" "3 * length s + 1 \<le> n" "reader_at s j r" "i \<le> j"
  shows "reads s i (readPotentialSymbol n r)" "reads s i (readPotentialBigNum n r)" "reads s i (readPotentialStringOrSymbol n r)"
    "reads s i (readSymbolAndExpect n x r)"
proof -
  note v = ReadValue_reads [OF assms]
  show sym: "reads s i (readPotentialSymbol n r)" "reads s i (readPotentialBigNum n r)" "reads s i (readPotentialStringOrSymbol n r)"
    unfolding readPotentialSymbol_def readPotentialBigNum_def readPotentialStringOrSymbol_def
    by (rule reads_bind [OF v], auto)+
  show "reads s i (readSymbolAndExpect n x r)"
    unfolding readSymbolAndExpect_def by (rule reads_bind [OF sym(1)]) auto
qed

lemma readParameter_at:
  assumes s: "ends_well s" "3 * length s + 1 \<le> n" and r: "reader_at s j r" "i \<le> j" "i \<le> length s - 1"
  shows "\<exists>tag v e ok r' k. readParameter n r = Some ((tag, v, e, ok), r') \<and> reader_at s k r' \<and> i \<le> k \<and> (\<not> e \<longrightarrow> j < k)"
proof (cases "ReadListStart r")
  case (Pair st r1)
  show ?thesis
  proof (cases st)
    case False
    then show ?thesis using Pair delimiter_reads(1) [OF r] by (auto simp: readParameter_def)
  next
    case True
    then obtain k where k: "reader_at s k r1" "j < k" "k \<le> length s - 1" using ReadListStart_at [OF s(1) r(1), of r1] Pair by auto
    obtain x r2 k2 where r2: "readPotentialSymbol n r1 = Some (x, r2)" "reader_at s k2 r2" "k \<le> k2"
      using potential_reads(1) [OF s k(1) order_refl] unfolding reads_def by blast
    obtain y r3 k3 where r3: "readPotentialBigNum n r2 = Some (y, r3)" "reader_at s k3 r3" "k \<le> k3"
      using potential_reads(2) [OF s r2(2,3)] unfolding reads_def by blast
    obtain k4 where "reader_at s k4 (snd (ReadListEnd r3))" "k \<le> k4" using delimiter_reads(2) [OF r3(2,3) k(3)] by blast
    then show ?thesis using Pair True r2(1) r3(1) k r(2)
      by (cases x; cases y; cases "ReadListEnd r3") (fastforce simp: readParameter_def)
  qed
qed

lemma readParameters_reads:
  assumes s: "ends_well s" "3 * length s + 1 \<le> n" and i: "i \<le> length s - 1"
  shows "reader_at s j r \<Longrightarrow> i \<le> j \<Longrightarrow> length s - j < m \<Longrightarrow> reads s i (readParameters n m k r)"
proof (induction m arbitrary: j r k)
  case (Suc m)
  obtain tag v e ok r' j' where p: "readParameter n r = Some ((tag, v, e, ok), r')" "reader_at s j' r'" "i \<le> j'" "\<not> e \<longrightarrow> j < j'"
    using readParameter_at [OF s Suc.prems(1,2) i] by blast
  have rest: "reads s i (readParameters n m k' r')" if "\<not> e" for k'
  proof (rule Suc.IH [OF p(2,3)])
    have "j' \<le> length s" using p(2) by (simp add: reader_at_def)
    then show "length s - j' < m" using p(4) that Suc.prems(3) by linarith
  qed
  then show ?case using p by (auto split: prod.split)
qed simp

lemma delimiter_pair:
  assumes "reader_at s j r" "i \<le> j" "i \<le> length s - 1"
  shows "\<exists>b r' k. ReadListStart r = (b, r') \<and> reader_at s k r' \<and> i \<le> k" "\<exists>b r' k. ReadListEnd r = (b, r') \<and> reader_at s k r' \<and> i \<le> k"
  using delimiter_reads [OF assms] by (metis prod.collapse)+

lemma readDSAPrivateKey_reads:
  assumes s: "ends_well s" "3 * length s + 1 \<le> n" and r: "reader_at s j r" "i \<le> j" "i \<le> length s - 1"
  shows "reads s i (readDSAPrivateKey n r)"
proof -
  obtain b1 r1 k1 where r1: "ReadListStart r = (b1, r1)" "reader_at s k1 r1" "i \<le> k1" using delimiter_pair(1) [OF r] by blast
  obtain ok1 r2 k2 where r2: "readSymbolAndExpect n (str ''dsa'') r1 = Some (ok1, r2)" "reader_at s k2 r2" "i \<le> k2"
    using potential_reads(4) [OF s r1(2,3)] unfolding reads_def by blast
  have "length s - k2 < n" using s(2) by linarith
  then obtain res r3 k3 where r3: "readParameters n n nil_dsa_PrivateKey r2 = Some (res, r3)" "reader_at s k3 r3" "i \<le> k3"
    using readParameters_reads [OF s r(3) r2(2,3)] unfolding reads_def by blast
  obtain b4 r4 k4 where "ReadListEnd r3 = (b4, r4)" "reader_at s k4 r4" "i \<le> k4" using delimiter_pair(2) [OF r3(2,3) r(3)] by blast
  then show ?thesis using r1 r2 r3 by (cases res) (auto simp: readDSAPrivateKey_def)
qed

lemma readPrivateKey_reads:
  assumes s: "ends_well s" "3 * length s + 1 \<le> n" and r: "reader_at s j r" "i \<le> j" "i \<le> length s - 1"
  shows "reads s i (readPrivateKey n loc r)"
proof -
  obtain b1 r1 k1 where r1: "ReadListStart r = (b1, r1)" "reader_at s k1 r1" "i \<le> k1" using delimiter_pair(1) [OF r] by blast
  obtain ok1 r2 k2 where r2: "readSymbolAndExpect n (str ''private-key'') r1 = Some (ok1, r2)" "reader_at s k2 r2" "i \<le> k2"
    using potential_reads(4) [OF s r1(2,3)] unfolding reads_def by blast
  obtain res r3 k3 where r3: "readDSAPrivateKey n r2 = Some (res, r3)" "reader_at s k3 r3" "i \<le> k3"
    using readDSAPrivateKey_reads [OF s r2(2,3) r(3)] unfolding reads_def by blast
  obtain b4 r4 k4 where "ReadListEnd r3 = (b4, r4)" "reader_at s k4 r4" "i \<le> k4" using delimiter_pair(2) [OF r3(2,3) r(3)] by blast
  then show ?thesis using r1 r2 r3 by (cases res) (auto simp: readPrivateKey_def Let_def)
qed

lemma account_fields_read:
  assumes s: "ends_well s" "3 * length s + 1 \<le> n" and r: "reader_at s j r" "i \<le> j" "i \<le> length s - 1"
  shows "reads s i (readAccountName n r)" "reads s i (readAccountProtocol n r)"
proof -
  obtain b1 r1 k1 where r1: "ReadListStart r = (b1, r1)" "reader_at s k1 r1" "i \<le> k1" using delimiter_pair(1) [OF r] by blast
  obtain ok1 r2 k2 where r2: "readSymbolAndExpect n (str ''name'') r1 = Some (ok1, r2)" "reader_at s k2 r2" "i \<le> k2"
    using potential_reads(4) [OF s r1(2,3)] unfolding reads_def by blast
  obtain res r3 k3 where r3: "readPotentialStringOrSymbol n r2 = Some (res, r3)" "reader_at s k3 r3" "i \<le> k3"
    using potential_reads(3) [OF s r2(2,3)] unfolding reads_def by blast
  obtain b4 r4 k4 where "ReadListEnd r3 = (b4, r4)" "reader_at s k4 r4" "i \<le> k4" using delimiter_pair(2) [OF r3(2,3) r(3)] by blast
  then show "reads s i (readAccountName n r)" using r1 r2 r3 by (cases res) (auto simp: readAccountName_def)
  obtain ok1 r2 k2 where r2: "readSymbolAndExpect n (str ''protocol'') r1 = Some (ok1, r2)" "reader_at s k2 r2" "i \<le> k2"
    using potential_reads(4) [OF s r1(2,3)] unfolding reads_def by blast
  obtain res r3 k3 where r3: "readPotentialSymbol n r2 = Some (res, r3)" "reader_at s k3 r3" "i \<le> k3"
    using potential_reads(1) [OF s r2(2,3)] unfolding reads_def by blast
  obtain b4 r4 k4 where "ReadListEnd r3 = (b4, r4)" "reader_at s k4 r4" "i \<le> k4" using delimiter_pair(2) [OF r3(2,3) r(3)] by blast
  then show "reads s i (readAccountProtocol n r)" using r1 r2 r3 by (cases res) (auto simp: readAccountProtocol_def)
qed

lemma readAccount_at:
  assumes s: "ends_well s" "3 * length s + 1 \<le> n" and r: "reader_at s j r" "i \<le> j" "i \<le> length s - 1"
  shows "\<exists>a ok e r' k. readAccount n loc r = Some ((a, ok, e), r') \<and> reader_at s k r' \<and> i \<le> k \<and> (\<not> e \<longrightarrow> j < k)"
proof (cases "ReadListStart r")
  case (Pair st r1)
  show ?thesis
  proof (cases st)
    case False
    then show ?thesis using Pair delimiter_reads(1) [OF r] by (auto simp: readAccount_def)
  next
    case True
    then obtain k where k: "reader_at s k r1" "j < k" "k \<le> length s - 1" using ReadListStart_at [OF s(1) r(1), of r1] Pair by auto
    obtain ok1 r2 k2 where r2: "readSymbolAndExpect n (str ''account'') r1 = Some (ok1, r2)" "reader_at s k2 r2" "k \<le> k2"
      using potential_reads(4) [OF s k(1) order_refl] unfolding reads_def by blast
    obtain x r3 k3 where r3: "readAccountName n r2 = Some (x, r3)" "reader_at s k3 r3" "k \<le> k3"
      using account_fields_read(1) [OF s r2(2,3) k(3)] unfolding reads_def by blast
    obtain y r4 k4 where r4: "readAccountProtocol n r3 = Some (y, r4)" "reader_at s k4 r4" "k \<le> k4"
      using account_fields_read(2) [OF s r3(2,3) k(3)] unfolding reads_def by blast
    obtain z r5 k5 where r5: "readPrivateKey n loc r4 = Some (z, r5)" "reader_at s k5 r5" "k \<le> k5"
      using readPrivateKey_reads [OF s r4(2,3) k(3)] unfolding reads_def by blast
    obtain b6 r6 k6 where r6: "ReadListEnd r5 = (b6, r6)" "reader_at s k6 r6" "k \<le> k6" using delimiter_pair(2) [OF r5(2,3) k(3)] by blast
    have "i \<le> k6" "j < k6" using k r(2) r6(3) by simp_all
    then show ?thesis using Pair True r2(1) r3(1) r4(1) r5(1) r6(1,2)
      by (cases x; cases y; cases z) (auto simp: readAccount_def)
  qed
qed

lemma readAccountList_reads:
  assumes s: "ends_well s" "3 * length s + 1 \<le> n" and i: "i \<le> length s - 1"
  shows "reader_at s j r \<Longrightarrow> i \<le> j \<Longrightarrow> length s - j < m \<Longrightarrow> reads s i (readAccountList n m loc r)"
proof (induction m arbitrary: j r loc)
  case (Suc m)
  obtain a ok e r' j' where p: "readAccount n loc r = Some ((a, ok, e), r')" "reader_at s j' r'" "i \<le> j'" "\<not> e \<longrightarrow> j < j'"
    using readAccount_at [OF s Suc.prems(1,2) i] by blast
  have rest: "reads s i (readAccountList n m (Suc loc) r')" if "\<not> e"
  proof (rule Suc.IH [OF p(2,3)])
    have "j' \<le> length s" using p(2) by (simp add: reader_at_def)
    then show "length s - j' < m" using p(4) that Suc.prems(3) by linarith
  qed
  then show ?case using p by (auto intro!: reads_bind)
qed simp

lemma ImportKeys_returns:
  assumes "ends_well s" "3 * length s + 1 \<le> n" shows "ImportKeys n loc s \<noteq> None"
proof -
  obtain b1 r1 k1 where r1: "ReadListStart (NewReader s) = (b1, r1)" "reader_at s k1 r1" "0 \<le> k1"
    using delimiter_pair(1) [OF reader_at_New le0] by blast
  obtain ok1 r2 k2 where r2: "readSymbolAndExpect n (str ''privkeys'') r1 = Some (ok1, r2)" "reader_at s k2 r2" "0 \<le> k2"
    using potential_reads(4) [OF assms r1(2,3)] unfolding reads_def by blast
  have "length s - k2 < n" using assms(2) by linarith
  then obtain x r3 where "readAccountList n n loc r2 = Some (x, r3)"
    using readAccountList_reads [OF assms le0 r2(2,3)] unfolding reads_def by blast
  then show ?thesis using r1 r2 by (cases x; cases "ReadListEnd r3") (simp add: ImportKeys_def readAccounts_def)
qed

section \<open>Import of an exported file\<close>

lemma ReadWhitespace_Cons:
  "ReadWhitespace \<lparr>rd_last = l, rd_rest = c # s\<rparr> =
     (if isWhitespace c then ReadWhitespace \<lparr>rd_last = Some c, rd_rest = s\<rparr> else \<lparr>rd_last = None, rd_rest = c # s\<rparr>)"
  by (simp add: ReadWhitespace.simps [of "\<lparr>rd_last = l, rd_rest = c # s\<rparr>"] ReadByte_def)

lemma ReadDataUntil_Cons:
  "ReadDataUntil u \<lparr>rd_last = l, rd_rest = c # s\<rparr> =
     (if u c then ([], \<lparr>rd_last = None, rd_rest = c # s\<rparr>)
      else (case ReadDataUntil u \<lparr>rd_last = Some c, rd_rest = s\<rparr> of (x, r) \<Rightarrow> (c # x, r)))"
  by (simp add: ReadDataUntil.simps [of u "\<lparr>rd_last = l, rd_rest = c # s\<rparr>"] ReadByte_def)

lemma byte_classes:
  "isWhitespace 32" "isWhitespace 10" "\<not> isWhitespace 40" "\<not> isWhitespace 41" "\<not> isWhitespace 34" "\<not> isWhitespace 35"
  by (simp_all add: isWhitespace_def)

text \<open>The reader runs on literal text.\<close>

lemmas run_reader = ReadWhitespace_Cons ReadDataUntil_Cons byte_classes expect_def ReadByte_def UnreadByte_def
  ReadListStart_def ReadListEnd_def str_def of_char_def

text \<open>One line of white space, a delimiter; a symbol, a string, a number behind one.\<close>

lemma readPotentialSymbol_ok:
  "list_all isWhitespace w \<Longrightarrow> symbol_ok x \<Longrightarrow> isNotSymbolCharacter d \<Longrightarrow> 0 < n \<Longrightarrow>
   readPotentialSymbol n \<lparr>rd_last = l, rd_rest = w @ x @ d # s\<rparr> = Some ((x, True), \<lparr>rd_last = None, rd_rest = d # s\<rparr>)"
  using ReadValue_Symbol [of w x d "\<lparr>rd_last = l, rd_rest = w @ x @ d # s\<rparr>" s "n - 1"] by (simp add: readPotentialSymbol_def)

lemma readSymbolAndExpect_ok:
  "symbol_ok x \<Longrightarrow> isNotSymbolCharacter d \<Longrightarrow> 0 < n \<Longrightarrow>
   readSymbolAndExpect n x \<lparr>rd_last = l, rd_rest = x @ d # s\<rparr> = Some (True, \<lparr>rd_last = None, rd_rest = d # s\<rparr>)"
  using readPotentialSymbol_ok [of "[]"] by (simp add: readSymbolAndExpect_def)

lemma readPotentialBigNum_ok:
  "0 < n \<Longrightarrow> readPotentialBigNum n \<lparr>rd_last = l, rd_rest = 32 # 35 # fmt_X (Some v) @ 35 # s\<rparr>
     = Some ((Some v, True), \<lparr>rd_last = Some 35, rd_rest = s\<rparr>)"
  using ReadValue_BigNum [of "[32]" "\<lparr>rd_last = l, rd_rest = 32 # 35 # fmt_X (Some v) @ 35 # s\<rparr>" v s "n - 1"] byte_classes(1)
  by (simp add: readPotentialBigNum_def)

lemma readPotentialString_ok:
  "0 < n \<Longrightarrow> 34 \<notin> set x \<Longrightarrow> readPotentialStringOrSymbol n \<lparr>rd_last = l, rd_rest = 32 # 34 # x @ 34 # s\<rparr>
     = Some ((x, True), \<lparr>rd_last = Some 34, rd_rest = s\<rparr>)"
  using ReadValue_Sstring [of "[32]" x "\<lparr>rd_last = l, rd_rest = 32 # 34 # x @ 34 # s\<rparr>" s "n - 1"] byte_classes(1)
  by (simp add: readPotentialStringOrSymbol_def)

lemma delimiters_ok:
  "list_all isWhitespace w \<Longrightarrow> ReadListStart \<lparr>rd_last = l, rd_rest = w @ 40 # s\<rparr> = (True, \<lparr>rd_last = Some 40, rd_rest = s\<rparr>)"
  "list_all isWhitespace w \<Longrightarrow> ReadListEnd \<lparr>rd_last = l, rd_rest = w @ 41 # s\<rparr> = (True, \<lparr>rd_last = Some 41, rd_rest = s\<rparr>)"
  "list_all isWhitespace w \<Longrightarrow> ReadListStart \<lparr>rd_last = l, rd_rest = w @ 41 # s\<rparr> = (False, \<lparr>rd_last = None, rd_rest = 41 # s\<rparr>)"
  by (simp_all add: ReadListStart_def ReadListEnd_def expect_skip [of w] expect_other [of w] byte_classes)

lemma symbols_ok:
  "symbol_ok (str ''privkeys'')" "symbol_ok (str ''account'')" "symbol_ok (str ''name'')" "symbol_ok (str ''protocol'')"
  "symbol_ok (str ''private-key'')" "symbol_ok (str ''dsa'')" "symbol_ok [c] \<longleftrightarrow> c \<notin> {34, 35} \<and> \<not> isNotSymbolCharacter c"
  "isNotSymbolCharacter 32" "isNotSymbolCharacter 10" "isNotSymbolCharacter 41"
  by (auto simp: symbol_ok_def str_def of_char_def isNotSymbolCharacter_def isWhitespace_def)

lemma readParameter_ok:
  assumes "list_all isWhitespace w" "symbol_ok name" "0 < n"
  shows "readParameter n \<lparr>rd_last = l, rd_rest = w @ exportParameter name (Some v) @ s\<rparr>
    = Some ((name, Some v, False, True), \<lparr>rd_last = Some 41, rd_rest = 10 # s\<rparr>)"
proof -
  let ?t = "name @ 32 # 35 # fmt_X (Some v) @ 35 # 41 # 10 # s"
  have e: "w @ exportParameter name (Some v) @ s = (w @ replicate 8 32) @ 40 # ?t"
    by (simp add: exportParameter_def str_def of_char_def numeral_eq_Suc)
  have "list_all isWhitespace (w @ replicate 8 32)" using assms(1) byte_classes(1) by (simp add: list_all_iff)
  then have "ReadListStart \<lparr>rd_last = l, rd_rest = w @ exportParameter name (Some v) @ s\<rparr> = (True, \<lparr>rd_last = Some 40, rd_rest = ?t\<rparr>)"
    unfolding e by (rule delimiters_ok(1))
  then show ?thesis
    unfolding readParameter_def
    using readPotentialSymbol_ok [of "[]" name 32 n] readPotentialBigNum_ok [of n _ v] delimiters_ok(2) [of "[]"] assms symbols_ok(8)
    by simp
qed

definition dsa_part :: "DSAPrivateKey \<Rightarrow> dsa_PrivateKey" where
  "dsa_part k = \<lparr>dk_P = sk_P k, dk_Q = sk_Q k, dk_G = sk_G k, dk_Y = sk_Y k, dk_X = sk_X k\<rparr>"

text \<open>Keys and accounts that a file can hold: all numbers set; no quote in a name, a symbol as protocol.\<close>

definition key_set :: "DSAPrivateKey \<Rightarrow> bool" where
  "key_set k \<longleftrightarrow> sk_P k \<noteq> None \<and> sk_Q k \<noteq> None \<and> sk_G k \<noteq> None \<and> sk_Y k \<noteq> None \<and> sk_X k \<noteq> None"

definition account_ok :: "Account \<Rightarrow> bool" where
  "account_ok a \<longleftrightarrow> 34 \<notin> set (ac_Name a) \<and> symbol_ok (ac_Protocol a) \<and> (\<exists>k. ac_Key a = Some k \<and> key_set k)"

lemma assignParameter_names:
  "assignParameter k (str ''p'') v = (True, k\<lparr>dk_P := v\<rparr>)" "assignParameter k (str ''q'') v = (True, k\<lparr>dk_Q := v\<rparr>)"
  "assignParameter k (str ''g'') v = (True, k\<lparr>dk_G := v\<rparr>)" "assignParameter k (str ''y'') v = (True, k\<lparr>dk_Y := v\<rparr>)"
  "assignParameter k (str ''x'') v = (True, k\<lparr>dk_X := v\<rparr>)"
  by (simp_all add: assignParameter_def str_def of_char_def)

lemma readDSAPrivateKey_ok:
  assumes "key_set k" "6 \<le> n"
  shows "readDSAPrivateKey n \<lparr>rd_last = l, rd_rest = 10 # exportDSAPrivateKey k @ s\<rparr>
    = Some ((Some (dsa_part k), True), \<lparr>rd_last = Some 41, rd_rest = 10 # s\<rparr>)"
proof -
  obtain p q g y x where k: "sk_P k = Some p" "sk_Q k = Some q" "sk_G k = Some g" "sk_Y k = Some y" "sk_X k = Some x"
    using assms(1) by (auto simp: key_set_def)
  let ?fin = "replicate 6 32 @ 41 # 10 # s"
  let ?ps = "exportParameter (str ''p'') (Some p) @ exportParameter (str ''q'') (Some q) @ exportParameter (str ''g'') (Some g)
     @ exportParameter (str ''y'') (Some y) @ exportParameter (str ''x'') (Some x) @ ?fin"
  have e: "10 # exportDSAPrivateKey k @ s = (10 # replicate 6 32) @ 40 # str ''dsa'' @ 10 # ?ps"
    by (simp add: exportDSAPrivateKey_def k str_def of_char_def numeral_eq_Suc)
  have w: "list_all isWhitespace (10 # replicate 6 32)" "list_all isWhitespace [10]" using byte_classes by (simp_all add: list_all_iff)
  obtain m where m: "n = Suc (Suc (Suc (Suc (Suc (Suc m)))))" using le_Suc_ex [OF assms(2)] by auto
  have sy: "symbol_ok (str ''p'')" "symbol_ok (str ''q'')" "symbol_ok (str ''g'')" "symbol_ok (str ''y'')" "symbol_ok (str ''x'')"
    by (simp_all add: str_def of_char_def symbol_ok_def isNotSymbolCharacter_def isWhitespace_def)
  have next_p: "readParameter n \<lparr>rd_last = a, rd_rest = 10 # exportParameter nm (Some v) @ t\<rparr>
      = Some ((nm, Some v, False, True), \<lparr>rd_last = Some 41, rd_rest = 10 # t\<rparr>)" if "symbol_ok nm" for a nm v t
    using readParameter_ok [OF w(2) that, of n] m by simp
  have last_p: "readParameter n \<lparr>rd_last = a, rd_rest = 10 # ?fin\<rparr> = Some (([], None, True, True), \<lparr>rd_last = None, rd_rest = 41 # 10 # s\<rparr>)" for a
    using delimiters_ok(3) [OF w(1), of a "10 # s"] by (simp add: readParameter_def)
  have "readParameters n (Suc (Suc (Suc (Suc (Suc (Suc m)))))) nil_dsa_PrivateKey \<lparr>rd_last = None, rd_rest = 10 # ?ps\<rparr>
      = Some (Inr (dsa_part k), \<lparr>rd_last = None, rd_rest = 41 # 10 # s\<rparr>)"
    by (simp add: next_p sy last_p assignParameter_names dsa_part_def k nil_dsa_PrivateKey_def)
  then have ps: "readParameters n n nil_dsa_PrivateKey \<lparr>rd_last = None, rd_rest = 10 # ?ps\<rparr>
      = Some (Inr (dsa_part k), \<lparr>rd_last = None, rd_rest = 41 # 10 # s\<rparr>)"
    using m by simp
  have "readSymbolAndExpect n (str ''dsa'') \<lparr>rd_last = Some 40, rd_rest = str ''dsa'' @ 10 # ?ps\<rparr> = Some (True, \<lparr>rd_last = None, rd_rest = 10 # ?ps\<rparr>)"
    using m by (intro readSymbolAndExpect_ok symbols_ok) simp
  moreover have "ReadListStart \<lparr>rd_last = l, rd_rest = 10 # exportDSAPrivateKey k @ s\<rparr> = (True, \<lparr>rd_last = Some 40, rd_rest = str ''dsa'' @ 10 # ?ps\<rparr>)"
    unfolding e by (rule delimiters_ok(1) [OF w(1)])
  moreover have "ReadListEnd \<lparr>rd_last = None, rd_rest = 41 # 10 # s\<rparr> = (True, \<lparr>rd_last = Some 41, rd_rest = 10 # s\<rparr>)"
    using delimiters_ok(2) [of "[]"] by simp
  ultimately show ?thesis unfolding readDSAPrivateKey_def using ps by simp
qed

lemma layout:
  "list_all isWhitespace (10 # replicate k 32)" "list_all isWhitespace [10]" "list_all isWhitespace (replicate k 32)"
  by (simp_all add: list_all_iff byte_classes)

lemma readPrivateKey_ok:
  assumes "key_set k" "6 \<le> n" "exportPrivateKey (Some k) = Some t"
  shows "readPrivateKey n loc \<lparr>rd_last = l, rd_rest = 10 # t @ s\<rparr>
    = Some ((from_dsa loc (dsa_part k), True), \<lparr>rd_last = Some 41, rd_rest = 10 # s\<rparr>)"
proof -
  let ?u = "10 # exportDSAPrivateKey k @ replicate 4 32 @ 41 # 10 # s"
  have e: "10 # t @ s = (10 # replicate 4 32) @ 40 # str ''private-key'' @ ?u"
    using assms(3) by (auto simp: exportPrivateKey_def str_def of_char_def numeral_eq_Suc)
  have "ReadListStart \<lparr>rd_last = l, rd_rest = 10 # t @ s\<rparr> = (True, \<lparr>rd_last = Some 40, rd_rest = str ''private-key'' @ ?u\<rparr>)"
    unfolding e by (rule delimiters_ok(1) [OF layout(1)])
  moreover have "readSymbolAndExpect n (str ''private-key'') \<lparr>rd_last = Some 40, rd_rest = str ''private-key'' @ ?u\<rparr> = Some (True, \<lparr>rd_last = None, rd_rest = ?u\<rparr>)"
    using assms(2) by (intro readSymbolAndExpect_ok symbols_ok) simp
  moreover have "ReadListEnd \<lparr>rd_last = Some 41, rd_rest = 10 # replicate 4 32 @ 41 # 10 # s\<rparr> = (True, \<lparr>rd_last = Some 41, rd_rest = 10 # s\<rparr>)"
    using delimiters_ok(2) [OF layout(1), of "Some 41" 4 "10 # s"] by simp
  ultimately show ?thesis
    unfolding readPrivateKey_def using readDSAPrivateKey_ok [OF assms(1,2), of None] by simp
qed

lemma readAccountName_ok:
  assumes "34 \<notin> set nm" "0 < n"
  shows "readAccountName n \<lparr>rd_last = l, rd_rest = 10 # exportName nm @ s\<rparr> = Some ((nm, True), \<lparr>rd_last = Some 41, rd_rest = 10 # s\<rparr>)"
proof -
  let ?u = "32 # 34 # nm @ 34 # 41 # 10 # s"
  have e: "10 # exportName nm @ s = (10 # replicate 4 32) @ 40 # str ''name'' @ ?u"
    by (simp add: exportName_def str_def of_char_def numeral_eq_Suc)
  have "ReadListStart \<lparr>rd_last = l, rd_rest = 10 # exportName nm @ s\<rparr> = (True, \<lparr>rd_last = Some 40, rd_rest = str ''name'' @ ?u\<rparr>)"
    unfolding e by (rule delimiters_ok(1) [OF layout(1)])
  moreover have "readSymbolAndExpect n (str ''name'') \<lparr>rd_last = Some 40, rd_rest = str ''name'' @ ?u\<rparr> = Some (True, \<lparr>rd_last = None, rd_rest = ?u\<rparr>)"
    by (intro readSymbolAndExpect_ok symbols_ok assms(2))
  moreover have "ReadListEnd \<lparr>rd_last = Some 34, rd_rest = 41 # 10 # s\<rparr> = (True, \<lparr>rd_last = Some 41, rd_rest = 10 # s\<rparr>)"
    using delimiters_ok(2) [of "[]"] by simp
  ultimately show ?thesis
    unfolding readAccountName_def using readPotentialString_ok [OF assms(2,1)] by simp
qed

lemma readAccountProtocol_ok:
  assumes "symbol_ok pr" "0 < n"
  shows "readAccountProtocol n \<lparr>rd_last = l, rd_rest = 10 # exportProtocol pr @ s\<rparr> = Some ((pr, True), \<lparr>rd_last = Some 41, rd_rest = 10 # s\<rparr>)"
proof -
  let ?u = "[32] @ pr @ 41 # 10 # s"
  have e: "10 # exportProtocol pr @ s = (10 # replicate 4 32) @ 40 # str ''protocol'' @ 32 # pr @ 41 # 10 # s"
    by (simp add: exportProtocol_def str_def of_char_def numeral_eq_Suc)
  have "ReadListStart \<lparr>rd_last = l, rd_rest = 10 # exportProtocol pr @ s\<rparr> = (True, \<lparr>rd_last = Some 40, rd_rest = str ''protocol'' @ 32 # pr @ 41 # 10 # s\<rparr>)"
    unfolding e by (rule delimiters_ok(1) [OF layout(1)])
  moreover have "readSymbolAndExpect n (str ''protocol'') \<lparr>rd_last = Some 40, rd_rest = str ''protocol'' @ 32 # pr @ 41 # 10 # s\<rparr> = Some (True, \<lparr>rd_last = None, rd_rest = ?u\<rparr>)"
    using readSymbolAndExpect_ok [OF symbols_ok(4,8) assms(2)] by simp
  moreover have "readPotentialSymbol n \<lparr>rd_last = None, rd_rest = ?u\<rparr> = Some ((pr, True), \<lparr>rd_last = None, rd_rest = 41 # 10 # s\<rparr>)"
    using assms by (intro readPotentialSymbol_ok symbols_ok) (simp_all add: byte_classes)
  moreover have "ReadListEnd \<lparr>rd_last = None, rd_rest = 41 # 10 # s\<rparr> = (True, \<lparr>rd_last = Some 41, rd_rest = 10 # s\<rparr>)"
    using delimiters_ok(2) [of "[]"] by simp
  ultimately show ?thesis unfolding readAccountProtocol_def by simp
qed

text \<open>The account as it comes back: its key is a new one with the numbers of the old.\<close>

definition reloaded :: "nat \<Rightarrow> Account \<Rightarrow> Account" where
  "reloaded loc a = a\<lparr>ac_Key := map_option (\<lambda>k. from_dsa loc (dsa_part k)) (ac_Key a)\<rparr>"

lemma readAccount_ok:
  assumes "account_ok a" "exportAccount a = Some t" "6 \<le> n"
  shows "readAccount n loc \<lparr>rd_last = l, rd_rest = 10 # t @ s\<rparr> = Some ((Some (reloaded loc a), True, False), \<lparr>rd_last = Some 41, rd_rest = 10 # s\<rparr>)"
proof -
  obtain k where k: "ac_Key a = Some k" "key_set k" "34 \<notin> set (ac_Name a)" "symbol_ok (ac_Protocol a)" using assms(1) by (auto simp: account_ok_def)
  obtain x where x: "exportPrivateKey (Some k) = Some x" by (simp add: exportPrivateKey_def)
  let ?u = "10 # exportName (ac_Name a) @ exportProtocol (ac_Protocol a) @ x @ replicate 2 32 @ 41 # 10 # s"
  have e: "10 # t @ s = (10 # replicate 2 32) @ 40 # str ''account'' @ ?u"
    using assms(2) x k(1) by (auto simp: exportAccount_def str_def of_char_def numeral_eq_Suc)
  have "ReadListStart \<lparr>rd_last = l, rd_rest = 10 # t @ s\<rparr> = (True, \<lparr>rd_last = Some 40, rd_rest = str ''account'' @ ?u\<rparr>)"
    unfolding e by (rule delimiters_ok(1) [OF layout(1)])
  moreover have "readSymbolAndExpect n (str ''account'') \<lparr>rd_last = Some 40, rd_rest = str ''account'' @ ?u\<rparr> = Some (True, \<lparr>rd_last = None, rd_rest = ?u\<rparr>)"
    using assms(3) by (intro readSymbolAndExpect_ok symbols_ok) simp
  moreover have "ReadListEnd \<lparr>rd_last = Some 41, rd_rest = 10 # replicate 2 32 @ 41 # 10 # s\<rparr> = (True, \<lparr>rd_last = Some 41, rd_rest = 10 # s\<rparr>)"
    using delimiters_ok(2) [OF layout(1), of "Some 41" 2 "10 # s"] by simp
  ultimately show ?thesis
    unfolding readAccount_def
    using readAccountName_ok [OF k(3), of n None] readAccountProtocol_ok [OF k(4), of n "Some 41"] readPrivateKey_ok [OF k(2) assms(3) x, of loc "Some 41"] assms(3)
      k(1) by (cases a) (simp add: reloaded_def)
qed

fun reloaded_list :: "nat \<Rightarrow> Account list \<Rightarrow> Account list" where
  "reloaded_list loc [] = []"
| "reloaded_list loc (a # as) = reloaded loc a # reloaded_list (Suc loc) as"

lemma readAccountList_ok:
  assumes "6 \<le> n" "s = 41 # u"
  shows "list_all account_ok as \<Longrightarrow> exportAccountList as = Some t \<Longrightarrow> length as < m \<Longrightarrow>
    readAccountList n m loc \<lparr>rd_last = l, rd_rest = 10 # t @ s\<rparr>
      = Some ((map Some (reloaded_list loc as), True), \<lparr>rd_last = None, rd_rest = s\<rparr>)"
proof (induction as arbitrary: t m loc l)
  case Nil
  then show ?case using assms delimiters_ok(3) [OF layout(2)] by (cases m) (simp_all add: readAccount_def)
next
  case (Cons a as)
  obtain x y where xy: "exportAccount a = Some x" "exportAccountList as = Some y" "t = x @ y" using Cons.prems(2) by (auto split: bind_splits)
  obtain m' where m: "m = Suc m'" using Cons.prems(3) by (cases m) auto
  have "readAccount n loc \<lparr>rd_last = l, rd_rest = 10 # x @ y @ s\<rparr> = Some ((Some (reloaded loc a), True, False), \<lparr>rd_last = Some 41, rd_rest = 10 # y @ s\<rparr>)"
    using readAccount_ok [OF _ xy(1) assms(1)] Cons.prems(1) by simp
  then show ?case using Cons.IH [OF _ xy(2), of m' "Suc loc" "Some 41"] Cons.prems m xy(3) by simp
qed

lemma ImportKeys_exported:
  assumes "list_all account_ok as" "exportAccounts as = Some file" "length as + 6 \<le> n"
  shows "ImportKeys n loc file = Some (Inr (map Some (reloaded_list loc as)))"
proof -
  obtain t where t: "exportAccountList as = Some t" and f: "file = str ''(privkeys'' @ [10] @ t @ str '')'' @ [10]"
    using assms(2) by (auto simp: exportAccounts_def split: bind_splits)
  let ?u = "10 # t @ 41 # [10]"
  have e: "file = [] @ 40 # str ''privkeys'' @ ?u" unfolding f by (simp add: str_def of_char_def)
  have "ReadListStart (NewReader file) = (True, \<lparr>rd_last = Some 40, rd_rest = str ''privkeys'' @ ?u\<rparr>)"
    unfolding e NewReader_def by (rule delimiters_ok(1)) simp
  moreover have "readSymbolAndExpect n (str ''privkeys'') \<lparr>rd_last = Some 40, rd_rest = str ''privkeys'' @ ?u\<rparr> = Some (True, \<lparr>rd_last = None, rd_rest = ?u\<rparr>)"
    using assms(3) by (intro readSymbolAndExpect_ok symbols_ok) simp
  moreover have "readAccountList n n loc \<lparr>rd_last = None, rd_rest = ?u\<rparr>
      = Some ((map Some (reloaded_list loc as), True), \<lparr>rd_last = None, rd_rest = [41, 10]\<rparr>)"
    using assms(3) by (intro readAccountList_ok assms(1) t) simp_all
  moreover have "ReadListEnd \<lparr>rd_last = None, rd_rest = [41, 10]\<rparr> = (True, \<lparr>rd_last = Some 41, rd_rest = [10]\<rparr>)"
    using delimiters_ok(2) [of "[]"] by simp
  ultimately show ?thesis by (simp add: ImportKeys_def readAccounts_def)
qed

section \<open>Import of a file that was cut off\<close>

lemma stuck_reads:
  "readPotentialSymbol n opened_at_end = (if n = 0 then None else Some (([], False), opened_at_end))"
  "readPotentialBigNum n opened_at_end = (if n = 0 then None else Some ((None, False), opened_at_end))"
  "readPotentialStringOrSymbol n stuck = (if n < 4 then None else Some (([], False), stuck))"
  "readSymbolAndExpect n x opened_at_end = (if n = 0 then None else Some (False, opened_at_end))"
  "readSymbolAndExpect n x stuck = (if n < 4 then None else Some (False, stuck))"
  by (simp_all add: readPotentialSymbol_def readPotentialBigNum_def readPotentialStringOrSymbol_def readSymbolAndExpect_def
      ReadValue_opened_at_end ReadValue_stuck)

lemma stuck_delimiters:
  "ReadListStart stuck = (True, opened_at_end)" "ReadListEnd stuck = (False, stuck)"
  "ReadListStart opened_at_end = (False, stuck)" "ReadListEnd opened_at_end = (False, stuck)"
  by (simp_all add: ReadListStart_def ReadListEnd_def)

lemma readAccount_stuck:
  assumes "ReadListStart r = (True, opened_at_end)" "readAccount n loc r = Some ((a, ok, e), r')"
  shows "\<not> e \<and> r' = stuck"
proof -
  have "readParameter n stuck = (if n = 0 then None else Some (([], None, True, True), stuck))"
    by (simp add: readParameter_def stuck_reads stuck_delimiters)
  then have "readParameters n n k stuck = (if n = 0 then None else Some (Inr k, stuck))" for k
    by (cases n) simp_all
  then have "readDSAPrivateKey n opened_at_end = (if n < 4 then None else Some ((Some nil_dsa_PrivateKey, False), stuck))"
    by (simp add: readDSAPrivateKey_def stuck_reads stuck_delimiters)
  moreover have "readAccountName n opened_at_end = (if n < 4 then None else Some (([], False), stuck))"
    by (simp add: readAccountName_def stuck_reads stuck_delimiters)
  moreover have "readAccountProtocol n stuck = (if n = 0 then None else Some (([], False), stuck))"
    by (simp add: readAccountProtocol_def stuck_reads stuck_delimiters)
  ultimately show ?thesis using assms
    by (auto simp: readAccount_def readPrivateKey_def stuck_reads stuck_delimiters split: if_splits)
qed

lemma readAccountList_stuck: "ReadListStart r = (True, opened_at_end) \<Longrightarrow> readAccountList n m loc r = None"
proof (induction m arbitrary: loc r)
  case (Suc m)
  then show ?case using stuck_delimiters(1) by (cases "readAccount n loc r") (auto dest: readAccount_stuck)
qed simp

lemma readAccountList_cut:
  assumes "6 \<le> n"
  shows "list_all account_ok as \<Longrightarrow> exportAccountList as = Some t \<Longrightarrow> readAccountList n m loc \<lparr>rd_last = l, rd_rest = 10 # t @ [32, 32, 40]\<rparr> = None"
proof (induction as arbitrary: t m loc l)
  case Nil
  then show ?case using delimiters_ok(1) [of "[10, 32, 32]" l "[]"] by (intro readAccountList_stuck) (simp add: byte_classes)
next
  case (Cons a as)
  obtain x y where xy: "exportAccount a = Some x" "exportAccountList as = Some y" "t = x @ y" using Cons.prems(2) by (auto split: bind_splits)
  have "readAccount n loc \<lparr>rd_last = l, rd_rest = 10 # x @ y @ [32, 32, 40]\<rparr> = Some ((Some (reloaded loc a), True, False), \<lparr>rd_last = Some 41, rd_rest = 10 # y @ [32, 32, 40]\<rparr>)"
    using readAccount_ok [OF _ xy(1) assms] Cons.prems(1) by simp
  then show ?case using Cons.IH [OF _ xy(2)] Cons.prems(1) xy(3) by (cases m) simp_all
qed

section \<open>Properties of key files\<close>

text \<open>An account and its copy: the same name and protocol, and a key with the same numbers in both of its halves.\<close>

definition same_account :: "Account \<Rightarrow> Account \<Rightarrow> bool" where
  "same_account a b \<longleftrightarrow> ac_Name b = ac_Name a \<and> ac_Protocol b = ac_Protocol a
     \<and> (\<exists>k k'. ac_Key a = Some k \<and> ac_Key b = Some k' \<and> dsa_part k' = dsa_part k
          \<and> pk_P (key_PublicKey k') = sk_P k \<and> pk_Q (key_PublicKey k') = sk_Q k
          \<and> pk_G (key_PublicKey k') = sk_G k \<and> pk_Y (key_PublicKey k') = sk_Y k)"

lemma reloaded_same: "list_all account_ok as \<Longrightarrow> list_all2 same_account as (reloaded_list loc as)"
  by (induction as arbitrary: loc)
     (auto simp: same_account_def reloaded_def account_ok_def from_dsa_def dsa_part_def key_PublicKey_def)

lemma exportAccountList_returns: "list_all account_ok as \<Longrightarrow> \<exists>t. exportAccountList as = Some t"
  by (induction as) (auto simp: account_ok_def exportAccount_def exportPrivateKey_def)

text \<open>C27. Accounts survive a round trip through a key file. Exporting accounts whose names contain
  no quote, whose protocols are symbols and whose keys are set does not fail, and importing the file
  succeeds and yields as many accounts, in the same order, with the same names, protocols and keys.\<close>

theorem key_file_roundtrip:
  assumes "list_all account_ok as" "length as + 6 \<le> n"
  shows "\<exists>file as'. exportAccounts as = Some file \<and> ImportKeys n loc file = Some (Inr (map Some as')) \<and> list_all2 same_account as as'"
proof -
  obtain t where "exportAccountList as = Some t" using exportAccountList_returns [OF assms(1)] by blast
  then obtain f where "exportAccounts as = Some f" by (simp add: exportAccounts_def)
  then show ?thesis using ImportKeys_exported [OF assms(1) _ assms(2)] reloaded_same [OF assms(1)] by blast
qed

definition sample_account :: Account where
  "sample_account = \<lparr>ac_Name = str ''me@example.org'', ac_Protocol = str ''prpl-jabber'',
     ac_Key = Some (from_dsa 0 \<lparr>dk_P = Some 7, dk_Q = Some 3, dk_G = Some 2, dk_Y = Some 4, dk_X = Some 2\<rparr>)\<rparr>"

lemma sample_account_ok: "account_ok sample_account"
  by (simp add: sample_account_def account_ok_def key_set_def from_dsa_def symbol_ok_def isNotSymbolCharacter_def isWhitespace_def
      str_def of_char_def)

theorem key_file_roundtrip_witness:
  "\<exists>file as'. exportAccounts [sample_account, sample_account] = Some file \<and> ImportKeys 8 0 file = Some (Inr (map Some as')) \<and> length as' = 2"
  using key_file_roundtrip [of "[sample_account, sample_account]" 8 0] sample_account_ok by (auto dest: list_all2_lengthD)

text \<open>C28. Importing terminates on every file whose last byte is not an opening parenthesis, a quote or a
  number sign, however malformed it is: a stack of three times its length and as many rounds of
  the loops are enough.\<close>

theorem import_keys_terminates:
  assumes "file = [] \<or> last file \<notin> {40, 34, 35}" "3 * length file + 1 \<le> n"
  shows "\<exists>res. ImportKeys n loc file = Some res"
  using ImportKeys_returns [of "file" n loc] assms by (auto simp: ends_well_def)

theorem import_keys_terminates_witness: "\<exists>res. ImportKeys 100 0 (str ''((( (account () #12) foo'') = Some res"
  by (rule import_keys_terminates) (simp_all add: str_def of_char_def)

text \<open>C29. The exception is real. A key file that was cut off just behind the parenthesis that opens an
  account is never rejected: the byte is put back at the end of the file, the account is read again, and the
  import runs forever, adding an empty account to its result in every round.\<close>

theorem cut_key_file_diverges:
  assumes "list_all account_ok as" "exportAccountList as = Some accounts" "6 \<le> n"
  shows "ImportKeys n loc (str ''(privkeys'' @ [10] @ accounts @ str ''  ('') = None"
proof -
  let ?u = "10 # accounts @ [32, 32, 40]"
  have e: "str ''(privkeys'' @ [10] @ accounts @ str ''  ('' = [] @ 40 # str ''privkeys'' @ ?u" by (simp add: str_def of_char_def)
  have "ReadListStart (NewReader (str ''(privkeys'' @ [10] @ accounts @ str ''  ('')) = (True, \<lparr>rd_last = Some 40, rd_rest = str ''privkeys'' @ ?u\<rparr>)"
    unfolding e NewReader_def by (rule delimiters_ok(1)) simp
  moreover have "readSymbolAndExpect n (str ''privkeys'') \<lparr>rd_last = Some 40, rd_rest = str ''privkeys'' @ ?u\<rparr> = Some (True, \<lparr>rd_last = None, rd_rest = ?u\<rparr>)"
    using assms(3) by (intro readSymbolAndExpect_ok symbols_ok) simp
  ultimately show ?thesis using readAccountList_cut [OF assms(3,1,2)] by (simp add: ImportKeys_def readAccounts_def)
qed

theorem cut_key_file_diverges_witness: "ImportKeys 1000 0 (str ''(privkeys'' @ [10] @ [] @ str ''  ('') = None"
  by (rule cut_key_file_diverges [of "[]"]) simp_all

lemma hex_digit_bytes: "c \<in> set (map upper (fmt_num 16 1 m)) \<Longrightarrow> \<not> notHex c"
proof -
  assume "c \<in> set (map upper (fmt_num 16 1 m))"
  then obtain d where "c = upper (digit_char d)" "d = 0 \<or> d \<in> set (to_base 16 m)" by (auto simp: fmt_num_def Let_def split: if_splits)
  moreover from this(2) have "d < 16" using to_base_digits [of 16 d m] by auto
  moreover have "list_all (\<lambda>d. \<not> notHex (upper (digit_char d))) [0..<16]" by code_simp
  ultimately show ?thesis by (simp add: list_all_iff)
qed

text \<open>C30. A key whose first parameter prints with an odd number of hexadecimal digits cannot be read back with
  \<open>Import\<close>: the export writes the number without padding, the import wants whole bytes.\<close>

theorem import_rejects_odd_digits:
  assumes "sk_P key = Some p" "0 \<le> p" "odd (length (fmt_X (Some p)))"
  shows "key_Import priv (exportDSAPrivateKey key) = (False, priv)"
proof -
  let ?hex = "fmt_X (Some p)"
  obtain rest where e: "exportDSAPrivateKey key = str ''      (dsa'' @ [10] @ str ''        (p #'' @ ?hex @ 35 # rest"
    using assms(1) by (simp add: exportDSAPrivateKey_def exportParameter_def str_def of_char_def)
  have "bytes_Index (exportDSAPrivateKey key) (str '' #'') = Some 21"
    unfolding e by (simp add: str_def of_char_def HasPrefix_def)
  moreover have "drop 23 (exportDSAPrivateKey key) = ?hex @ 35 # rest" unfolding e by (simp add: str_def)
  moreover have "\<forall>c \<in> set ?hex. \<not> notHex c" using assms(2) hex_digit_bytes [of _ "nat p"] by (simp add: fmt_X_def)
  then have "takeWhile (\<lambda>c. \<not> notHex c) (?hex @ 35 # rest) = ?hex" "dropWhile (\<lambda>c. \<not> notHex c) (?hex @ 35 # rest) \<noteq> []"
    by (simp_all add: notHex_def)
  ultimately have "import_mpi (exportDSAPrivateKey key) = None" using assms(3) by (simp add: import_mpi_def Let_def)
  then show ?thesis by (simp add: key_Import_def numeral_eq_Suc)
qed

theorem import_rejects_odd_digits_witness:
  "\<not> fst (key_Import (nil_DSAPrivateKey 0) (exportDSAPrivateKey (from_dsa 0 \<lparr>dk_P = Some 7, dk_Q = Some 3, dk_G = Some 2, dk_Y = Some 4, dk_X = Some 2\<rparr>)))"
proof -
  have "odd (length (fmt_X (Some 7)))" by (simp add: fmt_X_def fmt_num_def to_base.simps Let_def)
  then show ?thesis using import_rejects_odd_digits [of "from_dsa 0 \<lparr>dk_P = Some 7, dk_Q = Some 3, dk_G = Some 2, dk_Y = Some 4, dk_X = Some 2\<rparr>" 7 "nil_DSAPrivateKey 0"]
    by (simp add: from_dsa_def)
qed

end
