(* ===== verification/Events.thy ===== *)
theory Events
  imports Debug
begin

text \<open>
  The names of events and error codes and the combinators of handlers
  (\<^verbatim>\<open>message_events.go\<close>, \<^verbatim>\<open>smp_events.go\<close>, \<^verbatim>\<open>security_events.go\<close>, \<^verbatim>\<open>error_codes.go\<close>). A handler is a
  function on a state of the application's own; a nil handler is \<open>None\<close>. The handlers that
  print the bytes or the question of an event with \<^verbatim>\<open>%#v\<close> are left out.
\<close>

section \<open>Names\<close>

text \<open>An event is a constant of its type or, \<open>None\<close>, any other number.\<close>

definition MessageEvent_String :: "MessageEvent option \<Rightarrow> bytes" where
  "MessageEvent_String s =
     (case s of
        Some MessageEventEncryptionRequired \<Rightarrow> str ''MessageEventEncryptionRequired''
      | Some MessageEventEncryptionError \<Rightarrow> str ''MessageEventEncryptionError''
      | Some MessageEventConnectionEnded \<Rightarrow> str ''MessageEventConnectionEnded''
      | Some MessageEventSetupError \<Rightarrow> str ''MessageEventSetupError''
      | Some MessageEventMessageReflected \<Rightarrow> str ''MessageEventMessageReflected''
      | Some MessageEventMessageSent \<Rightarrow> str ''MessageEventMessageSent''
      | Some MessageEventMessageResent \<Rightarrow> str ''MessageEventMessageResent''
      | Some MessageEventReceivedMessageNotInPrivate \<Rightarrow> str ''MessageEventReceivedMessageNotInPrivate''
      | Some MessageEventReceivedMessageUnreadable \<Rightarrow> str ''MessageEventReceivedMessageUnreadable''
      | Some MessageEventReceivedMessageMalformed \<Rightarrow> str ''MessageEventReceivedMessageMalformed''
      | Some MessageEventLogHeartbeatReceived \<Rightarrow> str ''MessageEventLogHeartbeatReceived''
      | Some MessageEventLogHeartbeatSent \<Rightarrow> str ''MessageEventLogHeartbeatSent''
      | Some MessageEventReceivedMessageGeneralError \<Rightarrow> str ''MessageEventReceivedMessageGeneralError''
      | Some MessageEventReceivedMessageUnencrypted \<Rightarrow> str ''MessageEventReceivedMessageUnencrypted''
      | Some MessageEventReceivedMessageUnrecognized \<Rightarrow> str ''MessageEventReceivedMessageUnrecognized''
      | Some MessageEventReceivedMessageForOtherInstance \<Rightarrow> str ''MessageEventReceivedMessageForOtherInstance''
      | None \<Rightarrow> str ''MESSAGE EVENT: (THIS SHOULD NEVER HAPPEN)'')"

definition SMPEvent_String :: "SMPEvent option \<Rightarrow> bytes" where
  "SMPEvent_String s =
     (case s of
        Some SMPEventError \<Rightarrow> str ''SMPEventError''
      | Some SMPEventAbort \<Rightarrow> str ''SMPEventAbort''
      | Some SMPEventCheated \<Rightarrow> str ''SMPEventCheated''
      | Some SMPEventAskForAnswer \<Rightarrow> str ''SMPEventAskForAnswer''
      | Some SMPEventAskForSecret \<Rightarrow> str ''SMPEventAskForSecret''
      | Some SMPEventInProgress \<Rightarrow> str ''SMPEventInProgress''
      | Some SMPEventSuccess \<Rightarrow> str ''SMPEventSuccess''
      | Some SMPEventFailure \<Rightarrow> str ''SMPEventFailure''
      | None \<Rightarrow> str ''SMP EVENT: (THIS SHOULD NEVER HAPPEN)'')"

definition SecurityEvent_String :: "SecurityEvent option \<Rightarrow> bytes" where
  "SecurityEvent_String s =
     (case s of
        Some GoneInsecure \<Rightarrow> str ''GoneInsecure''
      | Some GoneSecure \<Rightarrow> str ''GoneSecure''
      | Some StillSecure \<Rightarrow> str ''StillSecure''
      | None \<Rightarrow> str ''SECURITY EVENT: (THIS SHOULD NEVER HAPPEN)'')"

definition ErrorCode_String :: "ErrorCode option \<Rightarrow> bytes" where
  "ErrorCode_String s =
     (case s of
        Some ErrorCodeEncryptionError \<Rightarrow> str ''ErrorCodeEncryptionError''
      | Some ErrorCodeMessageUnreadable \<Rightarrow> str ''ErrorCodeMessageUnreadable''
      | Some ErrorCodeMessageMalformed \<Rightarrow> str ''ErrorCodeMessageMalformed''
      | Some ErrorCodeMessageNotInPrivate \<Rightarrow> str ''ErrorCodeMessageNotInPrivate''
      | None \<Rightarrow> str ''ERROR CODE: (THIS SHOULD NEVER HAPPEN)'')"

section \<open>Handlers\<close>

type_synonym 'w MessageEventHandler = "MessageEvent \<Rightarrow> bytes option \<Rightarrow> go_error option \<Rightarrow> nat list \<Rightarrow> 'w \<Rightarrow> 'w"
type_synonym 'w SMPEventHandler = "SMPEvent \<Rightarrow> nat \<Rightarrow> bytes \<Rightarrow> 'w \<Rightarrow> 'w"
type_synonym 'w SecurityEventHandler = "SecurityEvent \<Rightarrow> 'w \<Rightarrow> 'w"
type_synonym 'w ErrorMessageHandler = "ErrorCode \<Rightarrow> 'w \<Rightarrow> bytes \<times> 'w"

fun combinedMessageEventHandler :: "'w MessageEventHandler option list \<Rightarrow> 'w MessageEventHandler" where
  "combinedMessageEventHandler [] event message err trace w = w"
| "combinedMessageEventHandler (h # hs) event message err trace w =
     combinedMessageEventHandler hs event message err trace (case h of None \<Rightarrow> w | Some f \<Rightarrow> f event message err trace w)"

fun combinedSMPEventHandler :: "'w SMPEventHandler option list \<Rightarrow> 'w SMPEventHandler" where
  "combinedSMPEventHandler [] event percent question w = w"
| "combinedSMPEventHandler (h # hs) event percent question w =
     combinedSMPEventHandler hs event percent question (case h of None \<Rightarrow> w | Some f \<Rightarrow> f event percent question w)"

fun combinedSecurityEventHandler :: "'w SecurityEventHandler option list \<Rightarrow> 'w SecurityEventHandler" where
  "combinedSecurityEventHandler [] event w = w"
| "combinedSecurityEventHandler (h # hs) event w =
     combinedSecurityEventHandler hs event (case h of None \<Rightarrow> w | Some f \<Rightarrow> f event w)"

text \<open>The loop of the combined error handler with its variable \<^verbatim>\<open>result\<close>.\<close>

fun combined_errors :: "'w ErrorMessageHandler option list \<Rightarrow> ErrorCode \<Rightarrow> bytes \<Rightarrow> 'w \<Rightarrow> bytes \<times> 'w" where
  "combined_errors [] error result w = (result, w)"
| "combined_errors (h # hs) error result w =
     (case h of
        None \<Rightarrow> combined_errors hs error result w
      | Some f \<Rightarrow> (case f error w of (result', w') \<Rightarrow> combined_errors hs error result' w'))"

definition combinedErrorMessageHandler :: "'w ErrorMessageHandler option list \<Rightarrow> 'w ErrorMessageHandler" where
  "combinedErrorMessageHandler hs error w = combined_errors hs error [] w"

definition CombineMessageEventHandlers :: "'w MessageEventHandler option list \<Rightarrow> 'w MessageEventHandler" where
  "CombineMessageEventHandlers hs = combinedMessageEventHandler hs"

definition CombineSMPEventHandlers :: "'w SMPEventHandler option list \<Rightarrow> 'w SMPEventHandler" where
  "CombineSMPEventHandlers hs = combinedSMPEventHandler hs"

definition CombineSecurityEventHandlers :: "'w SecurityEventHandler option list \<Rightarrow> 'w SecurityEventHandler" where
  "CombineSecurityEventHandlers hs = combinedSecurityEventHandler hs"

definition CombineErrorMessageHandlers :: "'w ErrorMessageHandler option list \<Rightarrow> 'w ErrorMessageHandler" where
  "CombineErrorMessageHandlers hs = combinedErrorMessageHandler hs"

text \<open>The handlers that print to standard error, whose contents are the state.\<close>

definition DebugSecurityEventHandler :: "bytes SecurityEventHandler" where
  "DebugSecurityEventHandler event err =
     err @ debugPrefix @ str ''HandleSecurityEvent('' @ SecurityEvent_String (Some event) @ str '')'' @ [10]"

definition DebugErrorMessageHandler :: "bytes ErrorMessageHandler" where
  "DebugErrorMessageHandler error err =
     ([], err @ debugPrefix @ str ''HandleErrorMessage('' @ ErrorCode_String (Some error) @ str '')'' @ [10])"

text \<open>Combining is running one after the other; nil handlers do not count; the answer to an error is
  the last handler's.\<close>

lemma combined_append:
  "combinedMessageEventHandler (hs @ hs') e m err tr w = combinedMessageEventHandler hs' e m err tr (combinedMessageEventHandler hs e m err tr w)"
  "combinedSMPEventHandler (gs @ gs') s p q w = combinedSMPEventHandler gs' s p q (combinedSMPEventHandler gs s p q w)"
  "combinedSecurityEventHandler (ks @ ks') x w = combinedSecurityEventHandler ks' x (combinedSecurityEventHandler ks x w)"
proof -
  show "combinedMessageEventHandler (hs @ hs') e m err tr w = combinedMessageEventHandler hs' e m err tr (combinedMessageEventHandler hs e m err tr w)"
    by (induction hs arbitrary: w) simp_all
  show "combinedSMPEventHandler (gs @ gs') s p q w = combinedSMPEventHandler gs' s p q (combinedSMPEventHandler gs s p q w)"
    by (induction gs arbitrary: w) simp_all
  show "combinedSecurityEventHandler (ks @ ks') x w = combinedSecurityEventHandler ks' x (combinedSecurityEventHandler ks x w)"
    by (induction ks arbitrary: w) simp_all
qed

lemma combined_nil:
  "combinedMessageEventHandler (filter (\<lambda>h. h \<noteq> None) hs) = combinedMessageEventHandler hs"
  "combined_errors (filter (\<lambda>h. h \<noteq> None) es) error r w = combined_errors es error r w"
proof -
  have "combinedMessageEventHandler (filter (\<lambda>h. h \<noteq> None) hs) e m err tr w = combinedMessageEventHandler hs e m err tr w" for e m err tr w
    by (induction hs arbitrary: w) (auto split: option.split)
  then show "combinedMessageEventHandler (filter (\<lambda>h. h \<noteq> None) hs) = combinedMessageEventHandler hs" by (intro ext)
  show "combined_errors (filter (\<lambda>h. h \<noteq> None) es) error r w = combined_errors es error r w"
    by (induction es arbitrary: r w) (auto split: option.split prod.split)
qed

lemma combined_errors_last: "\<exists>w'. combined_errors (es @ [Some f]) error r w = f error w'"
  by (induction es arbitrary: r w) (auto simp: split_def split: option.split)

end
