(* ===== verification/Wiping.thy ===== *)
theory Wiping
  imports Key_Management
begin

text \<open>
  \<^verbatim>\<open>wipe.go\<close> on an explicit memory. The rest of the development treats keys as values, for which
  wiping a key is forgetting it; here numbers and byte slices live at addresses, structs hold
  the addresses, and wiping overwrites what is stored there. The lemmas relate the two views:
  reading a wiped struct from memory gives what the operation on values gives, and of every
  number and key the struct pointed to only zeros are left.
\<close>

section \<open>Memory\<close>

record memory =
  mem_int :: "nat \<Rightarrow> int"
  mem_bytes :: "nat \<Rightarrow> bytes"
  mem_counter :: "nat \<Rightarrow> keyPairCounter"
  mem_next :: nat

definition zeroes :: "nat \<Rightarrow> bytes" where
  "zeroes n = replicate n 0"

definition wipeBytes :: "nat \<Rightarrow> memory \<Rightarrow> memory" where
  "wipeBytes b m = m\<lparr>mem_bytes := (mem_bytes m)(b := zeroes (length (mem_bytes m b)))\<rparr>"

definition wipeBigInt :: "nat option \<Rightarrow> memory \<Rightarrow> memory" where
  "wipeBigInt k m =
     (case k of
        None \<Rightarrow> m
      | Some a \<Rightarrow> m\<lparr>mem_int := (mem_int m)(a := big_SetBytes (zeroes (length (big_Bytes (mem_int m a)))))\<rparr>)"

text \<open>The source is read after the destination was wiped; the result is a new number.\<close>

definition setBigInt :: "nat option \<Rightarrow> nat \<Rightarrow> memory \<Rightarrow> nat \<times> memory" where
  "setBigInt dst src m =
     (let m1 = wipeBigInt dst m; a = mem_next m1
      in (a, m1\<lparr>mem_int := (mem_int m1)(a := mem_int m1 src), mem_next := Suc a\<rparr>))"

section \<open>Structs of addresses\<close>

record ref_keyPair =
  rp_pub :: "nat option"
  rp_priv :: "nat option"

record ref_usage =
  ru_ourKeyID :: uint32
  ru_theirKeyID :: uint32
  ru_receivingKey :: nat

record ref_akeKeys =
  ra_c :: "nat option"
  ra_m1 :: "nat option"
  ra_m2 :: "nat option"

record ref_keys =
  rk_ourKeyID :: uint32
  rk_theirKeyID :: uint32
  rk_ourCurrent :: ref_keyPair
  rk_ourPrevious :: ref_keyPair
  rk_theirCurrent :: "nat option"
  rk_theirPrevious :: "nat option"
  rk_counters :: "nat list"
  rk_macKeys :: "ref_usage list"
  rk_oldMACKeys :: "nat list"

text \<open>A nil slice has no address; a MAC key that was wiped is an empty slice of no interest.\<close>

definition mem_dhKeyPair_wipe :: "ref_keyPair \<Rightarrow> memory \<Rightarrow> ref_keyPair \<times> memory" where
  "mem_dhKeyPair_wipe p m = (\<lparr>rp_pub = None, rp_priv = None\<rparr>, wipeBigInt (rp_priv p) (wipeBigInt (rp_pub p) m))"

definition wipe_slice :: "nat option \<Rightarrow> memory \<Rightarrow> memory" where
  "wipe_slice b m = (case b of None \<Rightarrow> m | Some a \<Rightarrow> wipeBytes a m)"

definition mem_akeKeys_wipe :: "ref_akeKeys \<Rightarrow> memory \<Rightarrow> ref_akeKeys \<times> memory" where
  "mem_akeKeys_wipe k m = (\<lparr>ra_c = None, ra_m1 = None, ra_m2 = None\<rparr>, wipe_slice (ra_m2 k) (wipe_slice (ra_m1 k) (wipe_slice (ra_c k) m)))"

definition macKey_wipe :: "nat \<Rightarrow> memory \<Rightarrow> memory" where
  "macKey_wipe k m = wipeBytes k m"

definition macKeyUsage_wipe :: "ref_usage \<Rightarrow> memory \<Rightarrow> memory" where
  "macKeyUsage_wipe u m = macKey_wipe (ru_receivingKey u) m"

definition macKeyHistory_wipe :: "ref_usage list \<Rightarrow> memory \<Rightarrow> ref_usage list \<times> memory" where
  "macKeyHistory_wipe items m = ([], fold macKeyUsage_wipe items m)"

definition keyPairCounter_wipe :: "nat \<Rightarrow> memory \<Rightarrow> memory" where
  "keyPairCounter_wipe a m =
     m\<lparr>mem_counter := (mem_counter m)(a := \<lparr>pc_ourKeyID = 0, pc_theirKeyID = 0, pc_ourCounter = 0, pc_theirCounter = 0\<rparr>)\<rparr>"

definition counterHistory_wipe :: "nat list \<Rightarrow> memory \<Rightarrow> nat list \<times> memory" where
  "counterHistory_wipe counters m = ([], fold keyPairCounter_wipe counters m)"

definition mem_wipeKeys :: "ref_keys \<Rightarrow> memory \<Rightarrow> ref_keys \<times> memory" where
  "mem_wipeKeys c m =
     (case mem_dhKeyPair_wipe (rk_ourCurrent c) m of (cur, m1) \<Rightarrow>
      case mem_dhKeyPair_wipe (rk_ourPrevious c) m1 of (prev, m2) \<Rightarrow>
        (c\<lparr>rk_ourCurrent := cur, rk_ourPrevious := prev, rk_theirCurrent := None, rk_theirPrevious := None\<rparr>,
         wipeBigInt (rk_theirPrevious c) (wipeBigInt (rk_theirCurrent c) m2)))"

definition mem_wipe :: "ref_keys \<Rightarrow> memory \<Rightarrow> ref_keys \<times> memory" where
  "mem_wipe c m =
     (case mem_wipeKeys c m of (c1, m1) \<Rightarrow>
      case counterHistory_wipe (rk_counters c) (fold macKey_wipe (rk_oldMACKeys c) m1) of (cs, m2) \<Rightarrow>
      case macKeyHistory_wipe (rk_macKeys c) m2 of (hs, m3) \<Rightarrow>
        (c1\<lparr>rk_ourKeyID := 0, rk_theirKeyID := 0, rk_oldMACKeys := [], rk_counters := cs, rk_macKeys := hs\<rparr>, m3))"

definition mem_nil_keys :: ref_keys where
  "mem_nil_keys = \<lparr>rk_ourKeyID = 0, rk_theirKeyID = 0, rk_ourCurrent = \<lparr>rp_pub = None, rp_priv = None\<rparr>,
     rk_ourPrevious = \<lparr>rp_pub = None, rp_priv = None\<rparr>, rk_theirCurrent = None, rk_theirPrevious = None,
     rk_counters = [], rk_macKeys = [], rk_oldMACKeys = []\<rparr>"

text \<open>\<^verbatim>\<open>copy\<close> copies the slice headers: the new list has the old addresses.\<close>

definition mem_wipeAndKeepRevealKeys :: "ref_keys \<Rightarrow> memory \<Rightarrow> ref_keys \<times> memory" where
  "mem_wipeAndKeepRevealKeys c m = (mem_nil_keys\<lparr>rk_oldMACKeys := rk_oldMACKeys c\<rparr>, snd (mem_wipe c m))"

section \<open>What the structs mean\<close>

definition read_keyPair :: "memory \<Rightarrow> ref_keyPair \<Rightarrow> dhKeyPair" where
  "read_keyPair m p = \<lparr>kp_pub = map_option (mem_int m) (rp_pub p), kp_priv = map_option (mem_int m) (rp_priv p)\<rparr>"

definition read_usage :: "memory \<Rightarrow> ref_usage \<Rightarrow> macKeyUsage" where
  "read_usage m u = \<lparr>mu_ourKeyID = ru_ourKeyID u, mu_theirKeyID = ru_theirKeyID u, mu_receivingKey = mem_bytes m (ru_receivingKey u)\<rparr>"

definition read_keys :: "memory \<Rightarrow> ref_keys \<Rightarrow> keyManagementContext" where
  "read_keys m c =
     \<lparr>km_ourKeyID = rk_ourKeyID c, km_theirKeyID = rk_theirKeyID c, ourCurrentDHKeys = read_keyPair m (rk_ourCurrent c),
      ourPreviousDHKeys = read_keyPair m (rk_ourPrevious c), theirCurrentDHPubKey = map_option (mem_int m) (rk_theirCurrent c),
      theirPreviousDHPubKey = map_option (mem_int m) (rk_theirPrevious c), counterHistory = map (mem_counter m) (rk_counters c),
      macKeyHistory = map (read_usage m) (rk_macKeys c), km_oldMACKeys = map (mem_bytes m) (rk_oldMACKeys c)\<rparr>"

text \<open>The numbers and the byte slices a struct points to.\<close>

definition pair_ints :: "ref_keyPair \<Rightarrow> nat set" where
  "pair_ints p = set_option (rp_pub p) \<union> set_option (rp_priv p)"

definition key_ints :: "ref_keys \<Rightarrow> nat set" where
  "key_ints c = pair_ints (rk_ourCurrent c) \<union> pair_ints (rk_ourPrevious c) \<union> set_option (rk_theirCurrent c) \<union> set_option (rk_theirPrevious c)"

definition key_slices :: "ref_keys \<Rightarrow> nat set" where
  "key_slices c = set (rk_oldMACKeys c) \<union> ru_receivingKey ` set (rk_macKeys c)"

section \<open>Erasure\<close>

lemma wipeBigInt_int: "mem_int (wipeBigInt k m) = (\<lambda>a. if Some a = k then 0 else mem_int m a)"
proof -
  have "be_nat (replicate n 0) = 0" for n by (induction n) (simp_all add: be_nat_Cons)
  then show ?thesis by (cases k) (auto simp: wipeBigInt_def zeroes_def big_SetBytes_def)
qed

lemma wipeBigInt_frame [simp]:
  "mem_bytes (wipeBigInt k m) = mem_bytes m" "mem_counter (wipeBigInt k m) = mem_counter m" "mem_next (wipeBigInt k m) = mem_next m"
  by (cases k; simp add: wipeBigInt_def)+

lemma fold_macKey_wipe:
  "mem_bytes (fold macKey_wipe ks m) = (\<lambda>a. if a \<in> set ks then zeroes (length (mem_bytes m a)) else mem_bytes m a)"
  "mem_int (fold macKey_wipe ks m) = mem_int m"
proof -
  show "mem_bytes (fold macKey_wipe ks m) = (\<lambda>a. if a \<in> set ks then zeroes (length (mem_bytes m a)) else mem_bytes m a)"
    by (induction ks arbitrary: m) (auto simp: macKey_wipe_def wipeBytes_def zeroes_def fun_eq_iff)
  show "mem_int (fold macKey_wipe ks m) = mem_int m"
    by (induction ks arbitrary: m) (auto simp: macKey_wipe_def wipeBytes_def)
qed

lemma fold_usage_wipe: "fold macKeyUsage_wipe us m = fold macKey_wipe (map ru_receivingKey us) m"
  by (induction us arbitrary: m) (simp_all add: macKeyUsage_wipe_def)

lemma fold_counter_wipe [simp]: "mem_int (fold keyPairCounter_wipe cs m) = mem_int m" "mem_bytes (fold keyPairCounter_wipe cs m) = mem_bytes m"
  by (induction cs arbitrary: m) (simp_all add: keyPairCounter_wipe_def)

lemma mem_wipe_erases:
  "mem_int (snd (mem_wipe c m)) = (\<lambda>a. if a \<in> key_ints c then 0 else mem_int m a)"
  "mem_bytes (snd (mem_wipe c m)) = (\<lambda>a. if a \<in> key_slices c then zeroes (length (mem_bytes m a)) else mem_bytes m a)"
  by (auto simp: mem_wipe_def mem_wipeKeys_def mem_dhKeyPair_wipe_def counterHistory_wipe_def macKeyHistory_wipe_def fold_usage_wipe
      fold_macKey_wipe wipeBigInt_int key_ints_def pair_ints_def key_slices_def zeroes_def fun_eq_iff)

lemma mem_wipe_struct: "fst (mem_wipe c m) = mem_nil_keys"
  by (simp add: mem_wipe_def mem_wipeKeys_def mem_dhKeyPair_wipe_def counterHistory_wipe_def macKeyHistory_wipe_def mem_nil_keys_def)

lemma read_nil_keys: "read_keys m mem_nil_keys = nil_keys"
  by (simp add: read_keys_def mem_nil_keys_def nil_keys_def read_keyPair_def nil_keyPair_def)


text \<open>C32. The context that \<open>wipeAndKeepRevealKeys\<close> is to keep the MAC keys in has only zeros in their place: the keys
  are copied as slices, and the wiping that follows reaches their bytes. Read as values, the
  result is as many keys of the same lengths, all zero.\<close>

theorem kept_reveal_keys_are_zero:
  "read_keys (snd (mem_wipeAndKeepRevealKeys c m)) (fst (mem_wipeAndKeepRevealKeys c m)) = wipeAndKeepRevealKeys (read_keys m c)
   \<and> km_oldMACKeys (wipeAndKeepRevealKeys (read_keys m c)) = map (\<lambda>k. zeroes (length k)) (map (mem_bytes m) (rk_oldMACKeys c))"
proof -
  have "map (mem_bytes (snd (mem_wipe c m))) (rk_oldMACKeys c) = map (\<lambda>k. zeroes (length k)) (map (mem_bytes m) (rk_oldMACKeys c))"
    unfolding mem_wipe_erases by (simp add: key_slices_def)
  then show ?thesis
    by (simp add: mem_wipeAndKeepRevealKeys_def wipeAndKeepRevealKeys_def read_keys_def mem_nil_keys_def nil_keys_def read_keyPair_def nil_keyPair_def zeroes_def)
qed

text \<open>A number set from another one is a copy: wiping either leaves the other alone.\<close>

lemma setBigInt_copies:
  assumes "setBigInt dst src m = (a, m')" "src < mem_next m" "dst \<noteq> Some src" "\<forall>d. dst = Some d \<longrightarrow> d < mem_next m"
  shows "mem_int m' a = mem_int m src" "mem_int (wipeBigInt (Some src) m') a = mem_int m src" "dst = Some d \<Longrightarrow> mem_int m' d = 0"
  using assms by (auto simp: setBigInt_def Let_def wipeBigInt_int)

end
