(* ===== verification/Spec2Isabelle.thy ===== *)
theory Spec2Isabelle
  imports Session_Security Interference Dialogue Negotiation Smp_Run Key_Files Events Wiping
begin

text \<open>
  Verification development for the Go library otr3: Off-the-Record messaging, versions 2 and 3.

  \<^bold>\<open>The program.\<close> An application holds one \<^verbatim>\<open>Conversation\<close> per peer. It hands every text of its user to
  \<^verbatim>\<open>Send\<close> and every message of the network to \<^verbatim>\<open>Receive\<close>. \<^verbatim>\<open>Receive\<close> guesses what kind of message it got
  (\<^verbatim>\<open>message_type.go\<close>). Queries and whitespace tags agree on a version and start the key exchange.
  Fragments are collected. Encoded messages go to the key exchange (\<^verbatim>\<open>ake.go\<close>, \<^verbatim>\<open>auth_state_machine.go\<close>)
  or, in an encrypted session, to the data messages (\<^verbatim>\<open>data_message.go\<close>), which use the rotating
  Diffie-Hellman keys of \<^verbatim>\<open>key_management.go\<close>. The TLVs inside data messages drive the
  socialist millionaires' protocol, the disconnect and the extra key. Long-term keys are DSA keys,
  read from the files of libotr with the package \<^verbatim>\<open>sexp\<close>.

  \<^bold>\<open>The model.\<close> Every definition of the model is a function on values, named after the Go function
  it translates; \<^verbatim>\<open>c_\<close>, \<^verbatim>\<open>key_\<close>, \<^verbatim>\<open>v_\<close> and the like are put in front where the name occurs twice. A method of
  \<^verbatim>\<open>*Conversation\<close> takes the record \<open>conversation\<close> and returns it updated. Panics are \<^term>\<open>None\<close>, Go errors
  are values of \<open>go_error\<close>, and state changes made before an error stay. Machine integers are words of their width.
  The random source, the clock and the log of calls to the event handlers are fields of the record.

  \<^item> \<open>Otr_Prelude\<close>, \<open>Go_Std\<close>: the conventions, and what the code uses of Go's standard library.
  \<^item> \<open>Gotrax\<close>: the vendored wire format; the locale \<open>codec\<close> is its contract (what is written is read back),
    interpreted on shorts, words, longs, data, MPIs and lists of MPIs.
  \<^item> \<open>Suite\<close>, \<open>Go_Crypto\<close>: the cryptographic primitives as a record \<open>suite\<close>; the locales \<open>crypto_suite\<close> and \<open>dh_suite\<close> state
    what is relied upon (lengths of digests and blocks, facts about the group), and are interpreted on the SHA-1, SHA-256, AES and
    the group of \<^verbatim>\<open>dh.go\<close>, all written out. DSA signing and verification are parameters.
  \<^item> \<open>Otr_Util\<close>: \<^verbatim>\<open>bn_utils.go\<close>, \<^verbatim>\<open>dh.go\<close>, \<^verbatim>\<open>random.go\<close>, \<^verbatim>\<open>policy.go\<close>, \<^verbatim>\<open>errors.go\<close> and other small files.
  \<^item> \<open>Messages\<close>: \<^verbatim>\<open>messages.go\<close>, \<^verbatim>\<open>tlv.go\<close>. \<open>Keys\<close>, \<open>Key_Files\<close>: \<^verbatim>\<open>keys.go\<close>. \<open>Sexp\<close>: the package \<^verbatim>\<open>sexp\<close>.
  \<^item> \<open>Key_Management\<close>: \<^verbatim>\<open>key_management.go\<close> on values; \<open>Wiping\<close>: \<^verbatim>\<open>wipe.go\<close> on an explicit memory.
  \<^item> \<open>Fragmentation\<close>: \<^verbatim>\<open>fragmentation.go\<close> with its 16-bit arithmetic.
  \<^item> \<open>Smp\<close>, \<open>Smp_State_Machine\<close>: \<^verbatim>\<open>smp*.go\<close>.
  \<^item> \<open>Conversation\<close>: the state, \<^verbatim>\<open>version.go\<close>, \<^verbatim>\<open>otrv2.go\<close>, \<^verbatim>\<open>otrv3.go\<close>. \<open>Data_Message\<close>: \<^verbatim>\<open>data_message.go\<close>, \<^verbatim>\<open>resend.go\<close>,
    \<^verbatim>\<open>heartbeat.go\<close> and what they call. \<open>Ake\<close>: \<^verbatim>\<open>ake.go\<close>, \<^verbatim>\<open>auth_state_machine.go\<close>.
  \<^item> \<open>Receive\<close>: \<^verbatim>\<open>receive.go\<close>, \<^verbatim>\<open>send.go\<close>, \<^verbatim>\<open>query.go\<close>, \<^verbatim>\<open>whitespace.go\<close>. \<open>Debug\<close>: \<^verbatim>\<open>debug.go\<close>. \<open>Events\<close>: the event
    types, their names and the combinators of handlers.

  \<^bold>\<open>What is shown.\<close>

  \<^item> \<open>Delivery\<close>, \<open>Channel\<close>, \<open>Handshake\<close>, \<open>Reassembly\<close>, \<open>Dialogue\<close>, with the theorems of this theory: two honest peers complete
    the key exchange with matching keys, and every text sent afterwards arrives, in any order of speakers, through
    all rotations of keys, whole or in fragments, from the queue of waiting texts or directly.
  \<^item> \<open>Key_Rotation\<close>: the key context as a step relation with its invariant. No reachable context panics, the session
    keys of two sides mirror each other, counters increase, a message is accepted once (the locale
    \<open>replay_guard\<close>), and MAC keys are revealed only once they are out of use.
  \<^item> \<open>Session_Invariant\<close>, \<open>Session_Receive\<close>: an invariant of the whole conversation that every call keeps, and
    that no call panics but for one case, which is shown to panic.
  \<^item> \<open>Session_Security\<close>: a session is encrypted only after the peer's signature was verified, and a text shown without
    report was authenticated.
  \<^item> \<open>Smp_Run\<close>: a run of the socialist millionaires' protocol compares the secrets, and in version 2 can be forged.
  \<^item> \<open>Negotiation\<close>: the version that queries and whitespace tags lead to, and the types of messages.
  \<^item> \<open>Interference\<close>: when \<^verbatim>\<open>Receive\<close> returns, and what an attacker without keys achieves by injecting messages.
  \<^item> \<open>Key_Files\<close>: key files can be read back, reading ends except for the files named, and keys with odd digits are refused.

  \<^bold>\<open>Hypotheses.\<close> Theorems about honest peers assume that a key pair's signatures verify and that signing draws a bounded
  number of random bytes (\<open>key_pair_ok\<close>), that the random sources are long enough, that drawn exponents give
  group elements, and that no counter or key id wraps. \<open>Sample\<close> and the toy data of \<open>Key_Rotation\<close>
  and \<open>Smp_Run\<close> show that each can hold. No theorem assumes anything about the strength of the cryptography.

  \<^bold>\<open>Fuel.\<close> \<^verbatim>\<open>receiveUnit\<close> calls itself on a reassembled message and need not end. One unit of fuel serves a message that is no
  fragment, two serve a fragment whose contents are none; \<open>Interference\<close> shows this, and that no amount serves a fragment whose
  contents only look like one. The reader of \<open>Sexp\<close> and the loops of \<open>Key_Files\<close> take fuel for the depth of the stack and the
  rounds of a loop; three units per byte and one more are shown to be enough for every file that does not end in an
  opening parenthesis, a quote or a hash sign. All other loops are total functions.

  \<^bold>\<open>Not modelled.\<close> Opening, closing and creating files (a file is its contents); the handlers that print with
  \<^verbatim>\<open>%#v\<close>, whose output format is that of Go's reflection; the generators and signatures of \<^verbatim>\<open>crypto/dsa\<close>, which
  are parameters; concurrency, of which the library has none; \<^verbatim>\<open>doc.go\<close>, which has no code.
\<close>

section \<open>The key exchange and the encrypted channel\<close>



text \<open>C2. Delivery. Between two conversations connected by a channel (encrypted, with matching keys, counters
  and instance tags), \<open>Send\<close> of a message without NUL bytes yields exactly one wire message, \<open>Receive\<close> of
  it on the other side returns exactly the message sent (nothing for an empty one, a heartbeat), neither call fails,
  and the two conversations are connected by a channel again, whatever keys were rotated.\<close>

theorem channel_delivery:
  assumes "channel (go_suite sg vf) v a b" "sendable m" "room_to_send a" "room_to_receive b"
    "kp_pub (ourPreviousDHKeys (c_keys a)) \<noteq> theirCurrentDHPubKey (c_keys a)"
  shows "\<exists>w a' b' reply. c_Send (go_suite sg vf) m tr a = Some (([w], None), a')
    \<and> c_Receive (go_suite sg vf) (Suc n) w b = Finished (Some ((if m = [] then None else Some m, reply, None), b'))
    \<and> channel (go_suite sg vf) v a' b'"
  using go.channel_delivers [OF assms(1,2,5,3,4)] by blast

theorem channel_delivery_witness:
  "\<exists>w a' b' reply. c_Send sample_suite (str ''hi'') [] (sample_session 200 256 130 257) = Some (([w], None), a')
    \<and> c_Receive sample_suite 1 w (sample_session 130 257 200 256) = Finished (Some ((Some (str ''hi''), reply, None), b'))
    \<and> channel sample_suite OtrV3 a' b'"
proof -
  have m: "sendable (str ''hi'')" "str ''hi'' \<noteq> []" by (simp_all add: sendable_def str_def)
  show ?thesis
    using channel_delivery [OF sample_channel [unfolded sample_suite_def] m(1) sample_room, of "[]" 0, folded sample_suite_def] m(2)
    by (simp only: One_nat_def if_False)
qed



text \<open>C4. A conversation of any length. Over a channel, any sequence of texts in both directions is delivered:
  each \<open>Send\<close> yields one wire message, \<open>Receive\<close> of it on the other side shows exactly the text that was sent, in the order
  of the sequence, through all rotations of keys, as long as counters, key ids and the random source
  have room for that many messages and the two sides draw different D-H values.\<close>

theorem dialogue_delivery:
  assumes "channel (go_suite sg vf) v a b" "\<forall>(d, m) \<in> set ms. sendable m" "plenty (length ms) a" "plenty (length ms) b"
    "publics (go_suite sg vf) a \<inter> publics (go_suite sg vf) b = {}"
  shows "\<exists>a' b'. run_dialogue (go_suite sg vf) ms a b = Some (map (shown \<circ> snd) ms, a', b') \<and> channel (go_suite sg vf) v a' b'"
  by (rule go.dialogue_delivers [OF assms])

lemma sample_talk_apart:
  "publics sample_suite (sample_talker 200 256 130 257) \<inter> publics sample_suite (sample_talker 130 257 200 256) = {}"
  using sample_talker_publics [of 200 256 130 257] sample_talker_publics [of 130 257 200 256] by auto

theorem dialogue_delivery_witness:
  "\<exists>a' b'. run_dialogue sample_suite [(True, str ''hi''), (False, str ''ho''), (True, str ''bye'')]
      (sample_talker 200 256 130 257) (sample_talker 130 257 200 256)
    = Some ([Some (str ''hi''), Some (str ''ho''), Some (str ''bye'')], a', b') \<and> channel sample_suite OtrV3 a' b'"
proof -
  let ?ms = "[(True, str ''hi''), (False, str ''ho''), (True, str ''bye'')]"
  have m: "\<forall>(d, m) \<in> set ?ms. sendable m" "map (shown \<circ> snd) ?ms = [Some (str ''hi''), Some (str ''ho''), Some (str ''bye'')]"
    by (simp_all add: sendable_def str_def shown_def)
  have p: "plenty (length ?ms) (sample_talker x t y t')" for x t y t' using sample_talker_plenty [of x t y t'] by (simp add: numeral_3_eq_3)
  show ?thesis
    using dialogue_delivery [OF sample_talk [unfolded sample_suite_def] m(1) p p sample_talk_apart [unfolded sample_suite_def],
        folded sample_suite_def] unfolding m(2) .
qed

text \<open>C8. Retransmission. Once a channel is established, \<open>retransmit\<close> turns the queue of texts that are waiting to be
  sent into one wire message each, the other side shows them in the order they were queued (marked by the
  transformer when they had been sent before), and the queue is empty afterwards.\<close>

theorem retransmission_delivery:
  assumes "channel (go_suite sg vf) v a b" "\<forall>m \<in> set (queued_texts a). sendable m"
    "plenty (length (resend_m (c_resend a))) a" "plenty (length (resend_m (c_resend a))) b"
    "publics (go_suite sg vf) a \<inter> publics (go_suite sg vf) b = {}"
  shows "\<exists>ws a' b'. retransmit (go_suite sg vf) a = Some (Inr (map Some ws), a')
    \<and> receive_all (go_suite sg vf) (map encode ws) b = Some (map shown (queued_texts a), b')
    \<and> channel (go_suite sg vf) v a' b' \<and> resend_m (c_resend a') = []"
  by (rule go.retransmit_delivers [OF assms])

theorem retransmission_delivery_witness:
  "\<exists>ws a' b'. retransmit sample_suite (queueing (sample_talker 200 256 130 257)) = Some (Inr (map Some ws), a')
    \<and> receive_all sample_suite (map encode ws) (sample_talker 130 257 200 256) = Some ([Some (str ''[resent] hi'')], b')
    \<and> channel sample_suite OtrV3 a' b' \<and> resend_m (c_resend a') = []"
proof -
  let ?a = "queueing (sample_talker 200 256 130 257)"
  have c: "channel sample_suite OtrV3 ?a (sample_talker 130 257 200 256)" "publics sample_suite ?a \<inter> publics sample_suite (sample_talker 130 257 200 256) = {}"
    "plenty (length (resend_m (c_resend ?a))) ?a" "plenty (length (resend_m (c_resend ?a))) (sample_talker 130 257 200 256)"
    using queueing_keeps(1) [OF sample_talk] sample_talk_apart sample_talker_plenty [THEN plenty_mono, of 1] by (simp_all add: queueing_keeps(2-4))
  have "queued_texts ?a = [str ''[resent] hi'']" by (rule queueing_texts) (simp add: sample_talker_def sample_session_def sample_party_def nil_conversation_def nil_resend_def)
  moreover have "sendable (str ''[resent] hi'')" "shown (str ''[resent] hi'') = Some (str ''[resent] hi'')" by (simp_all add: sendable_def str_def shown_def)
  ultimately show ?thesis
    using retransmission_delivery [OF c(1) [unfolded sample_suite_def] _ c(3,4) c(2) [unfolded sample_suite_def], folded sample_suite_def] by simp
qed

end
